(* ===== verification/Prelude.thy ===== *)
theory Prelude
  imports Main "HOL-Library.Word" "HOL-Library.List_Lexorder" "HOL-Library.Char_ord"
begin

section \<open>Shared types, result combinators and list functions\<close>

text \<open>
  What every component of the development uses: machine integers, the \<open>Result\<close> type of
  Rust as a sum with the error on the left, state-passing computations that may fail, and the
  string and slice functions of the Rust standard library the sources call. A Rust \<open>String\<close>
  is the list of its UTF-8 bytes (\<^typ>\<open>string\<close>), so \<open>len\<close> is \<^const>\<open>length\<close> and the derived
  order is the bytewise lexicographic one of \<open>List_Lexorder\<close> over \<open>Char_ord\<close>.
\<close>

type_synonym byte = "8 word"
type_synonym bytes = "byte list"
type_synonym u16 = "16 word"
type_synonym u32 = "32 word"
type_synonym u64 = "64 word"
type_synonym uuid = "128 word"

type_synonym ('w, 'e, 'a) op = "'w \<Rightarrow> ('e + 'a) \<times> 'w"

named_theorems res_simps \<open>unfolding rules of the result and state combinators\<close>
named_theorems wf_intros \<open>introduction rules of well-formedness invariants\<close>
named_theorems keeps_simps \<open>which fields an operation leaves alone\<close>

subsection \<open>Results\<close>

text \<open>\<open>res_bind\<close> is the question mark operator: an error returns at once.\<close>

definition res_bind :: "'e + 'a \<Rightarrow> ('a \<Rightarrow> 'e + 'b) \<Rightarrow> 'e + 'b" where
  "res_bind r f = (case r of Inl e \<Rightarrow> Inl e | Inr x \<Rightarrow> f x)"

definition ok_or :: "'a option \<Rightarrow> 'e \<Rightarrow> 'e + 'a" where
  "ok_or x e = (case x of None \<Rightarrow> Inl e | Some y \<Rightarrow> Inr y)"

definition map_err :: "('e \<Rightarrow> 'f) \<Rightarrow> 'e + 'a \<Rightarrow> 'f + 'a" where
  "map_err f r = (case r of Inl e \<Rightarrow> Inl (f e) | Inr x \<Rightarrow> Inr x)"

text \<open>\<open>res_map\<close> is \<open>iter().map(f).collect::<Result<Vec<_>, _>>()\<close>.\<close>

fun res_map :: "('a \<Rightarrow> 'e + 'b) \<Rightarrow> 'a list \<Rightarrow> 'e + 'b list" where
  "res_map f [] = Inr []"
| "res_map f (x # xs) = res_bind (f x) (\<lambda>y. res_bind (res_map f xs) (\<lambda>ys. Inr (y # ys)))"

definition op_bind :: "('w, 'e, 'a) op \<Rightarrow> ('a \<Rightarrow> ('w, 'e, 'b) op) \<Rightarrow> ('w, 'e, 'b) op" where
  "op_bind m f w = (case m w of (Inl e, w') \<Rightarrow> (Inl e, w') | (Inr x, w') \<Rightarrow> f x w')"

definition op_lift :: "'e + 'a \<Rightarrow> ('w, 'e, 'a) op" where
  "op_lift r w = (r, w)"

definition op_get :: "('w \<Rightarrow> 'a) \<Rightarrow> ('w, 'e, 'a) op" where
  "op_get f w = (Inr (f w), w)"

definition op_modify :: "('w \<Rightarrow> 'w) \<Rightarrow> ('w, 'e, unit) op" where
  "op_modify f w = (Inr (), f w)"

lemma res_bind_simps [simp, res_simps]:
  "res_bind (Inl e) f = Inl e"
  "res_bind (Inr x) f = f x"
  by (simp_all add: res_bind_def)

lemma res_bind_eq_Inr [simp]: "res_bind r f = Inr y \<longleftrightarrow> (\<exists>x. r = Inr x \<and> f x = Inr y)"
  by (cases r) simp_all

lemma res_bind_eq_Inl [simp]:
  "res_bind r f = Inl e \<longleftrightarrow> r = Inl e \<or> (\<exists>x. r = Inr x \<and> f x = Inl e)"
  by (cases r) auto

lemma ok_or_simps [simp, res_simps]:
  "ok_or None e = Inl e"
  "ok_or (Some x) e = Inr x"
  by (simp_all add: ok_or_def)

lemma ok_or_eq_Inr [simp]: "ok_or r e = Inr y \<longleftrightarrow> r = Some y"
  by (cases r) simp_all

lemma ok_or_eq_Inl [simp]: "ok_or r e = Inl f \<longleftrightarrow> r = None \<and> e = f"
  by (cases r) auto

lemma map_err_simps [simp, res_simps]:
  "map_err f (Inl e) = Inl (f e)"
  "map_err f (Inr x) = Inr x"
  by (simp_all add: map_err_def)

lemma map_err_eq_Inr [simp]: "map_err f r = Inr y \<longleftrightarrow> r = Inr y"
  by (cases r) simp_all

lemma res_map_eq_Inr: "res_map f xs = Inr ys \<longleftrightarrow> list_all2 (\<lambda>x y. f x = Inr y) xs ys"
  by (induction xs arbitrary: ys) (auto simp: list_all2_Cons1)

lemma res_map_total: "(\<forall>x \<in> set xs. f x = Inr (g x)) \<Longrightarrow> res_map f xs = Inr (map g xs)"
  by (induction xs) auto

lemma res_map_eq_Inl: "res_map f xs = Inl e \<Longrightarrow> \<exists>x \<in> set xs. f x = Inl e"
  by (induction xs) auto

lemma res_map_Inr_eq:
  assumes "\<forall>x \<in> set xs. \<forall>y. f x = Inr y \<longrightarrow> y = g x" and "res_map f xs = Inr ys"
  shows "ys = map g xs"
  using assms by (induction xs arbitrary: ys) auto

lemma op_bind_eq_Inr:
  "op_bind m f w = (Inr y, w'') \<longleftrightarrow> (\<exists>x w'. m w = (Inr x, w') \<and> f x w' = (Inr y, w''))"
  by (auto simp: op_bind_def split: prod.splits sum.splits)

lemma op_bind_Inr [simp, res_simps]: "m w = (Inr x, w') \<Longrightarrow> op_bind m f w = f x w'"
  by (simp add: op_bind_def)

lemma op_bind_Inl [simp, res_simps]: "m w = (Inl e, w') \<Longrightarrow> op_bind m f w = (Inl e, w')"
  by (simp add: op_bind_def)

lemma op_bind_cases:
  assumes "op_bind m f w = (r, w'')"
  obtains (err) e where "m w = (Inl e, w'')" and "r = Inl e"
    | (ok) x w' where "m w = (Inr x, w')" and "f x w' = (r, w'')"
  using assms by (auto simp: op_bind_def split: prod.splits sum.splits)

lemma op_lift_simps [simp, res_simps]: "op_lift r w = (r, w)"
  by (simp add: op_lift_def)

lemma op_get_simps [simp, res_simps]: "op_get f w = (Inr (f w), w)"
  by (simp add: op_get_def)

lemma op_modify_simps [simp, res_simps]: "op_modify f w = (Inr (), f w)"
  by (simp add: op_modify_def)

subsection \<open>Machine integers\<close>

text \<open>
  Unsigned addition wraps, as in a release build; \<open>u64::try_from(usize)\<close> and
  \<open>saturating_add\<close> are written out.
\<close>

definition u64_max :: u64 where
  "u64_max = 18446744073709551615"

definition u64_try_from :: "nat \<Rightarrow> u64 option" where
  "u64_try_from n = (if n < 2 ^ 64 then Some (of_nat n) else None)"

definition saturating_add_u64 :: "u64 \<Rightarrow> u64 \<Rightarrow> u64" where
  "saturating_add_u64 a b = (if unat a + unat b < 2 ^ 64 then a + b else u64_max)"

lemma unat_u64_max: "unat u64_max = 2 ^ 64 - 1"
  by (simp add: u64_max_def)

lemma u64_try_from_Some: "u64_try_from n = Some x \<Longrightarrow> unat x = n"
  by (auto simp: u64_try_from_def unat_of_nat split: if_splits)

lemma u64_try_from_eq_None [simp]: "u64_try_from n = None \<longleftrightarrow> 2 ^ 64 \<le> n"
  by (simp add: u64_try_from_def)

lemma unat_saturating_add_u64:
  "unat (saturating_add_u64 a b) = min (unat a + unat b) (2 ^ 64 - 1)"
  by (auto simp: saturating_add_u64_def unat_u64_max unat_word_ariths)

lemma u64_add_one_neq [simp]: "(x :: u64) + 1 \<noteq> x"
  by simp

lemma unat_u64_succ: "x \<noteq> u64_max \<Longrightarrow> unat (x + 1) = Suc (unat x)"
proof -
  assume "x \<noteq> u64_max"
  then have "unat x \<noteq> 2 ^ 64 - 1"
    using unat_u64_max by (metis word_unat_eq_iff)
  moreover have "unat x < 2 ^ 64"
    using unsigned_less [of x] by simp
  ultimately have "unat x + 1 < 2 ^ 64" by linarith
  then show ?thesis by (simp add: unat_word_ariths)
qed

lemma u64_add_of_nat_eq:
  fixes x :: u64
  assumes "n < 2 ^ 64" and "x + of_nat n = x"
  shows "n = 0"
proof -
  from assms(2) have "(of_nat n :: u64) = 0" by simp
  then have "unat (of_nat n :: u64) = 0" by simp
  with assms(1) show ?thesis by (simp add: unat_of_nat)
qed

lemma unat_u64_bound: "unat (x :: u64) < 2 ^ 64"
  using unsigned_less [of x] by simp

text \<open>Evaluation goes through binary integers.\<close>

lemma u64_try_from_code [code]:
  "u64_try_from n = (if int n < 18446744073709551616 then Some (of_nat n) else None)"
  by (simp add: u64_try_from_def)

lemma saturating_add_u64_code [code]:
  "saturating_add_u64 a b = (if uint a + uint b < 18446744073709551616 then a + b else u64_max)"
proof -
  have "int (unat a + unat b) = uint a + uint b" by simp
  then have "unat a + unat b < 18446744073709551616 \<longleftrightarrow> uint a + uint b < 18446744073709551616"
    by linarith
  then show ?thesis by (simp add: saturating_add_u64_def)
qed

end
