(* ===== verification/BTree_Map.thy ===== *)
theory BTree_Map
  imports Rust_Std
begin

section \<open>Ordered maps: \<open>std::collections::BTreeMap\<close>\<close>

text \<open>
  A \<open>BTreeMap\<close> is the association list of its entries in key order, so that \<open>values()\<close>,
  \<open>keys()\<close> and \<open>iter()\<close> visit entries in the order the source does. Lookup is
  \<^const>\<open>map_of\<close>; \<open>bt_ok\<close> says that the keys are strictly increasing. The contract of such a
  map is the locale \<open>ordered_map\<close>, which the list representation interprets.
\<close>

type_synonym ('k, 'v) btree_map = "('k \<times> 'v) list"

subsection \<open>Operations\<close>

fun bt_insert :: "'k :: linorder \<Rightarrow> 'v \<Rightarrow> ('k, 'v) btree_map \<Rightarrow> ('k, 'v) btree_map" where
  "bt_insert k v [] = [(k, v)]"
| "bt_insert k v ((a, b) # m) =
     (if k < a then (k, v) # (a, b) # m
      else if k = a then (k, v) # m
      else (a, b) # bt_insert k v m)"

definition bt_remove :: "'k \<Rightarrow> ('k, 'v) btree_map \<Rightarrow> ('k, 'v) btree_map" where
  "bt_remove k m = filter (\<lambda>p. fst p \<noteq> k) m"

text \<open>\<open>get_mut\<close> followed by an update of the value, if the key is there.\<close>

definition bt_adjust :: "'k \<Rightarrow> ('v \<Rightarrow> 'v) \<Rightarrow> ('k, 'v) btree_map \<Rightarrow> ('k, 'v) btree_map" where
  "bt_adjust k f m = map (\<lambda>(a, b). (a, if a = k then f b else b)) m"

definition bt_retain :: "('k \<Rightarrow> bool) \<Rightarrow> ('k, 'v) btree_map \<Rightarrow> ('k, 'v) btree_map" where
  "bt_retain P m = filter (\<lambda>p. P (fst p)) m"

abbreviation bt_values :: "('k, 'v) btree_map \<Rightarrow> 'v list" where
  "bt_values m \<equiv> map snd m"

abbreviation bt_keys :: "('k, 'v) btree_map \<Rightarrow> 'k list" where
  "bt_keys m \<equiv> map fst m"

definition bt_ok :: "('k :: linorder, 'v) btree_map \<Rightarrow> bool" where
  "bt_ok m \<longleftrightarrow> sorted_wrt (<) (map fst m)"

text \<open>\<open>BTreeSet<K>\<close> is \<open>BTreeMap<K, ()>\<close>; \<open>extend\<close> inserts each element.\<close>

type_synonym 'k btree_set = "('k, unit) btree_map"

definition bts_extend :: "'k :: linorder list \<Rightarrow> 'k btree_set \<Rightarrow> 'k btree_set" where
  "bts_extend ks s = fold (\<lambda>k. bt_insert k ()) ks s"

subsection \<open>Lookup laws\<close>

lemma map_of_bt_insert [simp]: "map_of (bt_insert k v m) = (map_of m)(k \<mapsto> v)"
  by (induction m) auto

lemma map_of_bt_remove [simp]: "map_of (bt_remove k m) = (map_of m)(k := None)"
  by (induction m) (auto simp: bt_remove_def)

lemma map_of_bt_adjust [simp]:
  "map_of (bt_adjust k f m) = (map_of m)(k := map_option f (map_of m k))"
  by (induction m) (auto simp: bt_adjust_def)

lemma map_of_bt_retain [simp]: "map_of (bt_retain P m) k = (if P k then map_of m k else None)"
  by (induction m) (auto simp: bt_retain_def)

lemma bt_keys_adjust [simp]: "bt_keys (bt_adjust k f m) = bt_keys m"
  by (auto simp: bt_adjust_def)

lemma set_bt_insert_keys [simp]: "fst ` set (bt_insert k v m) = insert k (fst ` set m)"
  by (induction k v m rule: bt_insert.induct) (simp_all add: insert_commute)

subsection \<open>The key order\<close>

lemma bt_ok_Nil [simp, wf_intros]: "bt_ok []"
  by (simp add: bt_ok_def)

lemma bt_ok_singleton [simp]: "bt_ok [(k, v)]"
  by (simp add: bt_ok_def)

lemma bt_ok_insert [simp, wf_intros]: "bt_ok m \<Longrightarrow> bt_ok (bt_insert k v m)"
proof (induction m)
  case (Cons p m)
  obtain a b where p: "p = (a, b)" by (cases p)
  have "\<forall>x \<in> fst ` set (bt_insert k v m). a < x" if "a < k"
    using Cons.prems p that by (auto simp: bt_ok_def)
  with Cons p show ?case by (fastforce simp: bt_ok_def)
qed (simp add: bt_ok_def)

lemma bt_ok_filter: "bt_ok m \<Longrightarrow> bt_ok (filter P m)"
  unfolding bt_ok_def by (induction m) auto

lemma bt_ok_remove [simp, wf_intros]: "bt_ok m \<Longrightarrow> bt_ok (bt_remove k m)"
  by (simp add: bt_remove_def bt_ok_filter)

lemma bt_ok_retain [simp, wf_intros]: "bt_ok m \<Longrightarrow> bt_ok (bt_retain P m)"
  by (simp add: bt_retain_def bt_ok_filter)

lemma bt_ok_adjust [simp, wf_intros]: "bt_ok (bt_adjust k f m) = bt_ok m"
  unfolding bt_ok_def by simp

lemma bt_ok_sorted: "bt_ok m \<Longrightarrow> sorted_wrt (<) (bt_keys m)"
  by (simp add: bt_ok_def)

lemma bt_ok_distinct: "bt_ok m \<Longrightarrow> distinct (bt_keys m)"
  unfolding bt_ok_def by (rule sorted_wrt_less_distinct)

lemma bt_get_iff: "bt_ok m \<Longrightarrow> map_of m k = Some v \<longleftrightarrow> (k, v) \<in> set m"
  by (simp add: bt_ok_distinct map_of_eq_Some_iff)

lemma bt_values_iff:
  assumes "bt_ok m"
  shows "v \<in> set (bt_values m) \<longleftrightarrow> (\<exists>k. map_of m k = Some v)"
  unfolding bt_get_iff [OF assms] by (auto intro: rev_image_eqI)

lemma bt_ex_value:
  assumes "bt_ok m"
  shows "(\<exists>v \<in> set (bt_values m). P v) \<longleftrightarrow> (\<exists>k v. map_of m k = Some v \<and> P v)"
  using bt_values_iff [OF assms] by blast

lemma bts_extend_simps [simp]:
  "bts_extend [] s = s"
  "bts_extend (k # ks) s = bts_extend ks (bt_insert k () s)"
  by (simp_all add: bts_extend_def)

lemma bts_extend_keys [simp]: "fst ` set (bts_extend ks s) = set ks \<union> fst ` set s"
  by (induction ks arbitrary: s) auto

lemma bts_extend_ok [simp, wf_intros]: "bt_ok s \<Longrightarrow> bt_ok (bts_extend ks s)"
  by (induction ks arbitrary: s) auto

subsection \<open>The contract\<close>

text \<open>
  What a client relies on: lookups after updates, the invariant kept by every operation, and
  that iteration lists exactly the bound keys, in increasing order.
\<close>

locale ordered_map =
  fixes empty :: 'm
    and insert_key :: "'k :: linorder \<Rightarrow> 'v \<Rightarrow> 'm \<Rightarrow> 'm"
    and remove_key :: "'k \<Rightarrow> 'm \<Rightarrow> 'm"
    and get :: "'m \<Rightarrow> 'k \<Rightarrow> 'v option"
    and keys_of :: "'m \<Rightarrow> 'k list"
    and invar :: "'m \<Rightarrow> bool"
  assumes get_empty: "get empty = Map.empty"
    and get_insert: "get (insert_key k v m) = (get m)(k \<mapsto> v)"
    and get_remove: "get (remove_key k m) = (get m)(k := None)"
    and invar_empty: "invar empty"
    and invar_insert: "invar m \<Longrightarrow> invar (insert_key k v m)"
    and invar_remove: "invar m \<Longrightarrow> invar (remove_key k m)"
    and keys_dom: "invar m \<Longrightarrow> set (keys_of m) = dom (get m)"
    and keys_sorted: "invar m \<Longrightarrow> sorted_wrt (<) (keys_of m)"
begin

lemma finite_dom: "invar m \<Longrightarrow> finite (dom (get m))"
  by (metis List.finite_set keys_dom)

lemma keys_enumerate: "invar m \<Longrightarrow> keys_of m = sorted_list_of_set (dom (get m))"
  by (metis keys_dom keys_sorted sorted_list_of_set.idem_if_sorted_distinct strict_sorted_iff)

lemma keys_of_insert:
  "invar m \<Longrightarrow> keys_of (insert_key k v m) = sorted_list_of_set (insert k (dom (get m)))"
  by (simp add: keys_enumerate invar_insert get_insert)

end

interpretation bt: ordered_map "[]" bt_insert bt_remove map_of "map fst" bt_ok
  by unfold_locales (simp_all add: dom_map_of_conv_image_fst bt_ok_sorted)

lemma bt_keys_eq_sorted_dom:
  "bt_ok m \<Longrightarrow> bt_keys m = sorted_list_of_set (dom (map_of m))"
  by (rule bt.keys_enumerate)

end
