(* ===== verification/Identifier.thy ===== *)
theory Identifier
  imports BTree_Map
begin

section \<open>Namespaced identifiers and descriptors\<close>

text \<open>
  The crate \<open>kubeweft-model\<close> (\<open>identifier.rs\<close>): validation of dot-separated identifiers
  and the three identifier types its macro defines; the descriptor types of the boundary crates
  that only wrap such an identifier; and \<open>kubeweft-identity\<close>, which derives a device
  identifier from the SHA-256 fingerprint of a public key. The hash function is code outside
  the repository and is an argument of the definitions that use it.
\<close>

subsection \<open>Validation\<close>

datatype invalid_identifier = MissingNamespace | EmptySegment | InvalidCharacter

definition invalid_identifier_display :: "invalid_identifier \<Rightarrow> string" where
  "invalid_identifier_display e = (case e of
     MissingNamespace \<Rightarrow> ''identifier must contain at least one dot-separated namespace''
   | EmptySegment \<Rightarrow> ''identifier segments must not be empty''
   | InvalidCharacter \<Rightarrow> ''identifier segments may contain only lowercase ASCII letters, digits, hyphens, or underscores'')"

definition identifier_char :: "char \<Rightarrow> bool" where
  "identifier_char c \<longleftrightarrow>
     is_ascii_lowercase c \<or> is_ascii_digit c \<or> c = CHR ''-'' \<or> c = CHR ''_''"

fun validate_segments :: "string list \<Rightarrow> invalid_identifier + unit" where
  "validate_segments [] = Inr ()"
| "validate_segments (segment # segments) =
     (if segment = [] then Inl EmptySegment
      else if \<not> list_all identifier_char segment then Inl InvalidCharacter
      else validate_segments segments)"

definition validate_identifier :: "string \<Rightarrow> invalid_identifier + unit" where
  "validate_identifier value = (case split_on CHR ''.'' value of
     [] \<Rightarrow> Inl MissingNamespace
   | [first] \<Rightarrow> Inl MissingNamespace
   | first # second # segments \<Rightarrow> validate_segments (first # second # segments))"

subsection \<open>The identifier types\<close>

datatype device_id = DeviceId (device_id_str: string)

datatype capability_id = CapabilityId (capability_id_str: string)

datatype job_id = JobId (job_id_str: string)

definition device_id_new :: "string \<Rightarrow> invalid_identifier + device_id" where
  "device_id_new value = res_bind (validate_identifier value) (\<lambda>_. Inr (DeviceId value))"

definition capability_id_new :: "string \<Rightarrow> invalid_identifier + capability_id" where
  "capability_id_new value = res_bind (validate_identifier value) (\<lambda>_. Inr (CapabilityId value))"

definition job_id_new :: "string \<Rightarrow> invalid_identifier + job_id" where
  "job_id_new value = res_bind (validate_identifier value) (\<lambda>_. Inr (JobId value))"

text \<open>Serialisation writes the string; deserialisation validates it again.\<close>

definition device_id_serialize :: "device_id \<Rightarrow> string" where
  "device_id_serialize d = device_id_str d"

definition device_id_deserialize :: "string \<Rightarrow> string + device_id" where
  "device_id_deserialize value = map_err invalid_identifier_display (device_id_new value)"

definition valid_device_id :: "device_id \<Rightarrow> bool" where
  "valid_device_id d \<longleftrightarrow> validate_identifier (device_id_str d) = Inr ()"

instantiation device_id :: linorder
begin

definition less_eq_device_id :: "device_id \<Rightarrow> device_id \<Rightarrow> bool" where
  "less_eq_device_id a b \<longleftrightarrow> device_id_str a \<le> device_id_str b"

definition less_device_id :: "device_id \<Rightarrow> device_id \<Rightarrow> bool" where
  "less_device_id a b \<longleftrightarrow> device_id_str a < device_id_str b"

instance
  by standard (auto simp: less_eq_device_id_def less_device_id_def device_id.expand)

end

lemma device_id_less_simps [simp]:
  "DeviceId a < DeviceId b \<longleftrightarrow> a < b"
  "DeviceId a \<le> DeviceId b \<longleftrightarrow> a \<le> b"
  by (simp_all add: less_eq_device_id_def less_device_id_def)

subsection \<open>Descriptors of the boundary crates\<close>

record capability_descriptor =
  cd_id :: capability_id

record agent_descriptor =
  ad_device_id :: device_id

record plugin_descriptor =
  pd_name :: string

record route_request =
  source_device_id :: device_id
  destination_device_id :: device_id

datatype authorization_decision = Allow | Deny

subsection \<open>Device identity\<close>

type_synonym hash_function = "bytes \<Rightarrow> bytes"

record device_public_key =
  pk_bytes :: bytes

datatype invalid_public_key = InvalidPublicKey

definition public_key_length :: nat where
  "public_key_length = 32"

definition try_from_slice :: "bytes \<Rightarrow> invalid_public_key + device_public_key" where
  "try_from_slice bs =
     (if length bs = public_key_length then Inr \<lparr>pk_bytes = bs\<rparr> else Inl InvalidPublicKey)"

definition string_bytes :: "string \<Rightarrow> bytes" where
  "string_bytes s = map (\<lambda>c. of_nat (of_char c)) s"

definition device_id_domain :: bytes where
  "device_id_domain =
     string_bytes ''kubeweft-device-identity-v1'' @ [0] @ string_bytes ''x25519'' @ [0]"

text \<open>\<open>expect\<close> panics on an invalid identifier, which is the result \<open>None\<close>.\<close>

definition public_key_device_id :: "hash_function \<Rightarrow> device_public_key \<Rightarrow> device_id option" where
  "public_key_device_id sha256 key =
     (case device_id_new (''device.'' @ hex_bytes (sha256 (device_id_domain @ pk_bytes key))) of
        Inl e \<Rightarrow> None | Inr d \<Rightarrow> Some d)"

subsection \<open>What validation accepts\<close>

lemma validate_segments_iff:
  "validate_segments ss = Inr () \<longleftrightarrow> (\<forall>s \<in> set ss. s \<noteq> [] \<and> list_all identifier_char s)"
  by (induction ss) auto

lemma validate_identifier_iff:
  "validate_identifier v = Inr () \<longleftrightarrow>
     2 \<le> length (split_on CHR ''.'' v) \<and>
     (\<forall>s \<in> set (split_on CHR ''.'' v). s \<noteq> [] \<and> list_all identifier_char s)"
  by (auto simp: validate_identifier_def validate_segments_iff split: list.splits)

lemma validate_identifier_dotted:
  assumes "a \<noteq> []" "b \<noteq> []" "list_all identifier_char a" "list_all identifier_char b"
  shows "validate_identifier (a @ CHR ''.'' # b) = Inr ()"
proof -
  have "\<not> identifier_char CHR ''.''"
    by (simp add: identifier_char_def is_ascii_lowercase_def is_ascii_digit_def less_eq_char_def)
  with assms have "CHR ''.'' \<notin> set a" and "CHR ''.'' \<notin> set b"
    by (auto simp: list_all_iff)
  then have "split_on CHR ''.'' (a @ CHR ''.'' # b) = [a, b]"
    by (simp add: split_on_append split_on_simple)
  with assms show ?thesis by (simp add: validate_identifier_def)
qed

lemma hex_identifier_chars: "list_all identifier_char (hex_bytes bs)"
  by (auto simp: list_all_iff identifier_char_def dest!: hex_bytes_digits hex_digits_classes(1))

lemma device_fingerprint_valid:
  assumes "h \<noteq> []"
  shows "validate_identifier (''device.'' @ hex_bytes h) = Inr ()"
proof -
  have "list_all identifier_char ''device''"
    by (simp add: identifier_char_def is_ascii_lowercase_def is_ascii_digit_def less_eq_char_def)
  moreover have "hex_bytes h \<noteq> []"
    using assms length_hex_bytes [of h] by (metis length_0_conv mult_is_0 numeral_eq_Suc old.nat.distinct(2))
  ultimately show ?thesis
    using validate_identifier_dotted [of "''device''" "hex_bytes h"] hex_identifier_chars by simp
qed

subsection \<open>Properties\<close>

text \<open>
  Deserialising a device identifier accepts exactly the strings of at least two
  dot-separated, non-empty segments over the identifier alphabet, and serialising the result gives
  the string back.
\<close>

theorem device_id_deserialize_iff:
  "device_id_deserialize v = Inr d \<longleftrightarrow>
     device_id_serialize d = v \<and> 2 \<le> length (split_on CHR ''.'' v) \<and>
     list_all (\<lambda>s. s \<noteq> [] \<and> list_all identifier_char s) (split_on CHR ''.'' v)"
  using validate_identifier_iff [of v]
  by (cases d; cases "validate_identifier v")
     (auto simp: device_id_deserialize_def device_id_new_def device_id_serialize_def list_all_iff)

text \<open>
  Deriving a device identifier from a public key never panics, and the identifier is one the
  validation accepts, as long as the hash returns a non-empty digest.
\<close>

theorem public_key_device_id_total:
  assumes "\<And>bs. sha256 bs \<noteq> []"
  shows "\<exists>d. public_key_device_id sha256 key = Some d \<and> valid_device_id d \<and>
    device_id_deserialize (device_id_serialize d) = Inr d"
  using device_fingerprint_valid [OF assms]
  by (simp add: public_key_device_id_def device_id_new_def valid_device_id_def
      device_id_deserialize_def device_id_serialize_def)

theorem public_key_device_id_total_witness:
  "\<exists>d. public_key_device_id (\<lambda>bs. [of_nat (length bs), 7]) \<lparr>pk_bytes = replicate 32 1\<rparr> = Some d \<and>
    valid_device_id d \<and> device_id_deserialize (device_id_serialize d) = Inr d"
  using public_key_device_id_total [of "\<lambda>bs. [of_nat (length bs), 7]"] by simp

end
