(* ===== verification/Fs_Domain.thy ===== *)
theory Fs_Domain
  imports Identifier
begin

section \<open>Domain types of the logical filesystem\<close>

text \<open>
  The data of \<open>kubeweft-filesystem\<close>: \<open>domain.rs\<close> (identifiers, content identity,
  manifests, file and directory metadata, storage nodes, replicas and placements),
  \<open>error.rs\<close> and \<open>event.rs\<close>. Enum constructors that several source enums share carry the
  enum's name (\<open>PowerUnknown\<close>, \<open>FileTarget\<close>, \<open>DurHealthy\<close>).
\<close>

subsection \<open>Errors\<close>

datatype filesystem_error =
    NotFound | AlreadyExists | NotDirectory | IsDirectory | DirectoryNotEmpty | Conflict
  | ContentUnavailable | NoSpace | InvalidPath | NodeNotFound
  | MetadataUnavailable string | Storage string

definition filesystem_error_display :: "filesystem_error \<Rightarrow> string" where
  "filesystem_error_display e = (case e of
     NotFound \<Rightarrow> ''path not found''
   | AlreadyExists \<Rightarrow> ''path already exists''
   | NotDirectory \<Rightarrow> ''path component is not a directory''
   | IsDirectory \<Rightarrow> ''operation requires a file''
   | DirectoryNotEmpty \<Rightarrow> ''directory is not empty''
   | Conflict \<Rightarrow> ''file generation conflict''
   | ContentUnavailable \<Rightarrow> ''file exists, but its content is currently unavailable''
   | NoSpace \<Rightarrow> ''storage node has insufficient free space''
   | InvalidPath \<Rightarrow> ''invalid absolute filesystem path''
   | NodeNotFound \<Rightarrow> ''storage node not found''
   | MetadataUnavailable message \<Rightarrow> ''metadata unavailable: '' @ message
   | Storage message \<Rightarrow> ''content storage error: '' @ message)"

type_synonym 'a fs_result = "filesystem_error + 'a"

subsection \<open>Identifiers\<close>

datatype file_id = FileId (file_uuid: uuid)

datatype directory_id = DirectoryId (directory_uuid: uuid)

datatype lease_id = LeaseId (lease_uuid: uuid)

definition directory_id_root :: directory_id where
  "directory_id_root = DirectoryId 0"

datatype content_id = ContentId (content_id_str: string)

instantiation file_id :: linorder
begin

definition less_eq_file_id :: "file_id \<Rightarrow> file_id \<Rightarrow> bool" where
  "less_eq_file_id a b \<longleftrightarrow> file_uuid a \<le> file_uuid b"

definition less_file_id :: "file_id \<Rightarrow> file_id \<Rightarrow> bool" where
  "less_file_id a b \<longleftrightarrow> file_uuid a < file_uuid b"

instance
  by standard (auto simp: less_eq_file_id_def less_file_id_def file_id.expand)

end

instantiation directory_id :: linorder
begin

definition less_eq_directory_id :: "directory_id \<Rightarrow> directory_id \<Rightarrow> bool" where
  "less_eq_directory_id a b \<longleftrightarrow> directory_uuid a \<le> directory_uuid b"

definition less_directory_id :: "directory_id \<Rightarrow> directory_id \<Rightarrow> bool" where
  "less_directory_id a b \<longleftrightarrow> directory_uuid a < directory_uuid b"

instance
  by standard (auto simp: less_eq_directory_id_def less_directory_id_def directory_id.expand)

end

instantiation content_id :: linorder
begin

definition less_eq_content_id :: "content_id \<Rightarrow> content_id \<Rightarrow> bool" where
  "less_eq_content_id a b \<longleftrightarrow> content_id_str a \<le> content_id_str b"

definition less_content_id :: "content_id \<Rightarrow> content_id \<Rightarrow> bool" where
  "less_content_id a b \<longleftrightarrow> content_id_str a < content_id_str b"

instance
  by standard (auto simp: less_eq_content_id_def less_content_id_def content_id.expand)

end

lemma fs_id_less_simps [simp]:
  "FileId a < FileId b \<longleftrightarrow> a < b"
  "FileId a \<le> FileId b \<longleftrightarrow> a \<le> b"
  "DirectoryId c < DirectoryId d \<longleftrightarrow> c < d"
  "DirectoryId c \<le> DirectoryId d \<longleftrightarrow> c \<le> d"
  "ContentId s < ContentId t \<longleftrightarrow> s < t"
  "ContentId s \<le> ContentId t \<longleftrightarrow> s \<le> t"
  by (simp_all add: less_eq_file_id_def less_file_id_def less_eq_directory_id_def
      less_directory_id_def less_eq_content_id_def less_content_id_def)

subsection \<open>Content identity\<close>

definition for_bytes :: "hash_function \<Rightarrow> bytes \<Rightarrow> content_id" where
  "for_bytes sha256 bs = ContentId (''sha256:'' @ hex_bytes (sha256 bs))"

definition matches :: "hash_function \<Rightarrow> content_id \<Rightarrow> bytes \<Rightarrow> bool" where
  "matches sha256 cid bs \<longleftrightarrow> cid = for_bytes sha256 bs"

definition content_id_from_str :: "string \<Rightarrow> content_id option" where
  "content_id_from_str value = (case strip_prefix ''sha256:'' value of
     None \<Rightarrow> None
   | Some hash \<Rightarrow>
       if length hash \<noteq> 64 \<or> \<not> list_all is_ascii_hexdigit hash then None
       else Some (ContentId (to_ascii_lowercase value)))"

definition content_id_serialize :: "content_id \<Rightarrow> string" where
  "content_id_serialize c = content_id_str c"

definition content_id_deserialize :: "string \<Rightarrow> string + content_id" where
  "content_id_deserialize value =
     ok_or (content_id_from_str value) ''invalid SHA-256 content id''"

record chunk_reference =
  cr_content_id :: content_id
  cr_offset :: u64
  cr_size :: u64

record content_manifest =
  cm_size :: u64
  cm_chunks :: "chunk_reference list"

definition manifest_single :: "content_id \<Rightarrow> u64 \<Rightarrow> content_manifest" where
  "manifest_single cid sz =
     \<lparr>cm_size = sz, cm_chunks = [\<lparr>cr_content_id = cid, cr_offset = 0, cr_size = sz\<rparr>]\<rparr>"

definition manifest_content_id :: "content_manifest \<Rightarrow> content_id option" where
  "manifest_content_id m =
     (if length (cm_chunks m) = 1 then Some (cr_content_id (cm_chunks m ! 0)) else None)"

subsection \<open>Files, directories and entries\<close>

datatype file_type = TypeFile | TypeDirectory

record write_lease =
  wl_id :: lease_id
  wl_holder :: device_id
  wl_expires_at_millis :: u64
  wl_fencing_token :: u64

record file_metadata =
  fm_id :: file_id
  fm_size :: u64
  fm_generation :: u64
  fm_created_at_millis :: u64
  fm_modified_at_millis :: u64
  fm_manifest :: "content_manifest option"
  fm_write_lease :: "write_lease option"

record directory_metadata =
  dm_id :: directory_id
  dm_generation :: u64
  dm_created_at_millis :: u64
  dm_modified_at_millis :: u64

datatype namespace_target = FileTarget file_id | DirTarget directory_id

record namespace_entry =
  ne_parent :: directory_id
  ne_name :: string
  ne_target :: namespace_target

subsection \<open>Nodes, replicas and placements\<close>

datatype power_source = Mains | Battery | PowerUnknown

datatype availability = Stable | Intermittent | AvailabilityUnknown

datatype network_kind = Lan | Wifi | Cellular | NetworkUnknown

record storage_node =
  sn_device_id :: device_id
  sn_online :: bool
  sn_free_space :: u64
  sn_total_space :: u64
  sn_power :: power_source
  sn_availability :: availability
  sn_network :: network_kind

datatype replica_state = Healthy | Pending | Offline | Missing | Corrupted

record replica =
  rp_node_id :: device_id
  rp_state :: replica_state

datatype durability_status = DurHealthy | DurDegraded

datatype content_retention = LiveReference | SnapshotRetention | GarbageCandidate

definition is_retained :: "content_retention \<Rightarrow> bool" where
  "is_retained r = (case r of LiveReference \<Rightarrow> True | SnapshotRetention \<Rightarrow> True | GarbageCandidate \<Rightarrow> False)"

record content_placement =
  cp_content_id :: content_id
  cp_desired_replica_count :: nat
  cp_replicas :: "replica list"

text \<open>The states that count as a copy being present (\<open>matches!(.., Healthy | Offline)\<close>).\<close>

definition replica_present :: "replica \<Rightarrow> bool" where
  "replica_present r \<longleftrightarrow> rp_state r = Healthy \<or> rp_state r = Offline"

definition durability :: "content_placement \<Rightarrow> durability_status" where
  "durability p =
     (if cp_desired_replica_count p \<le> length (filter replica_present (cp_replicas p))
      then DurHealthy else DurDegraded)"

subsection \<open>Events\<close>

datatype filesystem_event =
    FileCreated string file_id
  | FileVersionCommitted file_id u64 content_id
  | ReplicaCreated content_id device_id
  | ReplicaUnavailable content_id device_id
  | ReplicaCorrupted content_id device_id
  | ReplicationStarted content_id device_id device_id
  | ReplicationCompleted content_id device_id device_id
  | DurabilityDegraded content_id
  | DurabilityRestored content_id

text \<open>
  The two implementations of the trait \<open>EventSink\<close>. A recording sink whose mutex is poisoned
  drops new events and reads as empty.
\<close>

datatype event_sink = RecordingEventSink bool "filesystem_event list" | NoopEventSink

fun emit :: "filesystem_event \<Rightarrow> event_sink \<Rightarrow> event_sink" where
  "emit e (RecordingEventSink poisoned es) =
     RecordingEventSink poisoned (if poisoned then es else es @ [e])"
| "emit e NoopEventSink = NoopEventSink"

fun sink_events :: "event_sink \<Rightarrow> filesystem_event list" where
  "sink_events (RecordingEventSink poisoned es) = (if poisoned then [] else es)"
| "sink_events NoopEventSink = []"

subsection \<open>Laws\<close>

lemma matches_for_bytes [simp]: "matches sha256 (for_bytes sha256 bs) bs"
  by (simp add: matches_def)

lemma for_bytes_eq_iff [simp]: "for_bytes sha256 a = for_bytes sha256 b \<longleftrightarrow> sha256 a = sha256 b"
  by (simp add: for_bytes_def)

lemma hexdigit_to_lower: "is_ascii_hexdigit c \<Longrightarrow> is_ascii_hexdigit (to_ascii_lower c)"
  and to_lower_idem: "to_ascii_lower (to_ascii_lower c) = to_ascii_lower c"
proof -
  have lower: "is_ascii_uppercase c \<Longrightarrow> of_char (to_ascii_lower c) = (of_char c + 32 :: nat)"
    by (auto simp: to_ascii_lower_def is_ascii_uppercase_def less_eq_char_def)
  show "is_ascii_hexdigit c \<Longrightarrow> is_ascii_hexdigit (to_ascii_lower c)"
    using lower by (cases "is_ascii_uppercase c")
      (auto simp: is_ascii_hexdigit_def is_ascii_uppercase_def is_ascii_digit_def less_eq_char_def
        to_ascii_lower_def)
  show "to_ascii_lower (to_ascii_lower c) = to_ascii_lower c"
    using lower by (cases "is_ascii_uppercase c")
      (auto simp: to_ascii_lower_def is_ascii_uppercase_def less_eq_char_def)
qed

lemma manifest_content_id_single [simp]: "manifest_content_id (manifest_single c n) = Some c"
  by (simp add: manifest_content_id_def manifest_single_def)

lemma sink_events_emit:
  "sink_events (emit e s) = (case s of RecordingEventSink False es \<Rightarrow> es @ [e] | _ \<Rightarrow> [])"
  by (cases s) (auto split: bool.splits)

lemma durability_DurHealthy [simp]:
  "durability p = DurHealthy \<longleftrightarrow>
     cp_desired_replica_count p \<le> length (filter replica_present (cp_replicas p))"
  by (simp add: durability_def)

subsection \<open>Properties\<close>

lemma content_id_from_str_print:
  assumes "length h = 32"
  shows "content_id_from_str (''sha256:'' @ hex_bytes h) = Some (ContentId (''sha256:'' @ hex_bytes h))"
proof -
  have "map to_ascii_lower (hex_bytes h) = hex_bytes h"
    by (rule map_idI) (auto dest: hex_bytes_digits hex_digits_classes(3))
  moreover have "to_ascii_lowercase ''sha256:'' = ''sha256:''" by code_simp
  moreover have "list_all is_ascii_hexdigit (hex_bytes h)"
    by (auto simp: list_all_iff dest: hex_bytes_digits hex_digits_classes(2))
  moreover have "strip_prefix ''sha256:'' (''sha256:'' @ hex_bytes h) = Some (hex_bytes h)"
    by (rule strip_prefix_append)
  ultimately show ?thesis
    using assms unfolding content_id_from_str_def to_ascii_lowercase_def by simp
qed

text \<open>
  The content identifier of any data survives a round trip through its serialised form, and
  still matches the data, when the hash returns the 32 bytes of a SHA-256 digest.
\<close>

theorem content_id_roundtrip:
  assumes "\<And>bs. length (sha256 bs) = 32"
  shows "\<exists>cid. content_id_deserialize (content_id_serialize (for_bytes sha256 bs)) = Inr cid \<and>
    matches sha256 cid bs"
  using content_id_from_str_print [OF assms]
  by (simp add: content_id_deserialize_def content_id_serialize_def for_bytes_def matches_def)

theorem content_id_roundtrip_witness:
  "\<exists>cid. content_id_deserialize (content_id_serialize
       (for_bytes (\<lambda>bs. replicate 32 (of_nat (length bs))) [1, 2, 3])) = Inr cid \<and>
     matches (\<lambda>bs. replicate 32 (of_nat (length bs))) cid [1, 2, 3]"
  using content_id_roundtrip [of "\<lambda>bs. replicate 32 (of_nat (length bs))" "[1, 2, 3]"] by simp

text \<open>
  Parsing a content identifier normalises it: what was parsed parses again, to itself, so
  two spellings of a digest that differ in case give one identifier.
\<close>

theorem content_id_from_str_normal:
  assumes "content_id_from_str v = Some c"
  shows "content_id_from_str (content_id_serialize c) = Some c \<and>
    content_id_from_str (to_ascii_lowercase v) = Some c"
proof -
  from assms obtain h where v: "v = ''sha256:'' @ h" "length h = 64" "list_all is_ascii_hexdigit h"
    and c: "c = ContentId (to_ascii_lowercase v)"
    by (auto simp: content_id_from_str_def split: option.splits if_splits)
  have low: "to_ascii_lowercase v = ''sha256:'' @ map to_ascii_lower h"
  proof -
    have "to_ascii_lowercase ''sha256:'' = ''sha256:''" by code_simp
    then show ?thesis using v(1) by (simp add: to_ascii_lowercase_def)
  qed
  have "to_ascii_lowercase (to_ascii_lowercase v) = to_ascii_lowercase v"
    by (simp add: to_ascii_lowercase_def to_lower_idem)
  moreover have "list_all is_ascii_hexdigit (map to_ascii_lower h)"
    using v(3) hexdigit_to_lower by (auto simp: list_all_iff)
  moreover have "strip_prefix ''sha256:'' (''sha256:'' @ map to_ascii_lower h) = Some (map to_ascii_lower h)"
    by (rule strip_prefix_append)
  ultimately show ?thesis
    using v(2) low unfolding c content_id_from_str_def content_id_serialize_def by simp
qed

theorem content_id_from_str_normal_witness:
  "content_id_from_str (content_id_serialize (ContentId (''sha256:'' @ replicate 64 CHR ''a''))) =
     Some (ContentId (''sha256:'' @ replicate 64 CHR ''a'')) \<and>
   content_id_from_str (to_ascii_lowercase (''sha256:'' @ replicate 64 CHR ''A'')) =
     Some (ContentId (''sha256:'' @ replicate 64 CHR ''a''))"
proof (rule content_id_from_str_normal)
  show "content_id_from_str (''sha256:'' @ replicate 64 CHR ''A'') =
      Some (ContentId (''sha256:'' @ replicate 64 CHR ''a''))" by code_simp
qed

end
