(* ===== verification/Fs_Path.thy ===== *)
theory Fs_Path
  imports Fs_Domain
begin

section \<open>Absolute paths\<close>

text \<open>
  \<open>path.rs\<close>: parsing of absolute paths into components and the split into parent and last
  component. A parsed path (\<open>FsPath\<close>) is its list of components.
\<close>

type_synonym fs_path = "string list"

definition parse_component :: "string \<Rightarrow> string fs_result" where
  "parse_component component =
     (if component = [] \<or> component = ''.'' \<or> component = ''..'' then Inl InvalidPath
      else Inr component)"

definition fs_path_parse :: "string \<Rightarrow> fs_path fs_result" where
  "fs_path_parse path =
     (if (case path of [] \<Rightarrow> True | c # _ \<Rightarrow> c \<noteq> CHR ''/'') \<or> CHR 0x00 \<in> set path
      then Inl InvalidPath
      else if path = ''/'' then Inr []
      else if last path = CHR ''/'' then Inl InvalidPath
      else res_map parse_component (split_on CHR ''/'' (tl path)))"

definition split_parent :: "fs_path \<Rightarrow> (string list \<times> string) fs_result" where
  "split_parent components =
     (if components = [] then Inl InvalidPath else Inr (butlast components, last components))"

subsection \<open>What a component may be\<close>

definition valid_component :: "string \<Rightarrow> bool" where
  "valid_component s \<longleftrightarrow>
     s \<noteq> [] \<and> s \<noteq> ''.'' \<and> s \<noteq> ''..'' \<and> CHR ''/'' \<notin> set s \<and> CHR 0x00 \<notin> set s"

text \<open>The printer: the only spelling \<open>fs_path_parse\<close> accepts for a list of components.\<close>

definition render_path :: "fs_path \<Rightarrow> string" where
  "render_path cs = CHR ''/'' # join_with CHR ''/'' cs"

lemma res_map_parse_component:
  "res_map parse_component cs = Inr ds \<longleftrightarrow>
     ds = cs \<and> (\<forall>c \<in> set cs. c \<noteq> [] \<and> c \<noteq> ''.'' \<and> c \<noteq> ''..'')"
  by (induction cs arbitrary: ds) (auto simp: parse_component_def)

lemma res_map_parse_component_Inl:
  "res_map parse_component cs = Inl e \<Longrightarrow> e = InvalidPath"
  by (induction cs) (auto simp: parse_component_def split: if_splits)

lemma fs_path_parse_components:
  assumes "fs_path_parse path = Inr cs"
  shows "\<forall>c \<in> set cs. valid_component c" and "path = render_path cs"
proof -
  from assms obtain rest where path: "path = CHR ''/'' # rest" and nul: "CHR 0x00 \<notin> set path"
    by (auto simp: fs_path_parse_def split: list.splits if_splits)
  show "\<forall>c \<in> set cs. valid_component c"
  proof (cases "rest = []")
    case True
    with assms path show ?thesis by (simp add: fs_path_parse_def)
  next
    case False
    with assms path nul have cs: "cs = split_on CHR ''/'' rest"
      and ok: "\<forall>c \<in> set cs. c \<noteq> [] \<and> c \<noteq> ''.'' \<and> c \<noteq> ''..''"
      by (auto simp: fs_path_parse_def res_map_parse_component split: if_splits)
    from path nul have "CHR 0x00 \<notin> set rest" by simp
    with cs ok show ?thesis
      by (auto simp: valid_component_def dest: split_on_pieces set_split_on)
  qed
  show "path = render_path cs"
    using assms path by (cases "rest = []")
      (auto simp: fs_path_parse_def res_map_parse_component render_path_def join_split_on
        split: if_splits)
qed

lemma last_join_with:
  "cs \<noteq> [] \<Longrightarrow> \<forall>c \<in> set cs. c \<noteq> [] \<and> d \<notin> set c \<Longrightarrow>
     join_with d cs \<noteq> [] \<and> last (join_with d cs) \<noteq> d"
proof (induction d cs rule: join_with.induct)
  case (2 d p)
  then show ?case by (auto dest: last_in_set)
qed auto

lemma set_join_with: "x \<in> set (join_with d cs) \<Longrightarrow> x = d \<or> (\<exists>c \<in> set cs. x \<in> set c)"
  by (induction d cs rule: join_with.induct) auto

lemma fs_path_parse_render:
  assumes "\<forall>c \<in> set cs. valid_component c"
  shows "fs_path_parse (render_path cs) = Inr cs"
proof (cases "cs = []")
  case True
  then show ?thesis by (simp add: fs_path_parse_def render_path_def)
next
  case False
  from assms have sep: "\<forall>c \<in> set cs. c \<noteq> [] \<and> CHR ''/'' \<notin> set c"
    and ok: "res_map parse_component cs = Inr cs"
    by (auto simp: valid_component_def res_map_parse_component)
  from assms have "CHR 0x00 \<notin> set (join_with CHR ''/'' cs)"
    by (auto simp: valid_component_def dest: set_join_with)
  with False sep ok last_join_with [OF False sep] split_join_with [OF False]
  show ?thesis by (simp add: fs_path_parse_def render_path_def)
qed

lemma fs_path_parse_Inl: "fs_path_parse path = Inl e \<Longrightarrow> e = InvalidPath"
  by (auto simp: fs_path_parse_def dest: res_map_parse_component_Inl split: if_splits)

lemma split_parent_Inr [simp]:
  "split_parent cs = Inr (ps, n) \<longleftrightarrow> cs = ps @ [n]"
  by (auto simp: split_parent_def)

subsection \<open>Properties\<close>

text \<open>
  C36: a path is accepted exactly when it is the printed form of valid components, which are then
  the result; so parsing and printing are inverse to each other, and a component is never empty,
  \<open>.\<close>, \<open>..\<close> or contains a slash or a NUL.
\<close>

theorem fs_path_parse_iff:
  "fs_path_parse path = Inr cs \<longleftrightarrow> path = render_path cs \<and> list_all valid_component cs"
  using fs_path_parse_components [of path cs] fs_path_parse_render [of cs]
  by (auto simp: list_all_iff)

end
