(* ===== verification/Metadata.thy ===== *)
theory Metadata
  imports Fs_Path
begin

section \<open>Metadata snapshots and their stores\<close>

text \<open>
  \<open>metadata.rs\<close>: the authoritative snapshot, which content it retains, the trait
  \<open>MetadataStore\<close> with its in-memory implementation, and the retry loop of
  \<open>namespace.rs\<close> that every namespace mutation runs through.

  A trait object is a record of its methods over the state of the implementing type
  (\<open>metadata_ops\<close>). What the clients rely on is the locale \<open>metadata_store\<close>. The
  in-memory store is shared between threads: \<open>shared_metadata\<close> adds to it the updates other
  clients commit between the calls of the client being verified, one list of updates before each
  call, so that a theorem about every list is a theorem about every interleaving.
\<close>

subsection \<open>Snapshots\<close>

record metadata_snapshot =
  ms_revision :: u64
  ms_root :: directory_id
  ms_directories :: "(directory_id, directory_metadata) btree_map"
  ms_files :: "(file_id, file_metadata) btree_map"
  ms_entries :: "namespace_entry list"
  ms_placements :: "(content_id, content_placement) btree_map"
  ms_retentions :: "(content_id, content_retention) btree_map"

definition file_chunk_ids :: "file_metadata \<Rightarrow> content_id list" where
  "file_chunk_ids file = (case fm_manifest file of
     None \<Rightarrow> [] | Some manifest \<Rightarrow> map cr_content_id (cm_chunks manifest))"

definition retained_content_ids :: "metadata_snapshot \<Rightarrow> content_id btree_set" where
  "retained_content_ids s =
     fold (\<lambda>file retained. bts_extend (file_chunk_ids file) retained) (bt_values (ms_files s))
       (bts_extend (map fst (filter (\<lambda>p. is_retained (snd p)) (ms_retentions s))) [])"

definition is_content_live_referenced :: "metadata_snapshot \<Rightarrow> content_id \<Rightarrow> bool" where
  "is_content_live_referenced s cid =
     list_ex (\<lambda>file. case fm_manifest file of
         None \<Rightarrow> False
       | Some manifest \<Rightarrow> list_ex (\<lambda>chunk. cr_content_id chunk = cid) (cm_chunks manifest))
       (bt_values (ms_files s))"

definition is_content_retained :: "metadata_snapshot \<Rightarrow> content_id \<Rightarrow> bool" where
  "is_content_retained s cid \<longleftrightarrow>
     (case map_of (ms_retentions s) cid of None \<Rightarrow> False | Some r \<Rightarrow> is_retained r)
     \<or> is_content_live_referenced s cid"

definition metadata_snapshot_default :: metadata_snapshot where
  "metadata_snapshot_default =
     \<lparr>ms_revision = 0,
      ms_root = directory_id_root,
      ms_directories =
        [(directory_id_root,
          \<lparr>dm_id = directory_id_root, dm_generation = 1,
           dm_created_at_millis = 0, dm_modified_at_millis = 0\<rparr>)],
      ms_files = [], ms_entries = [], ms_placements = [], ms_retentions = []\<rparr>"

subsection \<open>The trait and the in-memory store\<close>

record 's metadata_ops =
  md_load :: "('s, filesystem_error, metadata_snapshot) op"
  md_cas :: "metadata_snapshot \<Rightarrow> ('s, filesystem_error, unit) op"

record in_memory_metadata =
  imm_state :: metadata_snapshot
  imm_poisoned :: bool

definition in_memory_metadata_new :: in_memory_metadata where
  "in_memory_metadata_new = \<lparr>imm_state = metadata_snapshot_default, imm_poisoned = False\<rparr>"

definition in_memory_load :: "(in_memory_metadata, filesystem_error, metadata_snapshot) op" where
  "in_memory_load st =
     (if imm_poisoned st then (Inl (MetadataUnavailable ''metadata lock poisoned''), st)
      else (Inr (imm_state st), st))"

definition in_memory_cas ::
    "metadata_snapshot \<Rightarrow> (in_memory_metadata, filesystem_error, unit) op" where
  "in_memory_cas replacement st =
     (if imm_poisoned st then (Inl (MetadataUnavailable ''metadata lock poisoned''), st)
      else if ms_revision (imm_state st) \<noteq> ms_revision replacement then (Inl Conflict, st)
      else (Inr (), st\<lparr>imm_state := replacement\<lparr>ms_revision := ms_revision replacement + 1\<rparr>\<rparr>))"

subsection \<open>Other clients of the same store\<close>

text \<open>Another client loads the snapshot, edits it and swaps it in.\<close>

definition other_client :: "(metadata_snapshot \<Rightarrow> metadata_snapshot) \<Rightarrow> in_memory_metadata \<Rightarrow> in_memory_metadata" where
  "other_client f st = (case in_memory_load st of
     (Inl e, st1) \<Rightarrow> st1
   | (Inr x, st1) \<Rightarrow> snd (in_memory_cas ((f x)\<lparr>ms_revision := ms_revision x\<rparr>) st1))"

record shared_metadata =
  shm_store :: in_memory_metadata
  shm_others :: "(metadata_snapshot \<Rightarrow> metadata_snapshot) list list"

definition run_others :: "shared_metadata \<Rightarrow> shared_metadata" where
  "run_others s = (case shm_others s of
     [] \<Rightarrow> s
   | es # rest \<Rightarrow> \<lparr>shm_store = fold other_client es (shm_store s), shm_others = rest\<rparr>)"

definition shared_load :: "(shared_metadata, filesystem_error, metadata_snapshot) op" where
  "shared_load s = (let s1 = run_others s; (r, st) = in_memory_load (shm_store s1)
     in (r, s1\<lparr>shm_store := st\<rparr>))"

definition shared_cas :: "metadata_snapshot \<Rightarrow> (shared_metadata, filesystem_error, unit) op" where
  "shared_cas x s = (let s1 = run_others s; (r, st) = in_memory_cas x (shm_store s1)
     in (r, s1\<lparr>shm_store := st\<rparr>))"

definition shared_ops :: "shared_metadata metadata_ops" where
  "shared_ops = \<lparr>md_load = shared_load, md_cas = shared_cas\<rparr>"

text \<open>A store no other client uses, which is the plain \<open>InMemoryMetadataStore\<close>.\<close>

definition sole :: "metadata_snapshot \<Rightarrow> shared_metadata" where
  "sole x = \<lparr>shm_store = \<lparr>imm_state = x, imm_poisoned = False\<rparr>, shm_others = []\<rparr>"

definition shared_view :: "shared_metadata \<Rightarrow> metadata_snapshot" where
  "shared_view s = imm_state (shm_store s)"

definition shared_pending :: "shared_metadata \<Rightarrow> (metadata_snapshot \<Rightarrow> metadata_snapshot) list" where
  "shared_pending s = concat (shm_others s)"

text \<open>Fewer updates pending than a 64-bit revision counts, so a revision never comes back.\<close>

definition shared_ok :: "shared_metadata \<Rightarrow> bool" where
  "shared_ok s \<longleftrightarrow> length (shared_pending s) < 2 ^ 64"

definition others_step :: "shared_metadata \<Rightarrow> shared_metadata \<Rightarrow> bool" where
  "others_step s t \<longleftrightarrow> (\<exists>es. shared_pending s = es @ shared_pending t \<and>
     shm_store t = fold other_client es (shm_store s))"

text \<open>
  The state right after a commit of the verified client: the store of \<open>u\<close> with the snapshot
  replaced and its revision counted up, and every update still pending in \<open>u\<close> still pending.
  Together, \<open>others_step s u\<close> and \<open>t = shared_swap y u\<close> say that \<open>t\<close> is \<open>s\<close> after every update
  the other clients committed in between, followed by the one commit, and nothing else.
\<close>

definition shared_swap :: "metadata_snapshot \<Rightarrow> shared_metadata \<Rightarrow> shared_metadata" where
  "shared_swap y u = u\<lparr>shm_store := (shm_store u)\<lparr>imm_state := y\<lparr>ms_revision := ms_revision (shared_view u) + 1\<rparr>\<rparr>\<rparr>"

subsection \<open>The retry loop\<close>

text \<open>
  \<open>retry_mutation\<close>: at most eight rounds of load, edit and swap; a lost race starts the next
  round, an error of the edit or of the store returns. The edit closure reads the clock, so it is
  given the number of the round; an edit that does not return makes the mutation not return
  (\<^const>\<open>None\<close>).
\<close>

type_synonym 'r edit = "nat \<Rightarrow> metadata_snapshot \<Rightarrow> ('r \<times> metadata_snapshot) fs_result option"

fun retry_from ::
    "'s metadata_ops \<Rightarrow> nat \<Rightarrow> nat \<Rightarrow> 'r edit \<Rightarrow> 's \<Rightarrow> ('r fs_result \<times> 's) option" where
  "retry_from M i 0 operation s = Some (Inl Conflict, s)"
| "retry_from M i (Suc n) operation s = (case md_load M s of
     (Inl e, s1) \<Rightarrow> Some (Inl e, s1)
   | (Inr snapshot, s1) \<Rightarrow> (case operation i snapshot of
       None \<Rightarrow> None
     | Some (Inl e) \<Rightarrow> Some (Inl e, s1)
     | Some (Inr (result, replacement)) \<Rightarrow> (case md_cas M replacement s1 of
         (Inr _, s2) \<Rightarrow> Some (Inr result, s2)
       | (Inl e, s2) \<Rightarrow>
           if e = Conflict then retry_from M (Suc i) n operation s2 else Some (Inl e, s2))))"

definition retry_mutation ::
    "'s metadata_ops \<Rightarrow> 'r edit \<Rightarrow> 's \<Rightarrow> ('r fs_result \<times> 's) option" where
  "retry_mutation M operation = retry_from M 0 8 operation"

subsection \<open>Retained content\<close>

lemma manifest_references_iff:
  "(case fm_manifest file of None \<Rightarrow> False
    | Some manifest \<Rightarrow> list_ex (\<lambda>chunk. cr_content_id chunk = cid) (cm_chunks manifest))
   \<longleftrightarrow> cid \<in> set (file_chunk_ids file)"
  by (auto simp: file_chunk_ids_def list_ex_iff split: option.splits)

lemma is_content_live_referenced_iff:
  "is_content_live_referenced s cid \<longleftrightarrow>
     (\<exists>file \<in> set (bt_values (ms_files s)). cid \<in> set (file_chunk_ids file))"
  unfolding is_content_live_referenced_def manifest_references_iff by (simp add: list_ex_iff)

lemma retained_files_keys:
  "fst ` set (fold (\<lambda>file retained. bts_extend (file_chunk_ids file) retained) files s)
   = fst ` set s \<union> (\<Union>file \<in> set files. set (file_chunk_ids file))"
  by (induction files arbitrary: s) auto

lemma retained_files_ok:
  "bt_ok s \<Longrightarrow> bt_ok (fold (\<lambda>file retained. bts_extend (file_chunk_ids file) retained) files s)"
  by (induction files arbitrary: s) auto

lemma retained_content_ids_ok: "bt_ok (retained_content_ids s)"
  unfolding retained_content_ids_def by (intro retained_files_ok bts_extend_ok bt_ok_Nil)

lemma retained_content_ids_iff:
  assumes "bt_ok (ms_retentions s)"
  shows "cid \<in> set (bt_keys (retained_content_ids s)) \<longleftrightarrow> is_content_retained s cid"
proof -
  have "(case map_of (ms_retentions s) cid of None \<Rightarrow> False | Some r \<Rightarrow> is_retained r)
    \<longleftrightarrow> (\<exists>r. (cid, r) \<in> set (ms_retentions s) \<and> is_retained r)"
    unfolding bt_get_iff [OF assms, symmetric] by (auto split: option.splits)
  then show ?thesis
    by (auto simp: retained_content_ids_def retained_files_keys is_content_retained_def
        is_content_live_referenced_iff image_iff)
qed

subsection \<open>The contract of a metadata store\<close>

locale metadata_store =
  fixes load :: "('s, filesystem_error, metadata_snapshot) op"
    and cas :: "metadata_snapshot \<Rightarrow> ('s, filesystem_error, unit) op"
    and view :: "'s \<Rightarrow> metadata_snapshot"
    and ok :: "'s \<Rightarrow> bool"
    and others :: "'s \<Rightarrow> 's \<Rightarrow> bool"
    and pending :: "'s \<Rightarrow> nat"
    and commits :: "metadata_snapshot \<Rightarrow> 's \<Rightarrow> 's \<Rightarrow> bool"
  assumes others_refl: "others s s"
    and others_trans: "others s t \<Longrightarrow> others t u \<Longrightarrow> others s u"
    and others_ok: "others s t \<Longrightarrow> ok s \<Longrightarrow> ok t"
    and load_others: "ok s \<Longrightarrow> load s = (r, t) \<Longrightarrow> others s t"
    and load_view: "ok s \<Longrightarrow> load s = (Inr x, t) \<Longrightarrow> view t = x"
    and cas_commit: "ok s \<Longrightarrow> cas x s = (Inr (), t) \<Longrightarrow>
      ok t \<and> (\<exists>u. others s u \<and> ms_revision (view u) = ms_revision x \<and> commits x u t)"
    and commits_view: "commits x u t \<Longrightarrow> view t = x\<lparr>ms_revision := ms_revision (view u) + 1\<rparr>"
    and cas_conflict: "ok s \<Longrightarrow> cas x s = (Inl Conflict, t) \<Longrightarrow>
      others s t \<and> ms_revision (view t) \<noteq> ms_revision x"
    and fenced: "ok s \<Longrightarrow> others s t \<Longrightarrow> ms_revision (view t) = ms_revision (view s) \<Longrightarrow>
      view t = view s"
    and load_error: "ok s \<Longrightarrow> load s = (Inl e, t) \<Longrightarrow> e \<in> range MetadataUnavailable"
    and cas_error: "ok s \<Longrightarrow> cas x s = (Inl e, t) \<Longrightarrow> e = Conflict \<or> e \<in> range MetadataUnavailable"
    and pending_mono: "others s t \<Longrightarrow> pending t \<le> pending s"
    and pending_less: "others s t \<Longrightarrow> view t \<noteq> view s \<Longrightarrow> pending t < pending s"
begin

definition ops :: "'s metadata_ops" where
  "ops = \<lparr>md_load = load, md_cas = cas\<rparr>"

lemma ops_sel [simp]: "md_load ops = load" "md_cas ops = cas"
  by (simp_all add: ops_def)

text \<open>A swap that succeeds replaces exactly the snapshot that was loaded.\<close>

lemma load_cas_atomic:
  assumes "ok s" "load s = (Inr x, t)" "ms_revision y = ms_revision x" "cas y t = (Inr (), u)"
  shows "\<exists>v. others s t \<and> others t v \<and> view t = x \<and> view v = x \<and> commits y v u"
proof -
  from assms(1,2) have t: "others s t" "view t = x" "ok t"
    using load_others load_view others_ok by blast+
  with cas_commit [OF t(3) assms(4)] obtain v
    where v: "others t v" "ms_revision (view v) = ms_revision y" "commits y v u" by blast
  with fenced [OF t(3)] t(2) assms(3) have "view v = x" by metis
  with t v show ?thesis by blast
qed

text \<open>
  A mutation that returns a result took effect once, on the snapshot that was current when it was
  swapped in; one that returns an error of its closure saw a current snapshot.
\<close>

lemma retry_from_commit:
  assumes "ok s" "retry_from ops i n operation s = Some (Inr r, t)"
    and "\<And>j x q y. operation j x = Some (Inr (q, y)) \<Longrightarrow> ms_revision y = ms_revision x"
  shows "\<exists>j u y. others s u \<and> operation j (view u) = Some (Inr (r, y)) \<and> commits y u t"
  using assms(1,2)
proof (induction n arbitrary: i s)
  case (Suc n)
  from Suc.prems(2) obtain x s1 q y where ld: "load s = (Inr x, s1)"
    and ed: "operation i x = Some (Inr (q, y))"
    by (auto split: prod.splits sum.splits option.splits)
  from Suc.prems(1) ld have s1: "others s s1" "ok s1"
    using load_others others_ok by blast+
  obtain res s2 where sw: "cas y s1 = (res, s2)" by (cases "cas y s1")
  show ?case
  proof (cases res)
    case (Inr w)
    with sw have sw': "cas y s1 = (Inr (), s2)" by (simp add: Inr)
    from load_cas_atomic [OF Suc.prems(1) ld assms(3) [OF ed] sw'] obtain v
      where "others s v" "view v = x" "commits y v s2" using others_trans by blast
    moreover have "q = r" "t = s2" using Suc.prems(2) ld ed sw' by simp_all
    ultimately show ?thesis using ed by blast
  next
    case (Inl e)
    with Suc.prems(2) ld ed sw have e: "e = Conflict"
      and rec: "retry_from ops (Suc i) n operation s2 = Some (Inr r, t)"
      by (auto split: if_splits)
    from sw Inl e cas_conflict [OF s1(2)] have s2: "others s1 s2" by blast
    with Suc.IH [OF others_ok [OF s2 s1(2)] rec] s1(1) show ?thesis
      using others_trans by blast
  qed
qed simp

text \<open>An invariant that the other clients and the edit keep holds after the mutation returns.\<close>

lemma retry_from_invariant:
  assumes "ok s" "retry_from ops i n operation s = Some (Inr r, t)"
    and rev: "\<And>j x q y. operation j x = Some (Inr (q, y)) \<Longrightarrow> ms_revision y = ms_revision x"
    and others_P: "\<And>u. others s u \<Longrightarrow> P (view u)"
    and edit_P: "\<And>j x q y v. P x \<Longrightarrow> operation j x = Some (Inr (q, y)) \<Longrightarrow> P (y\<lparr>ms_revision := v\<rparr>)"
  shows "P (view t)"
proof -
  from retry_from_commit [OF assms(1,2)] rev obtain j u y
    where "others s u" "operation j (view u) = Some (Inr (r, y))" "commits y u t" by blast
  with others_P edit_P commits_view show ?thesis by metis
qed

text \<open>The mutation returns when the edit returns on every snapshot it can be given.\<close>

lemma retry_from_returns:
  assumes "ok s" "\<And>j u. others s u \<Longrightarrow> operation j (view u) \<noteq> None"
  shows "retry_from ops i n operation s \<noteq> None"
  using assms
proof (induction n arbitrary: i s)
  case (Suc n)
  obtain ldr s1 where ld: "load s = (ldr, s1)" by (cases "load s")
  from Suc.prems(1) ld have s1: "others s s1" "ok s1"
    using load_others others_ok by blast+
  show ?case
  proof (cases "\<exists>x q y. ldr = Inr x \<and> operation i x = Some (Inr (q, y))")
    case False
    with Suc.prems ld s1 show ?thesis
      using load_view by (cases ldr) (fastforce split: option.splits sum.splits)+
  next
    case True
    then obtain x q y where x: "ldr = Inr x" "operation i x = Some (Inr (q, y))" by blast
    have "others s s2 \<and> ok s2" if "cas y s1 = (Inl Conflict, s2)" for s2
      using cas_conflict [OF s1(2) that] s1 others_trans others_ok by blast
    then have "retry_from ops (Suc i) n operation s2 \<noteq> None" if "cas y s1 = (Inl Conflict, s2)" for s2
      using that Suc.IH [of s2 "Suc i"] Suc.prems(2) others_trans by blast
    with x ld show ?thesis by (auto split: prod.splits sum.splits)
  qed
qed simp

text \<open>
  An error is the edit's own on a current snapshot, the store being unavailable, or a race lost
  in every round, which takes one foreign commit per round.
\<close>

lemma retry_from_error:
  assumes "ok s" "retry_from ops i n operation s = Some (Inl e, t)"
    and rev: "\<And>j x q y. operation j x = Some (Inr (q, y)) \<Longrightarrow> ms_revision y = ms_revision x"
  shows "(\<exists>j u. others s u \<and> operation j (view u) = Some (Inl e)) \<or> e \<in> range MetadataUnavailable
    \<or> e = Conflict \<and> n + pending t \<le> pending s"
  using assms(1,2)
proof (induction n arbitrary: i s)
  case (Suc n)
  obtain ldr s1 where ld: "load s = (ldr, s1)" by (cases "load s")
  from Suc.prems(1) ld have s1: "others s s1" "ok s1"
    using load_others others_ok by blast+
  show ?case
  proof (cases "\<exists>x q y. ldr = Inr x \<and> operation i x = Some (Inr (q, y))")
    case False
    then consider (unavailable) e' where "ldr = Inl e'"
      | (failed) x where "ldr = Inr x" "operation i x = Some (Inl e)"
      using Suc.prems(2) ld by (cases ldr) (auto split: option.splits sum.splits)
    then show ?thesis
    proof cases
      case unavailable
      with ld Suc.prems show ?thesis using load_error by auto
    next
      case failed
      with ld Suc.prems(1) have "view s1 = x" using load_view by blast
      with failed s1 show ?thesis by blast
    qed
  next
    case True
    then obtain x q y where x: "ldr = Inr x" "operation i x = Some (Inr (q, y))" by blast
    then have vx: "view s1 = x" using ld Suc.prems(1) load_view by blast
    obtain res s2 where sw: "cas y s1 = (res, s2)" by (cases "cas y s1")
    with Suc.prems(2) x ld obtain e' where res: "res = Inl e'" by (cases res) auto
    show ?thesis
    proof (cases "e' = Conflict")
      case False
      with sw res cas_error [OF s1(2)] have "e' \<in> range MetadataUnavailable" by blast
      with False Suc.prems(2) x ld sw res show ?thesis by simp
    next
      case True
      with sw res cas_conflict [OF s1(2), of y s2] rev [OF x(2)] vx
      have s2: "others s1 s2" "view s2 \<noteq> view s1" by auto
      then have less: "pending s2 < pending s"
        using pending_less [OF s2] pending_mono [OF s1(1)] by simp
      from Suc.prems(2) x ld sw res True
      have "retry_from ops (Suc i) n operation s2 = Some (Inl e, t)" by simp
      from Suc.IH [OF others_ok [OF s2(1) s1(2)] this] less show ?thesis
        using others_trans [OF others_trans [OF s1(1) s2(1)]] by fastforce
    qed
  qed
qed simp

end

subsection \<open>The shared in-memory store keeps the contract\<close>

lemma other_client_simps:
  "imm_poisoned (other_client f st) = imm_poisoned st"
  "imm_state (other_client f st) = (if imm_poisoned st then imm_state st
     else (f (imm_state st))\<lparr>ms_revision := ms_revision (imm_state st) + 1\<rparr>)"
  by (auto simp: other_client_def in_memory_load_def in_memory_cas_def)

lemma fold_other_client_poisoned [simp]:
  "imm_poisoned (fold other_client es st) = imm_poisoned st"
  by (induction es arbitrary: st) (auto simp: other_client_simps)

lemma fold_other_client_revision:
  "ms_revision (imm_state (fold other_client es st)) =
     ms_revision (imm_state st) + (if imm_poisoned st then 0 else of_nat (length es))"
  by (induction es arbitrary: st) (auto simp: other_client_simps)

lemma fold_other_client_stuck: "imm_poisoned st \<Longrightarrow> fold other_client es st = st"
  by (induction es arbitrary: st) (auto simp: other_client_def in_memory_load_def)

lemma run_others_step: "others_step s (run_others s)"
  by (auto simp: others_step_def run_others_def shared_pending_def split: list.splits)

lemma others_step_refl: "others_step s s"
  by (auto simp: others_step_def)

lemma others_step_trans: "others_step s t \<Longrightarrow> others_step t u \<Longrightarrow> others_step s u"
  unfolding others_step_def by (metis append.assoc comp_apply fold_append)

lemma others_step_view:
  "others_step s t \<Longrightarrow> \<exists>es. shared_pending s = es @ shared_pending t \<and>
     shared_view t = imm_state (fold other_client es (shm_store s))"
  by (auto simp: others_step_def shared_view_def)

lemma others_step_fenced:
  assumes "shared_ok s" "others_step s t"
    and "ms_revision (shared_view t) = ms_revision (shared_view s)"
  shows "shared_view t = shared_view s"
proof -
  from assms(2) obtain es where es: "shared_pending s = es @ shared_pending t"
    and t: "shared_view t = imm_state (fold other_client es (shm_store s))"
    by (blast dest: others_step_view)
  show ?thesis
  proof (cases "imm_poisoned (shm_store s)")
    case True
    with t show ?thesis by (simp add: fold_other_client_stuck shared_view_def)
  next
    case False
    with t assms(3) have "ms_revision (shared_view s) + of_nat (length es) = ms_revision (shared_view s)"
      by (simp add: fold_other_client_revision shared_view_def)
    moreover from assms(1) es have "length es < 2 ^ 64" by (simp add: shared_ok_def)
    ultimately have "es = []" using u64_add_of_nat_eq by blast
    with t show ?thesis by (simp add: shared_view_def)
  qed
qed

lemma shared_load_eq:
  "shared_load s = (fst (in_memory_load (shm_store (run_others s))), run_others s)"
  by (auto simp: shared_load_def in_memory_load_def Let_def)

lemma shared_cas_eq:
  "shared_cas x s = (let s1 = run_others s in
     (fst (in_memory_cas x (shm_store s1)), s1\<lparr>shm_store := snd (in_memory_cas x (shm_store s1))\<rparr>))"
  by (auto simp: shared_cas_def Let_def split: prod.splits)

interpretation shm: metadata_store shared_load shared_cas shared_view shared_ok others_step
  "\<lambda>s. length (shared_pending s)" "\<lambda>y u t. t = shared_swap y u"
proof (unfold_locales, goal_cases)
  case (4 s r t)
  then show ?case by (auto simp: shared_load_eq run_others_step)
next
  case (6 s x t)
  then have "shared_ok t"
    by (auto simp: shared_cas_eq shared_ok_def shared_pending_def run_others_def
        Let_def split: list.splits)
  with 6 run_others_step [of s] show ?case
    by (auto simp: shared_cas_eq Let_def in_memory_cas_def shared_view_def shared_swap_def split: if_splits)
next
  case (8 s x t)
  then have "t = run_others s"
    by (auto simp: shared_cas_eq Let_def in_memory_cas_def split: if_splits)
  with 8 run_others_step show ?case
    by (auto simp: shared_cas_eq Let_def in_memory_cas_def shared_view_def split: if_splits)
next
  case (9 s t)
  then show ?case by (rule others_step_fenced)
qed (auto simp: others_step_refl shared_ok_def shared_load_eq run_others_step in_memory_load_def
    shared_view_def shared_swap_def others_step_def shared_cas_eq Let_def in_memory_cas_def
    intro: others_step_trans split: if_splits)

lemma shm_ops [simp]: "shm.ops = shared_ops"
  by (simp add: shm.ops_def shared_ops_def)

lemma shared_swap_simps [simp]:
  "shared_view (shared_swap y u) = y\<lparr>ms_revision := ms_revision (shared_view u) + 1\<rparr>"
  "shared_pending (shared_swap y u) = shared_pending u"
  by (simp_all add: shared_swap_def shared_view_def shared_pending_def)

text \<open>The state at the commit is determined by the states before and after the call.\<close>

lemma commit_point_unique:
  assumes "others_step s u" "t = shared_swap y u" "others_step s u'" "t = shared_swap y' u'"
  shows "shm_store u' = shm_store u"
proof -
  from assms(2,4) have "shared_pending u' = shared_pending u" by (metis shared_swap_simps(2))
  with assms(1,3) show ?thesis by (auto simp: others_step_def)
qed

subsection \<open>Running alone\<close>

lemma sole_simps [simp]:
  "shared_view (sole x) = x"
  "shared_pending (sole x) = []"
  "shared_ok (sole x)"
  "shared_load (sole x) = (Inr x, sole x)"
  by (simp_all add: sole_def shared_view_def shared_pending_def shared_ok_def shared_load_eq
      run_others_def in_memory_load_def)

lemma shared_cas_sole [simp]:
  "shared_cas y (sole x) =
     (if ms_revision x = ms_revision y
      then (Inr (), sole (y\<lparr>ms_revision := ms_revision y + 1\<rparr>)) else (Inl Conflict, sole x))"
  by (simp add: sole_def shared_cas_eq run_others_def in_memory_cas_def)

lemma shared_ops_sel [simp]: "md_load shared_ops = shared_load" "md_cas shared_ops = shared_cas"
  by (simp_all add: shared_ops_def)

lemma retry_from_sole:
  assumes "\<And>q y. operation i x = Some (Inr (q, y)) \<Longrightarrow> ms_revision y = ms_revision x"
  shows "retry_from shared_ops i (Suc n) operation (sole x) = (case operation i x of
     None \<Rightarrow> None
   | Some (Inl e) \<Rightarrow> Some (Inl e, sole x)
   | Some (Inr (q, y)) \<Rightarrow> Some (Inr q, sole (y\<lparr>ms_revision := ms_revision x + 1\<rparr>)))"
proof (cases "operation i x")
  case (Some r)
  then show ?thesis using assms by (cases r) auto
qed simp

lemma retry_mutation_sole:
  assumes "\<And>q y. operation 0 x = Some (Inr (q, y)) \<Longrightarrow> ms_revision y = ms_revision x"
  shows "retry_mutation shared_ops operation (sole x) = (case operation 0 x of
     None \<Rightarrow> None
   | Some (Inl e) \<Rightarrow> Some (Inl e, sole x)
   | Some (Inr (q, y)) \<Rightarrow> Some (Inr q, sole (y\<lparr>ms_revision := ms_revision x + 1\<rparr>)))"
proof -
  have eight: "(8 :: nat) = Suc 7" by simp
  show ?thesis unfolding retry_mutation_def eight by (rule retry_from_sole) (rule assms)
qed

text \<open>Updates of the other clients that keep an invariant keep it along every interleaving.\<close>

definition others_keep :: "(metadata_snapshot \<Rightarrow> bool) \<Rightarrow> shared_metadata \<Rightarrow> bool" where
  "others_keep P s \<longleftrightarrow> (\<forall>f \<in> set (shared_pending s). \<forall>x v. P x \<longrightarrow> P ((f x)\<lparr>ms_revision := v\<rparr>))"

lemma fold_other_client_keep:
  assumes "\<forall>f \<in> set es. \<forall>x v. P x \<longrightarrow> P ((f x)\<lparr>ms_revision := v\<rparr>)" "P (imm_state st)"
  shows "P (imm_state (fold other_client es st))"
  using assms by (induction es arbitrary: st) (auto simp: other_client_simps)

lemma others_step_keep:
  assumes "others_keep P s" "P (shared_view s)" "others_step s t"
  shows "P (shared_view t)" "others_keep P t"
  using assms fold_other_client_keep [of _ P "shm_store s"]
  by (auto simp: others_keep_def others_step_def shared_view_def)

lemma sole_others_keep [simp]: "others_keep P (sole x)"
  by (simp add: others_keep_def)


text \<open>The result of a run, for evaluating concrete runs whose final state holds closures.\<close>

definition returns :: "('r fs_result \<times> 's) option \<Rightarrow> 'r fs_result \<Rightarrow> bool" where
  "returns x r \<longleftrightarrow> map_option fst x = Some r"

lemma returnsE:
  assumes "returns x r" obtains t where "x = Some (r, t)"
  using assms by (auto simp: returns_def)

subsection \<open>Properties\<close>

text \<open>Two clients race: the other one commits before the first swap.\<close>

definition race_store :: shared_metadata where
  "race_store = \<lparr>shm_store = in_memory_metadata_new, shm_others = [[], [\<lambda>x. x]]\<rparr>"

text \<open>
  C15: a mutation that returns a result took effect exactly once. The state afterwards is the one
  before, after every update the other clients committed while it ran, with one swap on top: the
  edit of the very snapshot the store then held, its revision counted up by one. So an update of
  another client is neither lost nor overwritten.
\<close>

theorem retry_mutation_atomic:
  assumes "shared_ok s" "retry_mutation shared_ops operation s = Some (Inr r, t)"
    and "\<And>k x q y. operation k x = Some (Inr (q, y)) \<Longrightarrow> ms_revision y = ms_revision x"
  shows "\<exists>k u y. others_step s u \<and> operation k (shared_view u) = Some (Inr (r, y)) \<and> t = shared_swap y u"
  using shm.retry_from_commit [OF assms(1), of 0 8 operation r t] assms(2,3)
  by (simp add: retry_mutation_def)

theorem retry_mutation_atomic_witness:
  "\<exists>t k u y. retry_mutation shared_ops (\<lambda>k x. Some (Inr (k, x))) race_store = Some (Inr 1, t) \<and>
    others_step race_store u \<and> Some (Inr (k, shared_view u)) = Some (Inr (1 :: nat, y)) \<and> t = shared_swap y u"
proof -
  have "returns (retry_mutation shared_ops (\<lambda>k x. Some (Inr (k, x))) race_store) (Inr 1)" by code_simp
  then obtain t where t: "retry_mutation shared_ops (\<lambda>k x. Some (Inr (k, x))) race_store = Some (Inr 1, t)"
    by (rule returnsE)
  have "shared_ok race_store" by (simp add: race_store_def shared_ok_def shared_pending_def)
  from retry_mutation_atomic [OF this t] t show ?thesis by auto
qed

text \<open>
  C32: a mutation fails with \<open>Conflict\<close> only if its edit said so itself or other clients
  committed at least eight updates while it ran.
\<close>

theorem retry_mutation_conflict:
  assumes "shared_ok s" "retry_mutation shared_ops operation s = Some (Inl Conflict, t)"
    and "\<And>k x q y. operation k x = Some (Inr (q, y)) \<Longrightarrow> ms_revision y = ms_revision x"
    and "\<And>k x. operation k x \<noteq> Some (Inl Conflict)"
  shows "8 + length (shared_pending t) \<le> length (shared_pending s)"
  using shm.retry_from_error [OF assms(1), of 0 8 operation Conflict t] assms(2-4)
  by (auto simp: retry_mutation_def)

theorem retry_mutation_conflict_witness:
  "\<exists>t. retry_mutation shared_ops (\<lambda>k x. Some (Inr (k, x)))
       (race_store\<lparr>shm_others := replicate 16 [\<lambda>x. x]\<rparr>) = Some (Inl Conflict, t) \<and>
     8 + length (shared_pending t) \<le> length (shared_pending (race_store\<lparr>shm_others := replicate 16 [\<lambda>x. x]\<rparr>))"
proof -
  let ?s = "race_store\<lparr>shm_others := replicate 16 [\<lambda>x. x]\<rparr>"
  have "returns (retry_mutation shared_ops (\<lambda>k x. Some (Inr (k, x))) ?s) (Inl Conflict)" by code_simp
  then obtain t where t: "retry_mutation shared_ops (\<lambda>k x. Some (Inr (k, x))) ?s = Some (Inl Conflict, t)"
    by (rule returnsE)
  have "shared_ok ?s"
    by (simp add: shared_ok_def shared_pending_def length_concat map_replicate sum_list_replicate)
  from retry_mutation_conflict [OF this t] t show ?thesis by (intro exI conjI) simp_all
qed

text \<open>
  The set of retained content identifiers, which drives replication, contains exactly the
  identifiers the per-identifier check calls retained, once each and in order.
\<close>

theorem retained_content_ids_correct:
  assumes "bt_ok (ms_retentions s)"
  shows "sorted_wrt (<) (bt_keys (retained_content_ids s)) \<and>
    (cid \<in> set (bt_keys (retained_content_ids s)) \<longleftrightarrow> is_content_retained s cid)"
  using retained_content_ids_iff [OF assms] bt_ok_sorted [OF retained_content_ids_ok] by blast

theorem retained_content_ids_correct_witness:
  "let s = metadata_snapshot_default\<lparr>ms_retentions :=
       [(ContentId ''a'', GarbageCandidate), (ContentId ''b'', SnapshotRetention)]\<rparr>
   in sorted_wrt (<) (bt_keys (retained_content_ids s)) \<and>
     (ContentId ''b'' \<in> set (bt_keys (retained_content_ids s)) \<longleftrightarrow> is_content_retained s (ContentId ''b''))"
proof -
  have "bt_ok [(ContentId ''a'', GarbageCandidate), (ContentId ''b'', SnapshotRetention)]" by code_simp
  then show ?thesis unfolding Let_def by (intro retained_content_ids_correct) simp
qed

end
