(* ===== verification/Namespace_Tree.thy ===== *)
theory Namespace_Tree
  imports Fs_Domain "HOL-Library.Sublist"
begin

section \<open>The namespace as a tree\<close>

text \<open>
  The abstract specification of the namespace: a partial map from component lists to targets
  (\<^term>\<open>tree_lookup\<close>), read off a child function \<open>directory \<Rightarrow> name \<Rightarrow> target\<close>. The
  laws say how the map changes when one child is added, removed or moved; \<open>Namespace\<close> shows
  that the code's operations on the entry list change it in exactly this way.
\<close>

type_synonym child_fun = "directory_id \<Rightarrow> string \<Rightarrow> namespace_target option"

fun tree_lookup :: "child_fun \<Rightarrow> namespace_target \<Rightarrow> string list \<Rightarrow> namespace_target option" where
  "tree_lookup c t [] = Some t"
| "tree_lookup c (FileTarget f) (n # ns) = None"
| "tree_lookup c (DirTarget d) (n # ns) =
     (case c d n of None \<Rightarrow> None | Some t \<Rightarrow> tree_lookup c t ns)"

text \<open>Every target has one parent and name, and the root has none.\<close>

definition tree_ok :: "child_fun \<Rightarrow> directory_id \<Rightarrow> bool" where
  "tree_ok c r \<longleftrightarrow>
     (\<forall>d n d' n' t. c d n = Some t \<longrightarrow> c d' n' = Some t \<longrightarrow> d = d' \<and> n = n') \<and>
     (\<forall>d n. c d n \<noteq> Some (DirTarget r))"

definition set_child :: "directory_id \<Rightarrow> string \<Rightarrow> namespace_target option \<Rightarrow> child_fun \<Rightarrow> child_fun" where
  "set_child p n x c = (\<lambda>d m. if d = p \<and> m = n then x else c d m)"

subsection \<open>Specification of the mutations on the path map\<close>

type_synonym path_map = "string list \<Rightarrow> namespace_target option"

definition spec_insert :: "string list \<Rightarrow> namespace_target \<Rightarrow> path_map \<Rightarrow> path_map" where
  "spec_insert path t m = m(path \<mapsto> t)"

definition spec_remove :: "string list \<Rightarrow> path_map \<Rightarrow> path_map" where
  "spec_remove path m = (\<lambda>cs. if prefix path cs then None else m cs)"

definition spec_rename :: "string list \<Rightarrow> string list \<Rightarrow> path_map \<Rightarrow> path_map" where
  "spec_rename from to m = (\<lambda>cs.
     if prefix to cs then m (from @ drop (length to) cs)
     else if prefix from cs then None else m cs)"

text \<open>
  The outcome of each operation on the path map, errors included. A missing path is reported as
  \<^const>\<open>NotDirectory\<close> when a file stands in the way and as \<^const>\<open>NotFound\<close> otherwise.
\<close>

definition is_file_target :: "namespace_target option \<Rightarrow> bool" where
  "is_file_target x \<longleftrightarrow> (\<exists>f. x = Some (FileTarget f))"

definition spec_resolve :: "path_map \<Rightarrow> string list \<Rightarrow> namespace_target fs_result" where
  "spec_resolve m path = (case m path of
     Some t \<Rightarrow> Inr t
   | None \<Rightarrow> if list_ex (\<lambda>p. is_file_target (m p)) (prefixes path) then Inl NotDirectory else Inl NotFound)"

definition spec_directory :: "path_map \<Rightarrow> string list \<Rightarrow> directory_id fs_result" where
  "spec_directory m path = res_bind (spec_resolve m path) (\<lambda>t.
     case t of DirTarget d \<Rightarrow> Inr d | FileTarget _ \<Rightarrow> Inl NotDirectory)"

definition spec_add :: "string list \<Rightarrow> string \<Rightarrow> namespace_target \<Rightarrow> path_map \<Rightarrow> path_map fs_result" where
  "spec_add parents name t m = res_bind (spec_directory m parents) (\<lambda>_.
     if m (parents @ [name]) \<noteq> None then Inl AlreadyExists
     else Inr (spec_insert (parents @ [name]) t m))"

definition spec_delete :: "string list \<Rightarrow> string \<Rightarrow> path_map \<Rightarrow> path_map fs_result" where
  "spec_delete parents name m = res_bind (spec_directory m parents) (\<lambda>_.
     if m (parents @ [name]) = None then Inl NotFound
     else if \<exists>n. m (parents @ [name, n]) \<noteq> None then Inl DirectoryNotEmpty
     else Inr (spec_remove (parents @ [name]) m))"

definition spec_move ::
    "string list \<Rightarrow> string \<Rightarrow> string list \<Rightarrow> string \<Rightarrow> path_map \<Rightarrow> path_map fs_result" where
  "spec_move from_parents from_name to_parents to_name m =
     res_bind (spec_directory m from_parents) (\<lambda>_.
     res_bind (spec_directory m to_parents) (\<lambda>_.
       if m (to_parents @ [to_name]) \<noteq> None then Inl AlreadyExists
       else if m (from_parents @ [from_name]) = None then Inl NotFound
       else if prefix (from_parents @ [from_name]) to_parents then Inl InvalidPath
       else Inr (spec_rename (from_parents @ [from_name]) (to_parents @ [to_name]) m)))"

subsection \<open>Lookup\<close>

lemma tree_lookup_append:
  "tree_lookup c t (ns @ ms) = (case tree_lookup c t ns of None \<Rightarrow> None | Some u \<Rightarrow> tree_lookup c u ms)"
  by (induction c t ns rule: tree_lookup.induct) (auto split: option.splits)

lemma tree_lookup_File [simp]:
  "tree_lookup c (FileTarget f) ns = (if ns = [] then Some (FileTarget f) else None)"
  by (cases ns) auto

lemma tree_lookup_snoc:
  "tree_lookup c t (ns @ [m]) = (case tree_lookup c t ns of Some (DirTarget d) \<Rightarrow> c d m | _ \<Rightarrow> None)"
  by (auto simp: tree_lookup_append split: option.splits namespace_target.splits)

lemma tree_lookup_snocE:
  assumes "tree_lookup c t (ns @ [m]) = Some u"
  obtains d where "tree_lookup c t ns = Some (DirTarget d)" "c d m = Some u"
  using assms by (auto simp: tree_lookup_snoc split: option.splits namespace_target.splits)

text \<open>A target is found under one path only.\<close>

lemma tree_unique_path:
  assumes ok: "tree_ok c r"
    and "tree_lookup c (DirTarget r) p = Some t" "tree_lookup c (DirTarget r) q = Some t"
  shows "p = q"
  using assms(2,3)
proof (induction p arbitrary: q t rule: rev_induct)
  case Nil
  then show ?case
    using ok by (cases q rule: rev_exhaust) (auto simp: tree_ok_def elim!: tree_lookup_snocE)
next
  case (snoc m ns)
  from snoc.prems(1) obtain d where d: "tree_lookup c (DirTarget r) ns = Some (DirTarget d)" "c d m = Some t"
    by (rule tree_lookup_snocE)
  show ?case
  proof (cases q rule: rev_exhaust)
    case Nil
    with snoc.prems(2) d ok show ?thesis by (auto simp: tree_ok_def)
  next
    case (snoc ns' m')
    with snoc.prems(2) obtain d' where "tree_lookup c (DirTarget r) ns' = Some (DirTarget d')" "c d' m' = Some t"
      by (auto elim: tree_lookup_snocE)
    moreover from this d ok have "d = d'" "m = m'" by (auto simp: tree_ok_def)
    ultimately show ?thesis using snoc.IH [OF d(1), of ns'] snoc by simp
  qed
qed

subsection \<open>Changing one child\<close>

text \<open>Paths that do not run through the changed child are unaffected.\<close>

lemma set_child_outside:
  assumes ok: "tree_ok c r" and q: "tree_lookup c (DirTarget r) q = Some (DirTarget p)"
    and "\<not> prefix (q @ [n]) cs"
  shows "tree_lookup (set_child p n x c) (DirTarget r) cs = tree_lookup c (DirTarget r) cs"
  using assms(3)
proof (induction cs rule: rev_induct)
  case (snoc m cs)
  from snoc.prems have outside: "\<not> prefix (q @ [n]) cs"
    by (auto dest: prefix_prefix [of _ _ "[m]"])
  have "set_child p n x c d m = c d m" if d: "tree_lookup c (DirTarget r) cs = Some (DirTarget d)" for d
  proof (cases "d = p")
    case True
    with tree_unique_path [OF ok d] q have "cs = q" by blast
    with snoc.prems have "m \<noteq> n" by auto
    then show ?thesis by (simp add: set_child_def)
  qed (simp add: set_child_def)
  then show ?case
    unfolding tree_lookup_snoc snoc.IH [OF outside]
    by (simp split: option.split namespace_target.split)
qed simp

lemma set_child_parent:
  assumes "tree_ok c r" "tree_lookup c (DirTarget r) q = Some (DirTarget p)"
  shows "tree_lookup (set_child p n x c) (DirTarget r) q = Some (DirTarget p)"
  using set_child_outside [OF assms, of n q x] assms(2) prefix_length_le [of "q @ [n]" q] by auto

lemma set_child_below:
  assumes "tree_ok c r" "tree_lookup c (DirTarget r) q = Some (DirTarget p)"
  shows "tree_lookup (set_child p n x c) (DirTarget r) (q @ n # ns) =
    (case x of None \<Rightarrow> None | Some t \<Rightarrow> tree_lookup (set_child p n x c) t ns)"
  by (simp add: tree_lookup_append set_child_parent [OF assms])
     (simp add: set_child_def)

text \<open>Inserting a target that has no children of its own.\<close>

lemma tree_insert:
  assumes ok: "tree_ok c r" and q: "tree_lookup c (DirTarget r) q = Some (DirTarget p)"
    and absent: "c p n = None" and leaf: "\<And>d m. t = DirTarget d \<Longrightarrow> c d m = None"
    and "t \<noteq> DirTarget p"
  shows "tree_lookup (set_child p n (Some t) c) (DirTarget r) =
    spec_insert (q @ [n]) t (tree_lookup c (DirTarget r))"
proof
  fix cs
  show "tree_lookup (set_child p n (Some t) c) (DirTarget r) cs =
    spec_insert (q @ [n]) t (tree_lookup c (DirTarget r)) cs"
  proof (cases "prefix (q @ [n]) cs")
    case False
    then show ?thesis
      using set_child_outside [OF ok q False] by (auto simp: spec_insert_def)
  next
    case True
    then obtain ns where cs: "cs = q @ n # ns" by (auto elim: prefixE)
    have old: "tree_lookup c (DirTarget r) cs = None"
      by (simp add: cs tree_lookup_append q absent)
    show ?thesis
    proof (cases ns)
      case Nil
      then show ?thesis by (simp add: cs set_child_below [OF ok q] spec_insert_def)
    next
      case (Cons m ms)
      then have "tree_lookup (set_child p n (Some t) c) t ns = None"
        using leaf assms(5) by (cases t) (auto simp: set_child_def)
      then show ?thesis
        using old Cons by (simp add: cs set_child_below [OF ok q] spec_insert_def)
    qed
  qed
qed

lemma tree_remove:
  assumes "tree_ok c r" "tree_lookup c (DirTarget r) q = Some (DirTarget p)"
  shows "tree_lookup (set_child p n None c) (DirTarget r) =
    spec_remove (q @ [n]) (tree_lookup c (DirTarget r))"
proof
  fix cs
  show "tree_lookup (set_child p n None c) (DirTarget r) cs =
    spec_remove (q @ [n]) (tree_lookup c (DirTarget r)) cs"
    using set_child_outside [OF assms] set_child_below [OF assms]
    by (auto simp: spec_remove_def elim!: prefixE)
qed

lemma tree_ok_remove: "tree_ok c r \<Longrightarrow> tree_ok (set_child p n None c) r"
  unfolding tree_ok_def set_child_def by (auto split: if_splits)

lemma tree_ok_insert:
  assumes "tree_ok c r" "\<And>d m. c d m \<noteq> Some t" "t \<noteq> DirTarget r"
  shows "tree_ok (set_child p n (Some t) c) r"
  using assms unfolding tree_ok_def set_child_def by (auto split: if_splits)

text \<open>Below a target that contains neither changed child, lookups stay the same.\<close>

lemma tree_lookup_cong_below:
  assumes "\<And>ms d m. tree_lookup c t ms = Some (DirTarget d) \<Longrightarrow> c' d m = c d m"
  shows "tree_lookup c' t ns = tree_lookup c t ns"
proof (induction ns rule: rev_induct)
  case (snoc m ns)
  then show ?case
    using assms [of ns] by (auto simp: tree_lookup_snoc split: option.splits namespace_target.splits)
qed simp

text \<open>Moving a target to a place outside its own subtree moves every path below it.\<close>

lemma tree_rename:
  assumes ok: "tree_ok c r"
    and src: "tree_lookup c (DirTarget r) q = Some (DirTarget p)" "c p n = Some t"
    and dst: "tree_lookup c (DirTarget r) q' = Some (DirTarget p')" "c p' n' = None"
    and outside: "\<not> prefix (q @ [n]) q'"
  shows "tree_lookup (set_child p' n' (Some t) (set_child p n None c)) (DirTarget r) =
    spec_rename (q @ [n]) (q' @ [n']) (tree_lookup c (DirTarget r))"
proof
  fix cs
  let ?c1 = "set_child p n None c" and ?L = "tree_lookup c (DirTarget r)"
  let ?c2 = "set_child p' n' (Some t) ?c1"
  have ok1: "tree_ok ?c1 r" using ok by (rule tree_ok_remove)
  have to1: "tree_lookup ?c1 (DirTarget r) q' = Some (DirTarget p')"
    using tree_remove [OF ok src(1), of n] outside dst(1) by (simp add: spec_remove_def)
  have below: "tree_lookup ?c2 t ns = tree_lookup c t ns" for ns
  proof (rule tree_lookup_cong_below)
    fix ms d m assume "tree_lookup c t ms = Some (DirTarget d)"
    then have d: "?L (q @ n # ms) = Some (DirTarget d)"
      by (simp add: tree_lookup_append src)
    have "d \<noteq> p" using tree_unique_path [OF ok src(1), of "q @ n # ms"] d by auto
    moreover have "d \<noteq> p'"
      using tree_unique_path [OF ok dst(1), of "q @ n # ms"] d outside by auto
    ultimately show "?c2 d m = c d m" by (simp add: set_child_def)
  qed
  show "tree_lookup ?c2 (DirTarget r) cs = spec_rename (q @ [n]) (q' @ [n']) ?L cs"
  proof (cases "prefix (q' @ [n']) cs")
    case True
    then obtain ns where cs: "cs = q' @ n' # ns" by (auto elim: prefixE)
    have "tree_lookup ?c2 (DirTarget r) cs = tree_lookup c t ns"
      by (simp add: cs set_child_below [OF ok1 to1] below)
    then show ?thesis
      by (simp add: spec_rename_def cs tree_lookup_append src)
  next
    case False
    then show ?thesis
      using set_child_outside [OF ok1 to1 False] tree_remove [OF ok src(1), of n]
      by (simp add: spec_rename_def spec_remove_def)
  qed
qed

text \<open>Moving keeps a target's parent and name unique.\<close>

lemma tree_ok_rename:
  assumes "tree_ok c r" "c p n = Some t"
  shows "tree_ok (set_child p' n' (Some t) (set_child p n None c)) r"
proof (rule tree_ok_insert)
  show "tree_ok (set_child p n None c) r" using assms(1) by (rule tree_ok_remove)
  show "set_child p n None c d m \<noteq> Some t" for d m
    using assms by (auto simp: tree_ok_def set_child_def)
  show "t \<noteq> DirTarget r" using assms by (auto simp: tree_ok_def)
qed

end
