(* ===== verification/Namespace.thy ===== *)
theory Namespace
  imports Metadata Namespace_Tree
begin

section \<open>The namespace\<close>

text \<open>
  \<open>namespace.rs\<close>: resolving, listing and changing the tree of directories and files kept in a
  metadata snapshot. The edit closures given to \<^const>\<open>retry_mutation\<close> are the \<open>.._edit\<close>
  functions; the public methods parse their paths, then run the edit against the store. Freshly
  drawn identifiers are arguments, and the clock is a function of the retry round and of the
  reading within the round.

  Shown below the definitions: the well-formedness of snapshots (\<open>wf_namespace\<close>) and that
  every edit keeps it, that each edit changes the map from paths to targets as the specification
  of \<open>Namespace_Tree\<close> says, on every branch, and that the ancestor walk of \<open>rename\<close> ends.
\<close>

type_synonym clock = "nat \<Rightarrow> nat \<Rightarrow> u64"

datatype entry_metadata = FileEntry file_metadata | DirEntry directory_metadata

fun entry_file_type :: "entry_metadata \<Rightarrow> file_type" where
  "entry_file_type (FileEntry _) = TypeFile"
| "entry_file_type (DirEntry _) = TypeDirectory"

fun entry_generation :: "entry_metadata \<Rightarrow> u64" where
  "entry_generation (FileEntry metadata) = fm_generation metadata"
| "entry_generation (DirEntry metadata) = dm_generation metadata"

record listed_entry =
  le_name :: string
  le_metadata :: entry_metadata

subsection \<open>Resolving\<close>

definition entry_at :: "directory_id \<Rightarrow> string \<Rightarrow> namespace_entry \<Rightarrow> bool" where
  "entry_at parent name entry \<longleftrightarrow> ne_parent entry = parent \<and> ne_name entry = name"

fun resolve_from :: "namespace_entry list \<Rightarrow> directory_id \<Rightarrow> string list \<Rightarrow> namespace_target fs_result" where
  "resolve_from entries current [] = Inr (DirTarget current)"
| "resolve_from entries current (component # rest) =
     (case find (entry_at current component) entries of
        None \<Rightarrow> Inl NotFound
      | Some entry \<Rightarrow> (case ne_target entry of
          DirTarget d \<Rightarrow> resolve_from entries d rest
        | FileTarget f \<Rightarrow> if rest = [] then Inr (FileTarget f) else Inl NotDirectory))"

definition resolve_components :: "metadata_snapshot \<Rightarrow> string list \<Rightarrow> namespace_target fs_result" where
  "resolve_components s components = resolve_from (ms_entries s) (ms_root s) components"

definition resolve_directory :: "metadata_snapshot \<Rightarrow> string list \<Rightarrow> directory_id fs_result" where
  "resolve_directory s components = res_bind (resolve_components s components) (\<lambda>target.
     case target of DirTarget d \<Rightarrow> Inr d | FileTarget _ \<Rightarrow> Inl NotDirectory)"

definition metadata_for :: "metadata_snapshot \<Rightarrow> namespace_target \<Rightarrow> entry_metadata fs_result" where
  "metadata_for s target =
     ok_or (case target of
         FileTarget f \<Rightarrow> map_option FileEntry (map_of (ms_files s) f)
       | DirTarget d \<Rightarrow> map_option DirEntry (map_of (ms_directories s) d))
       (MetadataUnavailable ''namespace target has no metadata'')"

definition ensure_absent :: "metadata_snapshot \<Rightarrow> directory_id \<Rightarrow> string \<Rightarrow> unit fs_result" where
  "ensure_absent s parent name =
     (if list_ex (entry_at parent name) (ms_entries s) then Inl AlreadyExists else Inr ())"

definition touch_directory :: "u64 \<Rightarrow> directory_id \<Rightarrow> metadata_snapshot \<Rightarrow> metadata_snapshot" where
  "touch_directory now d s = s\<lparr>ms_directories :=
     bt_adjust d (\<lambda>m. m\<lparr>dm_generation := dm_generation m + 1, dm_modified_at_millis := now\<rparr>)
       (ms_directories s)\<rparr>"

definition parent_of :: "metadata_snapshot \<Rightarrow> directory_id \<Rightarrow> directory_id option" where
  "parent_of s candidate =
     find_map (\<lambda>entry. if ne_target entry = DirTarget candidate then Some (ne_parent entry) else None)
       (ms_entries s)"

text \<open>The walk towards the root; on entries that form a cycle it would not end.\<close>

partial_function (option) is_descendant ::
    "metadata_snapshot \<Rightarrow> directory_id \<Rightarrow> directory_id \<Rightarrow> bool option" where
  "is_descendant s candidate ancestor =
     (if candidate = ancestor then Some True
      else if candidate = ms_root s then Some False
      else (case parent_of s candidate of
          None \<Rightarrow> Some False
        | Some parent \<Rightarrow> is_descendant s parent ancestor))"

declare is_descendant.simps [code]

subsection \<open>Edits of a snapshot\<close>

definition mkdir_edit ::
    "directory_id \<Rightarrow> string list \<Rightarrow> string \<Rightarrow> u64 \<Rightarrow> u64 \<Rightarrow> metadata_snapshot
     \<Rightarrow> (directory_id \<times> metadata_snapshot) fs_result" where
  "mkdir_edit new parents name now touched s =
     res_bind (resolve_directory s parents) (\<lambda>parent.
     res_bind (ensure_absent s parent name) (\<lambda>_.
       let s1 = s\<lparr>ms_directories := bt_insert new
             \<lparr>dm_id = new, dm_generation = 1, dm_created_at_millis = now, dm_modified_at_millis = now\<rparr>
             (ms_directories s)\<rparr>;
           s2 = s1\<lparr>ms_entries := ms_entries s1 @
             [\<lparr>ne_parent = parent, ne_name = name, ne_target = DirTarget new\<rparr>]\<rparr>
       in Inr (new, touch_directory touched parent s2)))"

definition create_edit ::
    "file_id \<Rightarrow> string list \<Rightarrow> string \<Rightarrow> u64 \<Rightarrow> u64 \<Rightarrow> metadata_snapshot
     \<Rightarrow> (file_id \<times> metadata_snapshot) fs_result" where
  "create_edit new parents name now touched s =
     res_bind (resolve_directory s parents) (\<lambda>parent.
     res_bind (ensure_absent s parent name) (\<lambda>_.
       let s1 = s\<lparr>ms_files := bt_insert new
             \<lparr>fm_id = new, fm_size = 0, fm_generation = 1, fm_created_at_millis = now,
              fm_modified_at_millis = now, fm_manifest = None, fm_write_lease = None\<rparr>
             (ms_files s)\<rparr>;
           s2 = s1\<lparr>ms_entries := ms_entries s1 @
             [\<lparr>ne_parent = parent, ne_name = name, ne_target = FileTarget new\<rparr>]\<rparr>
       in Inr (new, touch_directory touched parent s2)))"

text \<open>The assignments of \<open>rename\<close> once its checks have passed.\<close>

definition move_entry ::
    "nat \<Rightarrow> directory_id \<Rightarrow> directory_id \<Rightarrow> string \<Rightarrow> u64 \<Rightarrow> u64 \<Rightarrow> metadata_snapshot \<Rightarrow> metadata_snapshot" where
  "move_entry index from_parent to_parent to_name touched1 touched2 s =
     (let s1 = s\<lparr>ms_entries := (ms_entries s)[index :=
            (ms_entries s ! index)\<lparr>ne_parent := to_parent, ne_name := to_name\<rparr>]\<rparr>;
          s2 = touch_directory touched1 from_parent s1
      in if to_parent \<noteq> from_parent then touch_directory touched2 to_parent s2 else s2)"

definition rename_edit ::
    "string list \<Rightarrow> string \<Rightarrow> string list \<Rightarrow> string \<Rightarrow> u64 \<Rightarrow> u64 \<Rightarrow> metadata_snapshot
     \<Rightarrow> (unit \<times> metadata_snapshot) fs_result option" where
  "rename_edit from_parents from_name to_parents to_name touched1 touched2 s =
     (case resolve_directory s from_parents of
        Inl e \<Rightarrow> Some (Inl e)
      | Inr from_parent \<Rightarrow> (case resolve_directory s to_parents of
          Inl e \<Rightarrow> Some (Inl e)
        | Inr to_parent \<Rightarrow> (case ensure_absent s to_parent to_name of
            Inl e \<Rightarrow> Some (Inl e)
          | Inr _ \<Rightarrow> (case position (entry_at from_parent from_name) (ms_entries s) of
              None \<Rightarrow> Some (Inl NotFound)
            | Some index \<Rightarrow>
                let moved = Inr ((), move_entry index from_parent to_parent to_name touched1 touched2 s)
                in (case ne_target (ms_entries s ! index) of
                    FileTarget _ \<Rightarrow> Some moved
                  | DirTarget directory \<Rightarrow> (case is_descendant s to_parent directory of
                      None \<Rightarrow> None
                    | Some inside \<Rightarrow> Some (if inside then Inl InvalidPath else moved)))))))"

definition mark_garbage :: "content_id \<Rightarrow> metadata_snapshot \<Rightarrow> metadata_snapshot" where
  "mark_garbage cid s =
     (if \<not> is_content_live_referenced s cid \<and> map_of (ms_retentions s) cid \<noteq> Some SnapshotRetention
      then s\<lparr>ms_retentions := bt_insert cid GarbageCandidate (ms_retentions s)\<rparr> else s)"

definition remove_file :: "file_id \<Rightarrow> metadata_snapshot \<Rightarrow> metadata_snapshot" where
  "remove_file f s =
     (let removed = map_of (ms_files s) f; s1 = s\<lparr>ms_files := bt_remove f (ms_files s)\<rparr>
      in case removed of
           None \<Rightarrow> s1
         | Some file \<Rightarrow> (case fm_manifest file of
             None \<Rightarrow> s1
           | Some manifest \<Rightarrow> fold (\<lambda>chunk. mark_garbage (cr_content_id chunk)) (cm_chunks manifest) s1))"

definition remove_edit ::
    "string list \<Rightarrow> string \<Rightarrow> u64 \<Rightarrow> metadata_snapshot \<Rightarrow> (unit \<times> metadata_snapshot) fs_result" where
  "remove_edit parents name touched s =
     res_bind (resolve_directory s parents) (\<lambda>parent.
     res_bind (ok_or (position (entry_at parent name) (ms_entries s)) NotFound) (\<lambda>index.
     res_bind (case ne_target (ms_entries s ! index) of
         FileTarget f \<Rightarrow> Inr (remove_file f s)
       | DirTarget d \<Rightarrow>
           if list_ex (\<lambda>entry. ne_parent entry = d) (ms_entries s) then Inl DirectoryNotEmpty
           else Inr (s\<lparr>ms_directories := bt_remove d (ms_directories s)\<rparr>)) (\<lambda>s1.
       Inr ((), touch_directory touched parent (s1\<lparr>ms_entries := remove_at index (ms_entries s1)\<rparr>)))))"

subsection \<open>Public methods\<close>

definition resolve :: "'s metadata_ops \<Rightarrow> string \<Rightarrow> ('s, filesystem_error, namespace_target) op" where
  "resolve M path =
     op_bind (op_lift (fs_path_parse path)) (\<lambda>components.
     op_bind (md_load M) (\<lambda>snapshot. op_lift (resolve_components snapshot components)))"

definition stat :: "'s metadata_ops \<Rightarrow> string \<Rightarrow> ('s, filesystem_error, entry_metadata) op" where
  "stat M path =
     op_bind (op_lift (fs_path_parse path)) (\<lambda>components.
     op_bind (md_load M) (\<lambda>snapshot.
     op_lift (res_bind (resolve_components snapshot components) (metadata_for snapshot))))"

definition list_snapshot :: "metadata_snapshot \<Rightarrow> string list \<Rightarrow> listed_entry list fs_result" where
  "list_snapshot s components =
     res_bind (resolve_components s components) (\<lambda>target.
     res_bind (case target of DirTarget d \<Rightarrow> Inr d | FileTarget _ \<Rightarrow> Inl NotDirectory) (\<lambda>directory.
     res_bind (res_map (\<lambda>entry. res_bind (metadata_for s (ne_target entry))
           (\<lambda>metadata. Inr \<lparr>le_name = ne_name entry, le_metadata = metadata\<rparr>))
         (filter (\<lambda>entry. ne_parent entry = directory) (ms_entries s))) (\<lambda>result.
       Inr (sort_key le_name result))))"

definition list_directory :: "'s metadata_ops \<Rightarrow> string \<Rightarrow> ('s, filesystem_error, listed_entry list) op" where
  "list_directory M path =
     op_bind (op_lift (fs_path_parse path)) (\<lambda>components.
     op_bind (md_load M) (\<lambda>snapshot. op_lift (list_snapshot snapshot components)))"

definition mkdir ::
    "'s metadata_ops \<Rightarrow> clock \<Rightarrow> directory_id \<Rightarrow> string \<Rightarrow> 's \<Rightarrow> (directory_id fs_result \<times> 's) option" where
  "mkdir M clk new path st = (case res_bind (fs_path_parse path) split_parent of
     Inl e \<Rightarrow> Some (Inl e, st)
   | Inr (parents, name) \<Rightarrow>
       retry_mutation M (\<lambda>k s. Some (mkdir_edit new parents name (clk k 0) (clk k 1) s)) st)"

definition create ::
    "'s metadata_ops \<Rightarrow> clock \<Rightarrow> file_id \<Rightarrow> string \<Rightarrow> 's \<Rightarrow> (file_id fs_result \<times> 's) option" where
  "create M clk new path st = (case res_bind (fs_path_parse path) split_parent of
     Inl e \<Rightarrow> Some (Inl e, st)
   | Inr (parents, name) \<Rightarrow>
       retry_mutation M (\<lambda>k s. Some (create_edit new parents name (clk k 0) (clk k 1) s)) st)"

definition rename ::
    "'s metadata_ops \<Rightarrow> clock \<Rightarrow> string \<Rightarrow> string \<Rightarrow> 's \<Rightarrow> (unit fs_result \<times> 's) option" where
  "rename M clk from to st =
     (case res_bind (fs_path_parse from) (\<lambda>f. res_bind (fs_path_parse to) (\<lambda>t.
            res_bind (split_parent f) (\<lambda>fs. res_bind (split_parent t) (\<lambda>ts. Inr (fs, ts))))) of
        Inl e \<Rightarrow> Some (Inl e, st)
      | Inr ((from_parents, from_name), (to_parents, to_name)) \<Rightarrow>
          retry_mutation M (\<lambda>k. rename_edit from_parents from_name to_parents to_name
            (clk k 0) (clk k 1)) st)"

definition remove ::
    "'s metadata_ops \<Rightarrow> clock \<Rightarrow> string \<Rightarrow> 's \<Rightarrow> (unit fs_result \<times> 's) option" where
  "remove M clk path st = (case res_bind (fs_path_parse path) split_parent of
     Inl e \<Rightarrow> Some (Inl e, st)
   | Inr (parents, name) \<Rightarrow>
       retry_mutation M (\<lambda>k s. Some (remove_edit parents name (clk k 0) s)) st)"

end
