(* ===== verification/Placement.thy ===== *)
theory Placement
  imports Fs_Domain "HOL-Library.Product_Lexorder"
begin

section \<open>Placement of replicas\<close>

text \<open>
  \<open>placement.rs\<close>: the trait \<open>PlacementPolicy\<close>, whose contract is the locale
  \<open>placement_policy\<close>, and \<open>DefaultPlacementPolicy\<close>, which interprets it. \<open>Reverse\<close>
  is \<open>std::cmp::Reverse\<close>.
\<close>

record placement_request =
  pr_size :: u64
  pr_available_nodes :: "storage_node list"
  pr_existing_replicas :: "replica list"
  pr_desired_replica_count :: nat

type_synonym placement_policy = "placement_request \<Rightarrow> device_id list"

datatype 'a reverse = Reverse (unreverse: 'a)

instantiation reverse :: (linorder) linorder
begin

definition less_eq_reverse :: "'a reverse \<Rightarrow> 'a reverse \<Rightarrow> bool" where
  "less_eq_reverse x y \<longleftrightarrow> unreverse y \<le> unreverse x"

definition less_reverse :: "'a reverse \<Rightarrow> 'a reverse \<Rightarrow> bool" where
  "less_reverse x y \<longleftrightarrow> unreverse y < unreverse x"

instance
  by standard (auto simp: less_eq_reverse_def less_reverse_def reverse.expand)

end

definition existing_nodes :: "replica list \<Rightarrow> device_id list" where
  "existing_nodes replicas = dedup (sort (map rp_node_id (filter replica_present replicas)))"

definition eligible :: "placement_request \<Rightarrow> device_id list \<Rightarrow> storage_node \<Rightarrow> bool" where
  "eligible request selected node \<longleftrightarrow>
     sn_online node \<and> sn_free_space node \<ge> pr_size request \<and> sn_device_id node \<notin> set selected"

definition candidate_key ::
    "storage_node \<Rightarrow> bool reverse \<times> bool reverse \<times> u64 reverse \<times> device_id" where
  "candidate_key node =
     (Reverse (sn_availability node = Stable), Reverse (sn_power node = Mains),
      Reverse (sn_free_space node), sn_device_id node)"

fun push_nodes :: "nat \<Rightarrow> device_id list \<Rightarrow> storage_node list \<Rightarrow> device_id list" where
  "push_nodes desired selected [] = selected"
| "push_nodes desired selected (node # nodes) =
     (if length selected \<ge> desired then selected
      else push_nodes desired (selected @ [sn_device_id node]) nodes)"

definition default_desired_nodes :: placement_policy where
  "default_desired_nodes request =
     (let selected = existing_nodes (pr_existing_replicas request);
          candidates = sort_key candidate_key
            (filter (eligible request selected) (pr_available_nodes request))
      in push_nodes (pr_desired_replica_count request) selected candidates)"

subsection \<open>The contract of a policy\<close>

definition request_ok :: "placement_request \<Rightarrow> bool" where
  "request_ok request \<longleftrightarrow> distinct (map sn_device_id (pr_available_nodes request))"

definition present_nodes :: "placement_request \<Rightarrow> device_id set" where
  "present_nodes request = set (map rp_node_id (filter replica_present (pr_existing_replicas request)))"

definition candidates :: "placement_request \<Rightarrow> storage_node set" where
  "candidates request = set (filter (\<lambda>node. sn_online node \<and> sn_free_space node \<ge> pr_size request \<and>
     sn_device_id node \<notin> present_nodes request) (pr_available_nodes request))"

locale placement_policy =
  fixes desired_nodes :: placement_policy
  assumes keeps: "present_nodes request \<subseteq> set (desired_nodes request)"
    and adds: "d \<in> set (desired_nodes request) \<Longrightarrow> d \<notin> present_nodes request \<Longrightarrow>
      d \<in> sn_device_id ` candidates request"
    and no_repeat: "request_ok request \<Longrightarrow> distinct (desired_nodes request)"
    and amount: "request_ok request \<Longrightarrow> length (desired_nodes request) =
      max (card (present_nodes request))
        (min (pr_desired_replica_count request) (card (present_nodes request) + card (candidates request)))"
begin

text \<open>With enough candidates the durability target is met; with none the copies are kept as they are.\<close>

lemma target_met:
  assumes "request_ok request"
    and "pr_desired_replica_count request \<le> card (present_nodes request) + card (candidates request)"
  shows "pr_desired_replica_count request \<le> length (desired_nodes request)"
  using assms amount by simp

lemma set_eq_present:
  assumes "candidates request = {}"
  shows "set (desired_nodes request) = present_nodes request"
  using keeps adds assms by blast

lemma added_online:
  assumes "d \<in> set (desired_nodes request)" "d \<notin> present_nodes request"
  obtains node where "node \<in> set (pr_available_nodes request)" "sn_device_id node = d"
    "sn_online node" "sn_free_space node \<ge> pr_size request"
  using adds [OF assms] by (auto simp: candidates_def)

end

subsection \<open>The default policy keeps it\<close>

lemma existing_nodes_set: "set (existing_nodes (pr_existing_replicas request)) = present_nodes request"
  by (auto simp: existing_nodes_def present_nodes_def)

lemma existing_nodes_distinct: "distinct (existing_nodes rs)"
  unfolding existing_nodes_def by (simp add: distinct_dedup_sorted sorted_wrt_less_distinct)

lemma length_existing_nodes:
  "length (existing_nodes (pr_existing_replicas request)) = card (present_nodes request)"
  using distinct_card [OF existing_nodes_distinct] existing_nodes_set by metis

lemma push_nodes_eq: "push_nodes k sel ns = sel @ map sn_device_id (take (k - length sel) ns)"
proof (induction k sel ns rule: push_nodes.induct)
  case (2 k sel n ns)
  show ?case
  proof (cases "length sel < k")
    case True
    then have "k - length sel = Suc (k - Suc (length sel))" by simp
    with True 2 show ?thesis by simp
  qed simp
qed simp

lemma default_desired_nodes_eq:
  "default_desired_nodes request =
     existing_nodes (pr_existing_replicas request) @ map sn_device_id
       (take (pr_desired_replica_count request - card (present_nodes request))
         (sort_key candidate_key (filter (\<lambda>node. node \<in> candidates request) (pr_available_nodes request))))"
proof -
  have "filter (eligible request (existing_nodes (pr_existing_replicas request))) (pr_available_nodes request) =
      filter (\<lambda>node. node \<in> candidates request) (pr_available_nodes request)"
    by (rule filter_cong) (auto simp: eligible_def candidates_def existing_nodes_set)
  then show ?thesis
    by (simp add: default_desired_nodes_def push_nodes_eq length_existing_nodes)
qed

lemma card_candidates:
  assumes "request_ok request"
  shows "length (filter (\<lambda>node. node \<in> candidates request) (pr_available_nodes request)) =
    card (candidates request)"
proof -
  have "distinct (filter (\<lambda>node. node \<in> candidates request) (pr_available_nodes request))"
    using assms by (simp add: request_ok_def distinct_map)
  then have "length (filter (\<lambda>node. node \<in> candidates request) (pr_available_nodes request)) =
      card (set (filter (\<lambda>node. node \<in> candidates request) (pr_available_nodes request)))"
    by (simp only: distinct_card)
  also have "set (filter (\<lambda>node. node \<in> candidates request) (pr_available_nodes request)) = candidates request"
    by (auto simp: candidates_def)
  finally show ?thesis .
qed

lemma sort_candidates_distinct:
  assumes "request_ok request"
  shows "distinct (map sn_device_id (take n (sort_key candidate_key
    (filter (\<lambda>node. node \<in> candidates request) (pr_available_nodes request)))))"
proof -
  have "inj_on sn_device_id (set (pr_available_nodes request))" "distinct (pr_available_nodes request)"
    using assms by (simp_all add: request_ok_def distinct_map)
  then have "distinct (map sn_device_id (sort_key candidate_key
      (filter (\<lambda>node. node \<in> candidates request) (pr_available_nodes request))))"
    by (auto simp: distinct_map inj_on_def)
  then show ?thesis by (simp add: distinct_take flip: take_map)
qed

interpretation default: placement_policy default_desired_nodes
proof (unfold_locales, goal_cases)
  case (1 request)
  then show ?case by (auto simp: default_desired_nodes_eq existing_nodes_set)
next
  case (2 d request)
  then show ?case
    by (auto simp: default_desired_nodes_eq existing_nodes_set dest!: in_set_takeD)
next
  case (3 request)
  have "d \<in> set (existing_nodes (pr_existing_replicas request)) \<Longrightarrow>
      d \<notin> sn_device_id ` set (take n (sort_key candidate_key
        (filter (\<lambda>node. node \<in> candidates request) (pr_available_nodes request))))" for d n
    by (auto simp: existing_nodes_set candidates_def dest!: in_set_takeD)
  then show ?case
    using sort_candidates_distinct [OF 3] existing_nodes_distinct
    by (auto simp: default_desired_nodes_eq)
next
  case (4 request)
  then show ?case
    by (simp add: default_desired_nodes_eq length_existing_nodes card_candidates)
qed

subsection \<open>Properties\<close>

definition demo_request :: placement_request where
  "demo_request = (let node = \<lparr>sn_device_id = DeviceId ''n.a'', sn_online = True, sn_free_space = 10,
       sn_total_space = 10, sn_power = Mains, sn_availability = Stable, sn_network = Lan\<rparr>
     in \<lparr>pr_size = 5,
         pr_available_nodes = [node,
           node\<lparr>sn_device_id := DeviceId ''n.b'', sn_availability := Intermittent\<rparr>,
           node\<lparr>sn_device_id := DeviceId ''n.c'', sn_free_space := 20\<rparr>],
         pr_existing_replicas = [\<lparr>rp_node_id = DeviceId ''n.a'', rp_state = Healthy\<rparr>],
         pr_desired_replica_count = 2\<rparr>)"

lemma demo_request_ok: "request_ok demo_request"
  by (simp add: request_ok_def demo_request_def Let_def)

text \<open>
  C33: the default policy keeps every node that already holds a copy, adds only online nodes with
  enough free space, never names a node twice, and names as many nodes as the durability target
  asks for, or all there are.
\<close>

theorem default_policy_contract:
  assumes "request_ok request"
  shows "present_nodes request \<subseteq> set (default_desired_nodes request) \<and>
    set (default_desired_nodes request) \<subseteq> present_nodes request \<union> sn_device_id ` candidates request \<and>
    distinct (default_desired_nodes request) \<and>
    length (default_desired_nodes request) = max (card (present_nodes request))
      (min (pr_desired_replica_count request) (card (present_nodes request) + card (candidates request)))"
  using default.keeps default.adds default.no_repeat [OF assms] default.amount [OF assms] by blast

theorem default_policy_contract_witness:
  "present_nodes demo_request \<subseteq> set (default_desired_nodes demo_request) \<and>
    set (default_desired_nodes demo_request) \<subseteq>
      present_nodes demo_request \<union> sn_device_id ` candidates demo_request \<and>
    distinct (default_desired_nodes demo_request) \<and>
    length (default_desired_nodes demo_request) = max (card (present_nodes demo_request))
      (min (pr_desired_replica_count demo_request)
        (card (present_nodes demo_request) + card (candidates demo_request)))"
  by (rule default_policy_contract [OF demo_request_ok])

text \<open>The sort and the cut agree: what is added ranks before what is left out.\<close>

lemma default_policy_ranked:
  assumes "request_ok request" "x \<in> candidates request" "y \<in> candidates request"
    and "sn_device_id x \<in> set (default_desired_nodes request)"
    and "sn_device_id y \<notin> set (default_desired_nodes request)"
  shows "candidate_key x \<le> candidate_key y"
proof -
  let ?k = "pr_desired_replica_count request - card (present_nodes request)"
  let ?l = "sort_key candidate_key (filter (\<lambda>node. node \<in> candidates request) (pr_available_nodes request))"
  have inj: "inj_on sn_device_id (set (pr_available_nodes request))"
    using assms(1) by (simp add: request_ok_def distinct_map)
  have cand: "set ?l = candidates request" by (auto simp: candidates_def)
  have "sn_device_id x \<notin> present_nodes request" using assms(2) by (simp add: candidates_def)
  with assms(4) obtain x' where x': "x' \<in> set (take ?k ?l)" "sn_device_id x' = sn_device_id x"
    by (auto simp: default_desired_nodes_eq existing_nodes_set)
  then have "x' = x"
    using inj assms(2) cand in_set_takeD [OF x'(1)] by (auto simp: candidates_def dest: inj_onD)
  with x' have x: "x \<in> set (take ?k ?l)" by simp
  have "y \<notin> set (take ?k ?l)" using assms(5) by (auto simp: default_desired_nodes_eq)
  moreover have "y \<in> set (take ?k ?l) \<union> set (drop ?k ?l)"
    using assms(3) cand by (metis append_take_drop_id set_append)
  ultimately have y: "y \<in> set (drop ?k ?l)" by blast
  have "sorted (map candidate_key (take ?k ?l) @ map candidate_key (drop ?k ?l))"
    by (metis append_take_drop_id map_append sorted_sort_key)
  with x y show ?thesis by (auto simp: sorted_append)
qed

lemma candidate_key_order:
  "candidate_key x \<le> candidate_key y \<longleftrightarrow>
     (sn_availability x = Stable \<and> sn_availability y \<noteq> Stable) \<or>
     ((sn_availability x = Stable) = (sn_availability y = Stable) \<and>
      ((sn_power x = Mains \<and> sn_power y \<noteq> Mains) \<or>
       ((sn_power x = Mains) = (sn_power y = Mains) \<and>
        (sn_free_space y < sn_free_space x \<or>
         (sn_free_space x = sn_free_space y \<and> sn_device_id x \<le> sn_device_id y)))))"
  by (auto simp: candidate_key_def less_eq_reverse_def less_reverse_def)

text \<open>
  C34: the default policy prefers better nodes. Of two candidates of which it adds one and leaves the
  other out, the one it adds is stable if the other is; if the two agree on that, it is on mains power
  if the other is; if they agree on both, it has at least the free space of the other; and if they agree
  on all of it, its identifier is the smaller one.
\<close>

theorem default_policy_prefers:
  assumes "request_ok request" "x \<in> candidates request" "y \<in> candidates request"
    and "sn_device_id x \<in> set (default_desired_nodes request)"
    and "sn_device_id y \<notin> set (default_desired_nodes request)"
  shows "(sn_availability y = Stable \<longrightarrow> sn_availability x = Stable) \<and>
    ((sn_availability x = Stable) = (sn_availability y = Stable) \<longrightarrow>
      (sn_power y = Mains \<longrightarrow> sn_power x = Mains) \<and>
      ((sn_power x = Mains) = (sn_power y = Mains) \<longrightarrow>
        sn_free_space y \<le> sn_free_space x \<and>
        (sn_free_space x = sn_free_space y \<longrightarrow> sn_device_id x < sn_device_id y)))"
proof -
  have "sn_device_id x \<noteq> sn_device_id y" using assms(4,5) by metis
  with default_policy_ranked [OF assms] show ?thesis unfolding candidate_key_order by auto
qed

text \<open>Of the two nodes without a copy, the stable one is taken and the intermittent one is not.\<close>

theorem default_policy_prefers_witness:
  "\<exists>x y. x \<in> candidates demo_request \<and> y \<in> candidates demo_request \<and>
     sn_device_id x \<in> set (default_desired_nodes demo_request) \<and>
     sn_device_id y \<notin> set (default_desired_nodes demo_request) \<and>
     (sn_availability y = Stable \<longrightarrow> sn_availability x = Stable)"
proof -
  let ?x = "pr_available_nodes demo_request ! 2" and ?y = "pr_available_nodes demo_request ! 1"
  have x: "?x \<in> candidates demo_request" and y: "?y \<in> candidates demo_request" by code_simp+
  have sel: "sn_device_id ?x \<in> set (default_desired_nodes demo_request)"
    "sn_device_id ?y \<notin> set (default_desired_nodes demo_request)" by code_simp+
  from default_policy_prefers [OF demo_request_ok x y sel] x y sel show ?thesis by blast
qed

end
