(* ===== verification/Content.thy ===== *)
theory Content
  imports Fs_Domain
begin

section \<open>Content stores and their registry\<close>

text \<open>
  \<open>content.rs\<close>: the trait \<open>ContentStore\<close>, the in-memory store and
  \<open>ContentStoreRegistry\<close>. A store behind an \<open>Arc<dyn ContentStore>\<close> is the record of its
  methods over the state \<open>'c\<close> all stores share (\<open>content_store\<close>), so that two nodes may be
  registered with the same store, and a store may live on another machine. The contract of any
  such store is the locale \<open>content_store\<close>; \<open>exact_content_store\<close> adds what holds of a
  store that always knows what it holds, and is interpreted by the in-memory store at any address
  of a heap of stores.
\<close>

record 'c content_store =
  cs_put :: "bytes \<Rightarrow> ('c, filesystem_error, content_id) op"
  cs_get :: "content_id \<Rightarrow> ('c, filesystem_error, bytes) op"
  cs_exists :: "content_id \<Rightarrow> ('c, filesystem_error, bool) op"
  cs_delete :: "content_id \<Rightarrow> ('c, filesystem_error, unit) op"

subsection \<open>The in-memory store\<close>

record in_memory_content =
  imc_blobs :: "(content_id, bytes) btree_map"
  imc_capacity :: u64
  imc_poisoned :: bool

definition in_memory_content_new :: "u64 \<Rightarrow> in_memory_content" where
  "in_memory_content_new capacity = \<lparr>imc_blobs = [], imc_capacity = capacity, imc_poisoned = False\<rparr>"

definition content_lock_poisoned :: filesystem_error where
  "content_lock_poisoned = Storage ''content lock poisoned''"

definition overwrite_unchecked ::
    "content_id \<Rightarrow> bytes \<Rightarrow> (in_memory_content, filesystem_error, unit) op" where
  "overwrite_unchecked cid data st =
     (if imc_poisoned st then (Inl content_lock_poisoned, st)
      else (Inr (), st\<lparr>imc_blobs := bt_insert cid data (imc_blobs st)\<rparr>))"

definition blob_size :: "bytes \<Rightarrow> u64" where
  "blob_size blob = (case u64_try_from (length blob) of Some n \<Rightarrow> n | None \<Rightarrow> u64_max)"

definition imc_used :: "content_id \<Rightarrow> in_memory_content \<Rightarrow> u64" where
  "imc_used cid st =
     sum_list (map (\<lambda>p. blob_size (snd p)) (filter (\<lambda>p. fst p \<noteq> cid) (imc_blobs st)))"

definition imc_put :: "hash_function \<Rightarrow> bytes \<Rightarrow> (in_memory_content, filesystem_error, content_id) op" where
  "imc_put sha256 data st =
     (let cid = for_bytes sha256 data in
      if imc_poisoned st then (Inl content_lock_poisoned, st)
      else if (case map_of (imc_blobs st) cid of None \<Rightarrow> False | Some existing \<Rightarrow> matches sha256 cid existing)
      then (Inr cid, st)
      else (case u64_try_from (length data) of
          None \<Rightarrow> (Inl NoSpace, st)
        | Some sz \<Rightarrow>
            if saturating_add_u64 (imc_used cid st) sz > imc_capacity st then (Inl NoSpace, st)
            else (Inr cid, st\<lparr>imc_blobs := bt_insert cid data (imc_blobs st)\<rparr>)))"

definition imc_get :: "content_id \<Rightarrow> (in_memory_content, filesystem_error, bytes) op" where
  "imc_get cid st =
     (if imc_poisoned st then (Inl content_lock_poisoned, st)
      else (ok_or (map_of (imc_blobs st) cid) ContentUnavailable, st))"

definition imc_exists :: "content_id \<Rightarrow> (in_memory_content, filesystem_error, bool) op" where
  "imc_exists cid st =
     (if imc_poisoned st then (Inl content_lock_poisoned, st)
      else (Inr (map_of (imc_blobs st) cid \<noteq> None), st))"

definition imc_delete :: "content_id \<Rightarrow> (in_memory_content, filesystem_error, unit) op" where
  "imc_delete cid st =
     (if imc_poisoned st then (Inl content_lock_poisoned, st)
      else (Inr (), st\<lparr>imc_blobs := bt_remove cid (imc_blobs st)\<rparr>))"

text \<open>A heap of in-memory stores, and the trait object of the store at an address.\<close>

type_synonym content_heap = "nat \<Rightarrow> in_memory_content"

definition at_address :: "nat \<Rightarrow> (in_memory_content, 'e, 'a) op \<Rightarrow> (content_heap, 'e, 'a) op" where
  "at_address a m h = (let (r, st) = m (h a) in (r, h(a := st)))"

definition in_memory_store :: "hash_function \<Rightarrow> nat \<Rightarrow> content_heap content_store" where
  "in_memory_store sha256 a =
     \<lparr>cs_put = \<lambda>data. at_address a (imc_put sha256 data),
      cs_get = \<lambda>cid. at_address a (imc_get cid),
      cs_exists = \<lambda>cid. at_address a (imc_exists cid),
      cs_delete = \<lambda>cid. at_address a (imc_delete cid)\<rparr>"

subsection \<open>The registry\<close>

record 'c registered_node =
  rn_state :: storage_node
  rn_store :: "'c content_store"

record 'c content_registry =
  reg_nodes :: "(device_id, 'c registered_node) btree_map"
  reg_poisoned :: bool

definition registry_lock_poisoned :: filesystem_error where
  "registry_lock_poisoned = Storage ''registry lock poisoned''"

definition registry_new :: "'c content_registry" where
  "registry_new = \<lparr>reg_nodes = [], reg_poisoned = False\<rparr>"

definition registry_register ::
    "storage_node \<Rightarrow> 'c content_store \<Rightarrow> ('c content_registry, filesystem_error, unit) op" where
  "registry_register node store reg =
     (if reg_poisoned reg then (Inl registry_lock_poisoned, reg)
      else (Inr (), reg\<lparr>reg_nodes := bt_insert (sn_device_id node)
             \<lparr>rn_state = node, rn_store = store\<rparr> (reg_nodes reg)\<rparr>))"

definition registry_nodes :: "'c content_registry \<Rightarrow> storage_node list fs_result" where
  "registry_nodes reg =
     (if reg_poisoned reg then Inl registry_lock_poisoned
      else Inr (map rn_state (bt_values (reg_nodes reg))))"

definition registry_node :: "'c content_registry \<Rightarrow> device_id \<Rightarrow> storage_node fs_result" where
  "registry_node reg node_id =
     (if reg_poisoned reg then Inl registry_lock_poisoned
      else ok_or (map_option rn_state (map_of (reg_nodes reg) node_id)) NodeNotFound)"

definition registry_set_online ::
    "device_id \<Rightarrow> bool \<Rightarrow> ('c content_registry, filesystem_error, unit) op" where
  "registry_set_online node_id online reg =
     (if reg_poisoned reg then (Inl registry_lock_poisoned, reg)
      else (case map_of (reg_nodes reg) node_id of
          None \<Rightarrow> (Inl NodeNotFound, reg)
        | Some node \<Rightarrow> (Inr (), reg\<lparr>reg_nodes := bt_adjust node_id
            (\<lambda>n. n\<lparr>rn_state := (rn_state n)\<lparr>sn_online := online\<rparr>\<rparr>) (reg_nodes reg)\<rparr>)))"

definition registry_store :: "'c content_registry \<Rightarrow> device_id \<Rightarrow> 'c content_store fs_result" where
  "registry_store reg node_id =
     (if reg_poisoned reg then Inl registry_lock_poisoned
      else ok_or (map_option rn_store (map_of (reg_nodes reg) node_id)) NodeNotFound)"

definition put_on :: "'c content_registry \<Rightarrow> device_id \<Rightarrow> bytes \<Rightarrow> ('c, filesystem_error, content_id) op" where
  "put_on reg node_id data =
     op_bind (op_lift (registry_node reg node_id)) (\<lambda>node.
       if \<not> sn_online node then op_lift (Inl ContentUnavailable)
       else op_bind (op_lift (registry_store reg node_id)) (\<lambda>store. cs_put store data))"

definition get_from :: "'c content_registry \<Rightarrow> device_id \<Rightarrow> content_id \<Rightarrow> ('c, filesystem_error, bytes) op" where
  "get_from reg node_id cid =
     op_bind (op_lift (registry_node reg node_id)) (\<lambda>node.
       if \<not> sn_online node then op_lift (Inl ContentUnavailable)
       else op_bind (op_lift (registry_store reg node_id)) (\<lambda>store. cs_get store cid))"

subsection \<open>The contract of a content store\<close>

text \<open>
  \<open>blob\<close> is what the store holds under the identifiers it can tell apart, which are at least
  those of the form \<open>for_bytes\<close> makes. Errors may happen at any time; a failed call changes at
  most the blob it was about, and an answer that something is there is right.
\<close>

locale content_store =
  fixes sha256 :: hash_function
    and ops :: "'c content_store"
    and known :: "content_id \<Rightarrow> bool"
    and blob :: "'c \<Rightarrow> content_id \<Rightarrow> bytes option"
  assumes known_digest: "known (for_bytes sha256 data)"
    and put_ok: "cs_put ops data c = (Inr cid, c') \<Longrightarrow> cid = for_bytes sha256 data \<and>
      (\<exists>b. blob c' = (blob c)(cid \<mapsto> b) \<and> matches sha256 cid b)"
    and put_err: "cs_put ops data c = (Inl e, c') \<Longrightarrow> x \<noteq> for_bytes sha256 data \<Longrightarrow> blob c' x = blob c x"
    and get_ok: "known cid \<Longrightarrow> cs_get ops cid c = (Inr b, c') \<Longrightarrow> blob c cid = Some b"
    and get_frame: "cs_get ops cid c = (r, c') \<Longrightarrow> blob c' = blob c"
    and exists_ok: "known cid \<Longrightarrow> cs_exists ops cid c = (Inr True, c') \<Longrightarrow> blob c cid \<noteq> None"
    and exists_frame: "cs_exists ops cid c = (q, c') \<Longrightarrow> blob c' = blob c"
    and delete_ok: "known cid \<Longrightarrow> cs_delete ops cid c = (Inr (), c') \<Longrightarrow> blob c' = (blob c)(cid := None)"
    and delete_err: "known cid \<Longrightarrow> cs_delete ops cid c = (Inl e, c') \<Longrightarrow> x \<noteq> cid \<Longrightarrow> blob c' x = blob c x"
begin

text \<open>What was put is got back, byte for byte, unless two inputs of the same digest are in play.\<close>

lemma put_get:
  assumes "cs_put ops data c = (Inr cid, c1)" "cs_get ops cid c1 = (Inr b, c2)"
  shows "matches sha256 cid b"
proof -
  from put_ok [OF assms(1)] obtain b' where b': "cid = for_bytes sha256 data" "blob c1 cid = Some b'" "matches sha256 cid b'"
    by auto
  moreover have "blob c1 cid = Some b" using get_ok [OF _ assms(2)] b'(1) known_digest by simp
  ultimately show ?thesis by simp
qed

lemma put_get_exact:
  assumes "inj_on sha256 {data, b}"
    and "cs_put ops data c = (Inr cid, c1)" "cs_get ops cid c1 = (Inr b, c2)"
  shows "b = data"
proof -
  have "matches sha256 cid b" "cid = for_bytes sha256 data"
    using put_get [OF assms(2,3)] put_ok [OF assms(2)] by blast+
  then have "sha256 data = sha256 b" by (simp add: matches_def)
  then have "data = b" by (rule inj_onD [OF assms(1)]) simp_all
  then show ?thesis by (rule sym)
qed

lemma delete_get:
  assumes "known cid" "cs_delete ops cid c = (Inr (), c1)" "cs_get ops cid c1 = (r, c2)"
  shows "\<exists>e. r = Inl e"
  using delete_ok [OF assms(1,2)] get_ok [OF assms(1), of c1 _ c2] assms(3) by (cases r) auto

text \<open>A content identifier once stored with matching bytes keeps matching bytes under puts.\<close>

lemma put_keeps_valid:
  assumes "cs_put ops data c = (r, c')" "blob c x = Some b" "matches sha256 x b" "x \<noteq> for_bytes sha256 data \<or> (\<exists>v. r = Inr v)"
  shows "\<exists>b'. blob c' x = Some b' \<and> matches sha256 x b'"
proof (cases r)
  case (Inl e)
  with assms put_err [of data c e c' x] show ?thesis by auto
next
  case (Inr v)
  with assms put_ok [of data c v c'] show ?thesis by (cases "x = v") auto
qed

end

text \<open>A store that always knows what it holds.\<close>

locale exact_content_store = content_store +
  assumes get_missing: "known cid \<Longrightarrow> cs_get ops cid c = (Inl ContentUnavailable, c') \<Longrightarrow> blob c cid = None"
    and exists_complete: "known cid \<Longrightarrow> cs_exists ops cid c = (Inr False, c') \<Longrightarrow> blob c cid = None"
begin

lemma put_available:
  assumes "cs_put ops data c = (Inr cid, c1)"
  shows "cs_get ops cid c1 \<noteq> (Inl ContentUnavailable, c2)" "cs_exists ops cid c1 \<noteq> (Inr False, c2)"
proof -
  have "known cid" "blob c1 cid \<noteq> None" using put_ok [OF assms] known_digest by auto
  with get_missing [of cid c1 c2] exists_complete [of cid c1 c2]
  show "cs_get ops cid c1 \<noteq> (Inl ContentUnavailable, c2)" "cs_exists ops cid c1 \<noteq> (Inr False, c2)"
    by auto
qed

end

subsection \<open>The in-memory store keeps it\<close>

lemma at_address_eq: "at_address a m h = (fst (m (h a)), h(a := snd (m (h a))))"
  by (simp add: at_address_def case_prod_beta Let_def)

lemma imc_put_cases:
  obtains (kept) e where "imc_put sha256 data st = (Inl e, st)"
    | (there) b where "imc_put sha256 data st = (Inr (for_bytes sha256 data), st)"
      "map_of (imc_blobs st) (for_bytes sha256 data) = Some b" "matches sha256 (for_bytes sha256 data) b"
    | (stored) sz where "imc_put sha256 data st = (Inr (for_bytes sha256 data),
        st\<lparr>imc_blobs := bt_insert (for_bytes sha256 data) data (imc_blobs st)\<rparr>)"
      "u64_try_from (length data) = Some sz" "\<not> imc_poisoned st"
      "saturating_add_u64 (imc_used (for_bytes sha256 data) st) sz \<le> imc_capacity st"
proof -
  consider "imc_poisoned st" | b where "\<not> imc_poisoned st" "map_of (imc_blobs st) (for_bytes sha256 data) = Some b"
      "matches sha256 (for_bytes sha256 data) b"
    | "\<not> imc_poisoned st" "\<not> (case map_of (imc_blobs st) (for_bytes sha256 data) of None \<Rightarrow> False
        | Some existing \<Rightarrow> matches sha256 (for_bytes sha256 data) existing)"
    by (cases "map_of (imc_blobs st) (for_bytes sha256 data)") auto
  then show thesis
  proof cases
    case 1
    then show ?thesis by (intro kept) (simp add: imc_put_def Let_def)
  next
    case 2
    then show ?thesis by (intro there) (simp_all add: imc_put_def Let_def)
  next
    case 3
    then have eq: "imc_put sha256 data st = (case u64_try_from (length data) of
          None \<Rightarrow> (Inl NoSpace, st)
        | Some sz \<Rightarrow>
            if saturating_add_u64 (imc_used (for_bytes sha256 data) st) sz > imc_capacity st then (Inl NoSpace, st)
            else (Inr (for_bytes sha256 data),
              st\<lparr>imc_blobs := bt_insert (for_bytes sha256 data) data (imc_blobs st)\<rparr>))"
      by (simp add: imc_put_def Let_def)
    show ?thesis
    proof (cases "u64_try_from (length data)")
      case None
      with eq show ?thesis by (intro kept) simp
    next
      case (Some sz)
      show ?thesis
      proof (cases "saturating_add_u64 (imc_used (for_bytes sha256 data) st) sz > imc_capacity st")
        case True
        with eq Some show ?thesis by (intro kept) simp
      next
        case False
        with eq Some 3 show ?thesis by (intro stored) auto
      qed
    qed
  qed
qed

definition heap_blob :: "nat \<Rightarrow> content_heap \<Rightarrow> content_id \<Rightarrow> bytes option" where
  "heap_blob a h = map_of (imc_blobs (h a))"

lemma in_memory_store_sel:
  "cs_put (in_memory_store sha256 a) data h = (fst (imc_put sha256 data (h a)), h(a := snd (imc_put sha256 data (h a))))"
  "cs_get (in_memory_store sha256 a) cid h = (fst (imc_get cid (h a)), h(a := snd (imc_get cid (h a))))"
  "cs_exists (in_memory_store sha256 a) cid h = (fst (imc_exists cid (h a)), h(a := snd (imc_exists cid (h a))))"
  "cs_delete (in_memory_store sha256 a) cid h = (fst (imc_delete cid (h a)), h(a := snd (imc_delete cid (h a))))"
  by (simp_all add: in_memory_store_def at_address_eq)

interpretation imc: exact_content_store sha256 "in_memory_store sha256 a" "\<lambda>_. True" "heap_blob a" for sha256 a
proof (unfold_locales, goal_cases)
  case (2 data c cid c')
  then show ?case
    by (cases rule: imc_put_cases [of sha256 data "c a"])
       (auto simp: in_memory_store_sel heap_blob_def fun_upd_triv intro!: exI)
next
  case (3 data c e c' x)
  then show ?case
    by (cases rule: imc_put_cases [of sha256 data "c a"]) (auto simp: in_memory_store_sel heap_blob_def)
qed (auto simp: in_memory_store_sel heap_blob_def imc_get_def imc_exists_def imc_delete_def
    content_lock_poisoned_def ok_or_def split: if_splits option.splits)

subsection \<open>Capacity\<close>

definition stored_bytes :: "(content_id, bytes) btree_map \<Rightarrow> nat" where
  "stored_bytes m = sum_list (map (\<lambda>p. length (snd p)) m)"

definition imc_ok :: "in_memory_content \<Rightarrow> bool" where
  "imc_ok st \<longleftrightarrow> bt_ok (imc_blobs st) \<and> stored_bytes (imc_blobs st) \<le> unat (imc_capacity st)"

lemma stored_bytes_filter: "stored_bytes (filter P m) \<le> stored_bytes m"
  by (induction m) (auto simp: stored_bytes_def)

lemma stored_bytes_insert:
  assumes "bt_ok m"
  shows "stored_bytes (bt_insert k v m) = stored_bytes (filter (\<lambda>p. fst p \<noteq> k) m) + length v"
  using assms
proof (induction m)
  case (Cons p m)
  obtain a b where p: "p = (a, b)" by (cases p)
  with Cons.prems have ok: "bt_ok m" and gt: "\<And>q. q \<in> set m \<Longrightarrow> a < fst q"
    by (auto simp: bt_ok_def)
  have all: "filter (\<lambda>p. fst p \<noteq> k) m = m" if "k \<le> a"
    using gt that by (fastforce simp: filter_id_conv)
  from Cons.IH [OF ok] all show ?case
    by (cases k a rule: linorder_cases) (auto simp: p stored_bytes_def)
qed (simp add: stored_bytes_def)

lemma blob_size_unat: "length b < 2 ^ 64 \<Longrightarrow> unat (blob_size b) = length b"
  by (simp add: blob_size_def u64_try_from_def unat_of_nat)

lemma unat_sum_sizes:
  "stored_bytes m < 2 ^ 64 \<Longrightarrow> unat (sum_list (map (\<lambda>p. blob_size (snd p)) m)) = stored_bytes m"
proof (induction m)
  case (Cons p m)
  then have "unat (blob_size (snd p)) = length (snd p)"
    "unat (sum_list (map (\<lambda>p. blob_size (snd p)) m)) = stored_bytes m"
    by (simp_all add: blob_size_unat stored_bytes_def)
  moreover from Cons.prems have "length (snd p) + stored_bytes m < 2 ^ 64"
    by (simp add: stored_bytes_def)
  ultimately show ?case by (simp add: unat_word_ariths stored_bytes_def)
qed (simp add: stored_bytes_def)

lemma imc_used_unat:
  assumes "imc_ok st"
  shows "unat (imc_used cid st) = stored_bytes (filter (\<lambda>p. fst p \<noteq> cid) (imc_blobs st))"
proof -
  have "stored_bytes (filter (\<lambda>p. fst p \<noteq> cid) (imc_blobs st)) \<le> unat (imc_capacity st)"
    using assms stored_bytes_filter [of "\<lambda>p. fst p \<noteq> cid" "imc_blobs st"] by (simp add: imc_ok_def)
  also have "\<dots> < 2 ^ 64" using unsigned_less [of "imc_capacity st"] by simp
  finally show ?thesis unfolding imc_used_def by (rule unat_sum_sizes)
qed

lemma fits_iff:
  assumes "imc_ok st" "u64_try_from (length data) = Some sz" "imc_capacity st \<noteq> u64_max"
  shows "saturating_add_u64 (imc_used cid st) sz \<le> imc_capacity st \<longleftrightarrow>
    stored_bytes (filter (\<lambda>p. fst p \<noteq> cid) (imc_blobs st)) + length data \<le> unat (imc_capacity st)"
proof -
  have "unat (imc_capacity st) < 2 ^ 64 - 1"
    using unat_u64_bound [of "imc_capacity st"] assms(3) unat_u64_max
      word_unat_eq_iff [of "imc_capacity st" u64_max]
    by simp
  then show ?thesis
    unfolding word_le_nat_alt unat_saturating_add_u64 imc_used_unat [OF assms(1)]
      u64_try_from_Some [OF assms(2)] by (auto simp: min_le_iff_disj)
qed

lemma saturating_bound:
  assumes "imc_ok st" "u64_try_from (length data) = Some sz" "imc_capacity st \<noteq> u64_max"
    and "saturating_add_u64 (imc_used cid st) sz \<le> imc_capacity st"
  shows "imc_ok (st\<lparr>imc_blobs := bt_insert cid data (imc_blobs st)\<rparr>)"
  using assms fits_iff [OF assms(1-3)] by (simp add: imc_ok_def stored_bytes_insert)

subsection \<open>Properties\<close>

text \<open>
  An in-memory store never holds more bytes than its capacity, whatever is put or deleted and
  whatever the outcome; the 64-bit sum that checks it does not wrap.
\<close>

theorem imc_capacity_kept:
  assumes "imc_ok st" "imc_capacity st \<noteq> u64_max"
  shows "imc_ok (snd (imc_put sha256 data st)) \<and> imc_ok (snd (imc_delete cid st)) \<and>
    imc_capacity (snd (imc_put sha256 data st)) = imc_capacity st"
proof -
  have "imc_ok (snd (imc_put sha256 data st)) \<and> imc_capacity (snd (imc_put sha256 data st)) = imc_capacity st"
    by (cases rule: imc_put_cases [of sha256 data st]) (use assms saturating_bound [OF assms(1) _ assms(2)] in auto)
  moreover have "imc_ok (snd (imc_delete cid st))"
    using assms stored_bytes_filter [of "\<lambda>p. fst p \<noteq> cid" "imc_blobs st"]
    by (auto simp: imc_delete_def imc_ok_def bt_remove_def bt_ok_filter)
  ultimately show ?thesis by simp
qed

theorem imc_capacity_kept_witness:
  "imc_ok (snd (imc_put (\<lambda>bs. bs) [1, 2] (in_memory_content_new 3))) \<and>
   imc_ok (snd (imc_delete (ContentId ''x'') (in_memory_content_new 3))) \<and>
   imc_capacity (snd (imc_put (\<lambda>bs. bs) [1, 2] (in_memory_content_new 3))) = imc_capacity (in_memory_content_new 3)"
proof (rule imc_capacity_kept)
  show "imc_ok (in_memory_content_new 3)"
    by (simp add: imc_ok_def in_memory_content_new_def stored_bytes_def)
  show "imc_capacity (in_memory_content_new 3) \<noteq> u64_max"
    by (simp add: in_memory_content_new_def u64_max_def)
qed

text \<open>
  Putting data into an in-memory store succeeds exactly when a valid copy is already there or
  the bytes fit next to the other blobs; on success the data's identifier is returned and reading
  it back gives bytes of that identifier, so a corrupted copy has been repaired.
\<close>

theorem imc_put_total:
  assumes "imc_ok st" "imc_capacity st \<noteq> u64_max" "\<not> imc_poisoned st" "length data < 2 ^ 64"
  shows "imc_put sha256 data st = (r, st') \<Longrightarrow>
    (if (\<exists>b. map_of (imc_blobs st) (for_bytes sha256 data) = Some b \<and> sha256 b = sha256 data) \<or>
        stored_bytes (filter (\<lambda>p. fst p \<noteq> for_bytes sha256 data) (imc_blobs st)) + length data
          \<le> unat (imc_capacity st)
     then r = Inr (for_bytes sha256 data) \<and>
       (\<exists>b. imc_get (for_bytes sha256 data) st' = (Inr b, st') \<and> sha256 b = sha256 data)
     else r = Inl NoSpace \<and> st' = st)"
proof -
  assume put: "imc_put sha256 data st = (r, st')"
  from assms(4) obtain sz where sz: "u64_try_from (length data) = Some sz"
    by (auto simp: u64_try_from_def)
  note fits = fits_iff [OF assms(1) sz assms(2), of "for_bytes sha256 data"]
  show ?thesis
  proof (cases "map_of (imc_blobs st) (for_bytes sha256 data)")
    case None
    with put assms(3) sz fits show ?thesis
      by (auto simp: imc_put_def imc_get_def Let_def not_less split: if_splits)
  next
    case (Some b)
    have "matches sha256 (for_bytes sha256 data) b \<longleftrightarrow> sha256 b = sha256 data"
      by (auto simp: matches_def)
    with Some put assms(3) sz fits show ?thesis
      by (auto simp: imc_put_def imc_get_def Let_def not_less split: if_splits)
  qed
qed

theorem imc_put_total_witness:
  "fst (imc_put (\<lambda>bs. bs) [1, 2] (in_memory_content_new 3)) = Inr (for_bytes (\<lambda>bs. bs) [1, 2])"
proof -
  let ?st = "in_memory_content_new 3"
  obtain r st' where put: "imc_put (\<lambda>bs. bs) [1, 2] ?st = (r, st')" by fastforce
  have "imc_ok ?st" "imc_capacity ?st \<noteq> u64_max" "\<not> imc_poisoned ?st" "length [1 :: byte, 2] < 2 ^ 64"
    by (simp_all add: imc_ok_def in_memory_content_new_def stored_bytes_def u64_max_def)
  from imc_put_total [OF this put] put show ?thesis
    by (simp add: in_memory_content_new_def stored_bytes_def split: if_splits)
qed

text \<open>
  Any node registered with an in-memory store serves what was put on it: after a successful
  \<open>put_on\<close>, \<open>get_from\<close> on the same node returns exactly the data, if the hash has no
  collision between the data and what is returned.
\<close>

theorem put_on_get_from:
  assumes "registry_store reg node = Inr (in_memory_store sha256 a)"
    and "put_on reg node data h = (Inr cid, h1)" "get_from reg node cid h1 = (Inr b, h2)"
    and "inj_on sha256 {data, b}"
  shows "cid = for_bytes sha256 data \<and> b = data"
proof -
  from assms(1,2) have put: "cs_put (in_memory_store sha256 a) data h = (Inr cid, h1)"
    by (auto simp: put_on_def op_bind_eq_Inr split: if_splits)
  from assms(1,3) have get: "cs_get (in_memory_store sha256 a) cid h1 = (Inr b, h2)"
    by (auto simp: get_from_def op_bind_eq_Inr split: if_splits)
  from imc.put_get_exact [OF assms(4) put get] imc.put_ok [OF put] show ?thesis by simp
qed

definition demo_node :: storage_node where
  "demo_node = \<lparr>sn_device_id = DeviceId ''n.a'', sn_online = True, sn_free_space = 10, sn_total_space = 10,
     sn_power = Mains, sn_availability = Stable, sn_network = Lan\<rparr>"

definition demo_registry :: "content_heap content_registry" where
  "demo_registry = snd (registry_register demo_node (in_memory_store (\<lambda>bs. bs) 0) registry_new)"

definition demo_heap :: content_heap where
  "demo_heap = (\<lambda>_. in_memory_content_new 9)"

definition demo_put :: "content_id fs_result \<times> content_heap" where
  "demo_put = put_on demo_registry (DeviceId ''n.a'') [7] demo_heap"

lemma demo_registry_store:
  "registry_store demo_registry (DeviceId ''n.a'') = Inr (in_memory_store (\<lambda>bs. bs) 0)"
  by (simp add: registry_store_def demo_registry_def registry_register_def registry_new_def demo_node_def)

lemma demo_put_result: "fst demo_put = Inr (for_bytes (\<lambda>bs. bs) [7])"
  by code_simp

lemma demo_get_result:
  "fst (get_from demo_registry (DeviceId ''n.a'') (for_bytes (\<lambda>bs. bs) [7]) (snd demo_put)) = Inr [7]"
  by code_simp

theorem put_on_get_from_witness:
  "\<exists>cid h1 h2. put_on demo_registry (DeviceId ''n.a'') [7] demo_heap = (Inr cid, h1) \<and>
     get_from demo_registry (DeviceId ''n.a'') cid h1 = (Inr [7], h2) \<and> cid = for_bytes (\<lambda>bs. bs) [7]"
proof -
  have put: "put_on demo_registry (DeviceId ''n.a'') [7] demo_heap = (Inr (for_bytes (\<lambda>bs. bs) [7]), snd demo_put)"
    using demo_put_result unfolding demo_put_def by (intro prod_eqI) simp_all
  obtain h2 where get: "get_from demo_registry (DeviceId ''n.a'') (for_bytes (\<lambda>bs. bs) [7]) (snd demo_put) = (Inr [7], h2)"
    using demo_get_result by (metis prod.collapse)
  from put_on_get_from [OF demo_registry_store put get] put get show ?thesis by blast
qed

end
