(* ===== verification/Service.thy ===== *)
theory Service
  imports Namespace Placement Content
begin

section \<open>The filesystem service\<close>

text \<open>
  \<open>service.rs\<close>: the facade that clients call. A service value (\<open>filesystem_service\<close>) holds
  the metadata methods, the policy and the replica target; what its methods change is the
  \<open>world\<close>: the metadata store, the content stores, the registry and the event sink.
\<close>

record ('s, 'c) world =
  w_metadata :: 's
  w_contents :: 'c
  w_registry :: "'c content_registry"
  w_events :: event_sink

record 's filesystem_service =
  fs_metadata :: "'s metadata_ops"
  fs_policy :: placement_policy
  fs_desired_replica_count :: nat

definition with_components :: "'s metadata_ops \<Rightarrow> placement_policy \<Rightarrow> nat \<Rightarrow> 's filesystem_service" where
  "with_components metadata policy desired =
     \<lparr>fs_metadata = metadata, fs_policy = policy, fs_desired_replica_count = desired\<rparr>"

definition filesystem_service_new :: "'s metadata_ops \<Rightarrow> 's filesystem_service" where
  "filesystem_service_new metadata = with_components metadata default_desired_nodes 2"

subsection \<open>Running parts of the world\<close>

definition on_metadata :: "('s, 'e, 'a) op \<Rightarrow> (('s, 'c) world, 'e, 'a) op" where
  "on_metadata m w = (let (r, s) = m (w_metadata w) in (r, w\<lparr>w_metadata := s\<rparr>))"

definition on_contents :: "('c content_registry \<Rightarrow> ('c, 'e, 'a) op) \<Rightarrow> (('s, 'c) world, 'e, 'a) op" where
  "on_contents m w = (let (r, c) = m (w_registry w) (w_contents w) in (r, w\<lparr>w_contents := c\<rparr>))"

definition w_emit :: "filesystem_event \<Rightarrow> ('s, 'c) world \<Rightarrow> ('s, 'c) world" where
  "w_emit e w = w\<lparr>w_events := emit e (w_events w)\<rparr>"

text \<open>A namespace mutation, which may in principle not return.\<close>

definition on_namespace ::
    "('s \<Rightarrow> ('r fs_result \<times> 's) option) \<Rightarrow> ('s, 'c) world \<Rightarrow> ('r fs_result \<times> ('s, 'c) world) option" where
  "on_namespace m w = map_option (\<lambda>(r, s). (r, w\<lparr>w_metadata := s\<rparr>)) (m (w_metadata w))"

subsection \<open>Namespace methods\<close>

definition svc_mkdir ::
    "'s filesystem_service \<Rightarrow> clock \<Rightarrow> directory_id \<Rightarrow> string \<Rightarrow> ('s, 'c) world
     \<Rightarrow> (unit fs_result \<times> ('s, 'c) world) option" where
  "svc_mkdir svc clk new path w =
     map_option (\<lambda>(r, w1). (res_bind r (\<lambda>_. Inr ()), w1))
       (on_namespace (mkdir (fs_metadata svc) clk new path) w)"

definition svc_create ::
    "'s filesystem_service \<Rightarrow> clock \<Rightarrow> file_id \<Rightarrow> string \<Rightarrow> ('s, 'c) world
     \<Rightarrow> (file_metadata fs_result \<times> ('s, 'c) world) option" where
  "svc_create svc clk new path w =
     map_option (\<lambda>(r, w1). case r of
         Inl e \<Rightarrow> (Inl e, w1)
       | Inr f \<Rightarrow> op_bind (on_metadata (stat (fs_metadata svc) path)) (\<lambda>entry. case entry of
             FileEntry metadata \<Rightarrow> op_lift (Inr metadata)
           | DirEntry _ \<Rightarrow> op_lift (Inl IsDirectory)) (w_emit (FileCreated path f) w1))
       (on_namespace (create (fs_metadata svc) clk new path) w)"

definition svc_stat :: "'s filesystem_service \<Rightarrow> string \<Rightarrow> (('s, 'c) world, filesystem_error, entry_metadata) op" where
  "svc_stat svc path = on_metadata (stat (fs_metadata svc) path)"

definition svc_list :: "'s filesystem_service \<Rightarrow> string \<Rightarrow> (('s, 'c) world, filesystem_error, listed_entry list) op" where
  "svc_list svc path = on_metadata (list_directory (fs_metadata svc) path)"

definition svc_rename ::
    "'s filesystem_service \<Rightarrow> clock \<Rightarrow> string \<Rightarrow> string \<Rightarrow> ('s, 'c) world
     \<Rightarrow> (unit fs_result \<times> ('s, 'c) world) option" where
  "svc_rename svc clk from to w = on_namespace (rename (fs_metadata svc) clk from to) w"

definition svc_remove ::
    "'s filesystem_service \<Rightarrow> clock \<Rightarrow> string \<Rightarrow> ('s, 'c) world
     \<Rightarrow> (unit fs_result \<times> ('s, 'c) world) option" where
  "svc_remove svc clk path w = on_namespace (remove (fs_metadata svc) clk path) w"

subsection \<open>Writing\<close>

definition require_file :: "namespace_target \<Rightarrow> file_id fs_result" where
  "require_file target = (case target of FileTarget f \<Rightarrow> Inr f | DirTarget _ \<Rightarrow> Inl IsDirectory)"

definition node_is :: "device_id \<Rightarrow> replica \<Rightarrow> bool" where
  "node_is node_id r \<longleftrightarrow> rp_node_id r = node_id"

text \<open>Whether a healthy replica was newly recorded, and the replicas with it.\<close>

definition record_healthy :: "device_id \<Rightarrow> replica list \<Rightarrow> bool \<times> replica list" where
  "record_healthy node_id replicas = (case find (node_is node_id) replicas of
     Some r \<Rightarrow> (rp_state r \<noteq> Healthy,
       update_first (node_is node_id) (\<lambda>r. r\<lparr>rp_state := Healthy\<rparr>) replicas)
   | None \<Rightarrow> (True, replicas @ [\<lparr>rp_node_id = node_id, rp_state = Healthy\<rparr>]))"

definition entry_or_insert :: "content_id \<Rightarrow> nat \<Rightarrow> metadata_snapshot \<Rightarrow> content_placement" where
  "entry_or_insert cid desired s = (case map_of (ms_placements s) cid of
     Some p \<Rightarrow> p
   | None \<Rightarrow> \<lparr>cp_content_id = cid, cp_desired_replica_count = desired, cp_replicas = []\<rparr>)"

record write_outcome =
  wo_committed :: file_metadata
  wo_replica_created :: bool
  wo_durability :: durability_status

text \<open>
  The part of \<open>write\<close> between the load and the swap. The loop over the previous content is the
  one of \<open>remove\<close> (\<^const>\<open>mark_garbage\<close>).
\<close>

definition write_edit ::
    "nat \<Rightarrow> device_id \<Rightarrow> content_id \<Rightarrow> file_id \<Rightarrow> bytes \<Rightarrow> u64 option \<Rightarrow> u64 \<Rightarrow> metadata_snapshot
     \<Rightarrow> (write_outcome \<times> metadata_snapshot) fs_result" where
  "write_edit desired source cid file_id data expected now s =
     (let previous = (case map_of (ms_files s) file_id of None \<Rightarrow> [] | Some file \<Rightarrow> file_chunk_ids file)
      in res_bind (ok_or (map_of (ms_files s) file_id) (MetadataUnavailable ''namespace file has no metadata''))
        (\<lambda>file.
      if (case expected of None \<Rightarrow> False | Some g \<Rightarrow> g \<noteq> fm_generation file) then Inl Conflict
      else res_bind (ok_or (u64_try_from (length data)) NoSpace) (\<lambda>len.
        let committed = file\<lparr>fm_generation := fm_generation file + 1, fm_modified_at_millis := now,
              fm_size := len, fm_manifest := Some (manifest_single cid len)\<rparr>;
            placement = (entry_or_insert cid desired s)\<lparr>cp_desired_replica_count := desired\<rparr>;
            (created, replicas) = record_healthy source (cp_replicas placement);
            placement' = placement\<lparr>cp_replicas := replicas\<rparr>;
            s1 = s\<lparr>ms_files := bt_insert file_id committed (ms_files s),
                   ms_placements := bt_insert cid placement' (ms_placements s),
                   ms_retentions := bt_insert cid LiveReference (ms_retentions s)\<rparr>
        in Inr (\<lparr>wo_committed = committed, wo_replica_created = created,
                 wo_durability = durability placement'\<rparr>, fold mark_garbage previous s1))))"

definition write_events :: "file_id \<Rightarrow> content_id \<Rightarrow> device_id \<Rightarrow> write_outcome \<Rightarrow> filesystem_event list" where
  "write_events file_id cid source out =
     [FileVersionCommitted file_id (fm_generation (wo_committed out)) cid]
     @ (if wo_replica_created out then [ReplicaCreated cid source] else [])
     @ (if wo_durability out = DurDegraded then [DurabilityDegraded cid] else [])"

definition svc_write ::
    "'s filesystem_service \<Rightarrow> u64 \<Rightarrow> string \<Rightarrow> bytes \<Rightarrow> u64 option \<Rightarrow> device_id
     \<Rightarrow> (('s, 'c) world, filesystem_error, file_metadata) op" where
  "svc_write svc now path data expected source =
     op_bind (on_metadata (resolve (fs_metadata svc) path)) (\<lambda>target.
     op_bind (op_lift (require_file target)) (\<lambda>file_id.
     op_bind (on_contents (\<lambda>reg. put_on reg source data)) (\<lambda>cid.
     op_bind (on_metadata (md_load (fs_metadata svc))) (\<lambda>snapshot.
     op_bind (op_lift (write_edit (fs_desired_replica_count svc) source cid file_id data expected now snapshot))
       (\<lambda>(out, replacement).
     op_bind (on_metadata (md_cas (fs_metadata svc) replacement)) (\<lambda>_.
     op_bind (op_modify (fold w_emit (write_events file_id cid source out))) (\<lambda>_.
     op_lift (Inr (wo_committed out)))))))))"

subsection \<open>Reading\<close>

definition set_replica_state :: "content_id \<Rightarrow> device_id \<Rightarrow> replica_state \<Rightarrow> metadata_snapshot \<Rightarrow> metadata_snapshot" where
  "set_replica_state cid node_id state s = s\<lparr>ms_placements := bt_adjust cid
     (\<lambda>p. p\<lparr>cp_replicas := update_first (node_is node_id) (\<lambda>r. r\<lparr>rp_state := state\<rparr>) (cp_replicas p)\<rparr>)
     (ms_placements s)\<rparr>"

fun mark_replica_from ::
    "'s metadata_ops \<Rightarrow> nat \<Rightarrow> content_id \<Rightarrow> device_id \<Rightarrow> replica_state \<Rightarrow> 's \<Rightarrow> 's" where
  "mark_replica_from M 0 cid node_id state s = s"
| "mark_replica_from M (Suc n) cid node_id state s = (case md_load M s of
     (Inl _, s1) \<Rightarrow> s1
   | (Inr snapshot, s1) \<Rightarrow>
       (case Option.bind (map_of (ms_placements snapshot) cid) (\<lambda>p. find (node_is node_id) (cp_replicas p)) of
          None \<Rightarrow> s1
        | Some r \<Rightarrow>
            if rp_state r = state then s1
            else (case md_cas M (set_replica_state cid node_id state snapshot) s1 of
                (Inr _, s2) \<Rightarrow> s2
              | (Inl e, s2) \<Rightarrow>
                  if e = Conflict then mark_replica_from M n cid node_id state s2 else s2)))"

definition mark_replica ::
    "'s filesystem_service \<Rightarrow> content_id \<Rightarrow> device_id \<Rightarrow> replica_state \<Rightarrow> ('s, 'c) world \<Rightarrow> ('s, 'c) world" where
  "mark_replica svc cid node_id state w =
     w\<lparr>w_metadata := mark_replica_from (fs_metadata svc) 4 cid node_id state (w_metadata w)\<rparr>"

text \<open>The loop over the replicas of one chunk.\<close>

fun read_replicas ::
    "'s filesystem_service \<Rightarrow> hash_function \<Rightarrow> content_id \<Rightarrow> replica list \<Rightarrow> ('s, 'c) world
     \<Rightarrow> bytes option \<times> ('s, 'c) world" where
  "read_replicas svc sha256 cid [] w = (None, w)"
| "read_replicas svc sha256 cid (r # rs) w = (let node_id = rp_node_id r in
     case registry_node (w_registry w) node_id of
       Inl _ \<Rightarrow> read_replicas svc sha256 cid rs (mark_replica svc cid node_id Missing w)
     | Inr node \<Rightarrow>
         if \<not> sn_online node then
           read_replicas svc sha256 cid rs
             (w_emit (ReplicaUnavailable cid node_id) (mark_replica svc cid node_id Offline w))
         else (case on_contents (\<lambda>reg. get_from reg node_id cid) w of
             (Inl _, w1) \<Rightarrow> read_replicas svc sha256 cid rs (mark_replica svc cid node_id Missing w1)
           | (Inr bs, w1) \<Rightarrow>
               if \<not> matches sha256 cid bs then
                 read_replicas svc sha256 cid rs
                   (w_emit (ReplicaCorrupted cid node_id) (mark_replica svc cid node_id Corrupted w1))
               else (Some bs, mark_replica svc cid node_id Healthy w1)))"

fun read_chunks ::
    "'s filesystem_service \<Rightarrow> hash_function \<Rightarrow> metadata_snapshot \<Rightarrow> chunk_reference list \<Rightarrow> bytes
     \<Rightarrow> (('s, 'c) world, filesystem_error, bytes) op" where
  "read_chunks svc sha256 snapshot [] result w = (Inr result, w)"
| "read_chunks svc sha256 snapshot (chunk # rest) result w =
     (case map_of (ms_placements snapshot) (cr_content_id chunk) of
        None \<Rightarrow> (Inl ContentUnavailable, w)
      | Some placement \<Rightarrow>
          (case read_replicas svc sha256 (cr_content_id chunk) (cp_replicas placement) w of
             (None, w1) \<Rightarrow> (Inl ContentUnavailable, w1)
           | (Some bs, w1) \<Rightarrow> read_chunks svc sha256 snapshot rest (result @ bs) w1))"

definition read_internal ::
    "'s filesystem_service \<Rightarrow> hash_function \<Rightarrow> string \<Rightarrow> (('s, 'c) world, filesystem_error, bytes) op" where
  "read_internal svc sha256 path =
     op_bind (on_metadata (resolve (fs_metadata svc) path)) (\<lambda>target.
     op_bind (op_lift (require_file target)) (\<lambda>file_id.
     op_bind (on_metadata (md_load (fs_metadata svc))) (\<lambda>snapshot.
     op_bind (op_lift (ok_or (map_of (ms_files snapshot) file_id)
         (MetadataUnavailable ''namespace file has no metadata''))) (\<lambda>file.
       case fm_manifest file of
         None \<Rightarrow> op_lift (Inr [])
       | Some manifest \<Rightarrow> read_chunks svc sha256 snapshot (cm_chunks manifest) []))))"

definition svc_read ::
    "'s filesystem_service \<Rightarrow> hash_function \<Rightarrow> string \<Rightarrow> (('s, 'c) world, filesystem_error, bytes) op" where
  "svc_read svc sha256 path = read_internal svc sha256 path"

definition svc_read_from ::
    "'s filesystem_service \<Rightarrow> hash_function \<Rightarrow> string \<Rightarrow> device_id \<Rightarrow> (('s, 'c) world, filesystem_error, bytes) op" where
  "svc_read_from svc sha256 path requesting_node = read_internal svc sha256 path"

definition placement_for_path ::
    "'s filesystem_service \<Rightarrow> string \<Rightarrow> (('s, 'c) world, filesystem_error, content_placement option) op" where
  "placement_for_path svc path =
     op_bind (on_metadata (resolve (fs_metadata svc) path)) (\<lambda>target.
     op_bind (op_lift (require_file target)) (\<lambda>file_id.
     op_bind (on_metadata (md_load (fs_metadata svc))) (\<lambda>snapshot.
       op_lift (Inr (case Option.bind (Option.bind (map_of (ms_files snapshot) file_id) fm_manifest)
             manifest_content_id of
           None \<Rightarrow> None
         | Some cid \<Rightarrow> map_of (ms_placements snapshot) cid)))))"

end
