(* ===== verification/Namespace_Correct.thy ===== *)
theory Namespace_Correct
  imports Namespace
begin

section \<open>Correctness of the namespace\<close>

text \<open>
  The entry list as a tree, the well-formedness invariant, and the refinement of the path map.
\<close>

definition child :: "namespace_entry list \<Rightarrow> child_fun" where
  "child es d n = map_option ne_target (find (entry_at d n) es)"

text \<open>The abstraction: from component lists to targets.\<close>

definition paths :: "metadata_snapshot \<Rightarrow> path_map" where
  "paths s = tree_lookup (child (ms_entries s)) (DirTarget (ms_root s))"

abbreviation entry_key :: "namespace_entry \<Rightarrow> directory_id \<times> string" where
  "entry_key e \<equiv> (ne_parent e, ne_name e)"

definition target_known :: "metadata_snapshot \<Rightarrow> namespace_target \<Rightarrow> bool" where
  "target_known s t = (case t of
     FileTarget f \<Rightarrow> f \<in> dom (map_of (ms_files s)) | DirTarget d \<Rightarrow> d \<in> dom (map_of (ms_directories s)))"

definition maps_ok :: "metadata_snapshot \<Rightarrow> bool" where
  "maps_ok s \<longleftrightarrow> bt_ok (ms_directories s) \<and> bt_ok (ms_files s) \<and>
     bt_ok (ms_placements s) \<and> bt_ok (ms_retentions s) \<and>
     (\<forall>d m. map_of (ms_directories s) d = Some m \<longrightarrow> dm_id m = d) \<and>
     (\<forall>f m. map_of (ms_files s) f = Some m \<longrightarrow> fm_id m = f)"

definition entries_ok :: "namespace_entry list \<Rightarrow> directory_id \<Rightarrow> bool" where
  "entries_ok es root \<longleftrightarrow> distinct (map entry_key es) \<and> distinct (map ne_target es) \<and>
     (\<forall>e \<in> set es. valid_component (ne_name e) \<and> ne_target e \<noteq> DirTarget root)"

definition wf_namespace :: "metadata_snapshot \<Rightarrow> bool" where
  "wf_namespace s \<longleftrightarrow> maps_ok s \<and> entries_ok (ms_entries s) (ms_root s) \<and>
     target_known s (DirTarget (ms_root s)) \<and>
     (\<forall>e \<in> set (ms_entries s). target_known s (DirTarget (ne_parent e)) \<and> target_known s (ne_target e)) \<and>
     (\<forall>t. target_known s t \<longrightarrow> t \<in> ran (paths s))"

subsection \<open>The entry list as a child function\<close>

lemma entry_key_unique:
  assumes "distinct (map entry_key es)" "e \<in> set es" "e' \<in> set es"
    and "ne_parent e = ne_parent e'" "ne_name e = ne_name e'"
  shows "e = e'"
  using assms by (auto simp: distinct_map dest: inj_onD)

lemma entry_target_unique:
  assumes "distinct (map ne_target es)" "e \<in> set es" "e' \<in> set es" "ne_target e = ne_target e'"
  shows "e = e'"
  using assms by (auto simp: distinct_map dest: inj_onD)

lemma child_iff:
  assumes "distinct (map entry_key es)"
  shows "child es d n = Some t \<longleftrightarrow>
    (\<exists>e \<in> set es. ne_parent e = d \<and> ne_name e = n \<and> ne_target e = t)"
proof
  assume "child es d n = Some t"
  then show "\<exists>e \<in> set es. ne_parent e = d \<and> ne_name e = n \<and> ne_target e = t"
    by (auto simp: child_def entry_at_def dest!: find_SomeD)
next
  assume "\<exists>e \<in> set es. ne_parent e = d \<and> ne_name e = n \<and> ne_target e = t"
  then obtain e where e: "e \<in> set es" "entry_at d n e" "ne_target e = t" by (auto simp: entry_at_def)
  then obtain e' where e': "find (entry_at d n) es = Some e'"
    by (cases "find (entry_at d n) es") (auto dest: find_None_all)
  then have "e' \<in> set es" "entry_at d n e'" by (auto dest: find_SomeD)
  with e assms have "e' = e" by (auto simp: entry_at_def intro: entry_key_unique)
  with e e' show "child es d n = Some t" by (simp add: child_def)
qed

lemma child_None_iff: "child es d n = None \<longleftrightarrow> \<not> list_ex (entry_at d n) es"
  by (auto simp: child_def find_None_iff list_ex_iff)

lemma child_eqI:
  assumes "\<And>d n t. c d n = Some t \<longleftrightarrow> c' d n = Some t"
  shows "c = (c' :: child_fun)"
  using assms by (intro ext) (metis not_None_eq)

lemma child_append:
  assumes "\<not> list_ex (entry_at (ne_parent e) (ne_name e)) es"
  shows "child (es @ [e]) = set_child (ne_parent e) (ne_name e) (Some (ne_target e)) (child es)"
proof (intro ext)
  fix d n
  have *: "find P (es @ [e]) = (case find P es of None \<Rightarrow> if P e then Some e else None | Some x \<Rightarrow> Some x)" for P
    by (induction es) auto
  show "child (es @ [e]) d n = set_child (ne_parent e) (ne_name e) (Some (ne_target e)) (child es) d n"
  proof (cases "find (entry_at d n) es")
    case None
    then show ?thesis by (auto simp: child_def * set_child_def entry_at_def)
  next
    case (Some x)
    with assms have "\<not> (d = ne_parent e \<and> n = ne_name e)"
      by (auto simp: list_ex_iff dest: find_SomeD)
    with Some show ?thesis by (auto simp: child_def * set_child_def)
  qed
qed

lemma child_remove_at:
  assumes "distinct (map entry_key es)" "i < length es"
  shows "child (remove_at i es) = set_child (ne_parent (es ! i)) (ne_name (es ! i)) None (child es)"
proof (rule child_eqI)
  fix d n t
  from assms(1) have "distinct (map entry_key (remove_at i es))"
    by (simp add: map_remove_at distinct_remove_at)
  moreover have "set (remove_at i es) = set es - {es ! i}"
    using assms by (intro set_remove_at_distinct) (auto simp: distinct_map)
  moreover have "es ! i \<in> set es" using assms(2) by simp
  ultimately show "child (remove_at i es) d n = Some t \<longleftrightarrow>
      set_child (ne_parent (es ! i)) (ne_name (es ! i)) None (child es) d n = Some t"
    using entry_key_unique [OF assms(1)] assms(1) by (auto simp: child_iff set_child_def)
qed

lemma distinct_key_update:
  assumes "distinct (map entry_key es)" "i < length es" "\<not> list_ex (entry_at (ne_parent e) (ne_name e)) es"
  shows "distinct (map entry_key (es[i := e]))"
proof -
  from assms(3) have "entry_key e \<notin> set (map entry_key es)"
    by (auto simp: list_ex_iff entry_at_def)
  with assms(1) show ?thesis by (simp only: map_update) (blast intro: distinct_list_update)
qed

lemma child_update:
  assumes "distinct (map entry_key es)" "i < length es"
    and "\<not> list_ex (entry_at (ne_parent e) (ne_name e)) es"
  shows "child (es[i := e]) = set_child (ne_parent e) (ne_name e) (Some (ne_target e))
    (set_child (ne_parent (es ! i)) (ne_name (es ! i)) None (child es))"
proof (rule child_eqI)
  fix d n t
  have "set (es[i := e]) = insert e (set es - {es ! i})"
    using assms by (intro set_update_distinct) (auto simp: distinct_map)
  moreover have "es ! i \<in> set es" using assms(2) by simp
  ultimately show "child (es[i := e]) d n = Some t \<longleftrightarrow>
      set_child (ne_parent e) (ne_name e) (Some (ne_target e))
        (set_child (ne_parent (es ! i)) (ne_name (es ! i)) None (child es)) d n = Some t"
    using assms distinct_key_update [OF assms]
      entry_key_unique [OF assms(1)]
    by (auto simp: child_iff set_child_def list_ex_iff entry_at_def)
qed

lemma tree_ok_child: "entries_ok es root \<Longrightarrow> tree_ok (child es) root"
  unfolding tree_ok_def entries_ok_def
  using entry_target_unique by (auto simp: child_iff)

subsection \<open>Resolving is lookup\<close>

lemma resolve_from_iff:
  "resolve_from es d cs = Inr t \<longleftrightarrow> tree_lookup (child es) (DirTarget d) cs = Some t"
  by (induction es d cs rule: resolve_from.induct)
     (auto simp: child_def split: option.splits namespace_target.splits)

lemma resolve_from_Inl:
  "resolve_from es d cs = Inl e \<Longrightarrow>
     e = (if list_ex (\<lambda>p. is_file_target (tree_lookup (child es) (DirTarget d) p)) (prefixes cs)
          then NotDirectory else NotFound)"
proof (induction es d cs rule: resolve_from.induct)
  case (2 es d c cs)
  show ?case
  proof (cases "find (entry_at d c) es")
    case None
    with 2 show ?thesis by (auto simp: child_def is_file_target_def list_ex_iff)
  next
    case (Some x)
    with 2 show ?thesis
      by (cases "ne_target x") (auto simp: child_def is_file_target_def list_ex_iff split: if_splits)
  qed
qed simp

lemma resolve_components_eq: "resolve_components s cs = spec_resolve (paths s) cs"
proof (cases "resolve_components s cs")
  case (Inl e)
  then have "paths s cs = None"
    using resolve_from_iff [of "ms_entries s" "ms_root s" cs]
    by (cases "paths s cs") (auto simp: paths_def resolve_components_def)
  with resolve_from_Inl [of "ms_entries s" "ms_root s" cs e] Inl show ?thesis
    by (simp add: paths_def resolve_components_def spec_resolve_def)
next
  case (Inr t)
  then show ?thesis
    by (auto simp: paths_def resolve_components_def spec_resolve_def resolve_from_iff)
qed

lemma resolve_directory_eq: "resolve_directory s cs = spec_directory (paths s) cs"
  by (simp add: resolve_directory_def spec_directory_def resolve_components_eq)

lemma spec_directory_Inr [simp]: "spec_directory m cs = Inr d \<longleftrightarrow> m cs = Some (DirTarget d)"
  by (auto simp: spec_directory_def spec_resolve_def split: option.splits namespace_target.splits if_splits)


lemma spec_directory_Dir [simp]: "m cs = Some (DirTarget d) \<Longrightarrow> spec_directory m cs = Inr d"
  by simp

lemma paths_Nil [simp]: "paths s [] = Some (DirTarget (ms_root s))"
  by (simp add: paths_def)

lemma paths_snoc:
  "paths s (p @ [n]) = (case paths s p of Some (DirTarget d) \<Rightarrow> child (ms_entries s) d n | _ \<Rightarrow> None)"
  by (simp add: paths_def tree_lookup_snoc)

lemma paths_snoc_dir: "paths s p = Some (DirTarget d) \<Longrightarrow> paths s (p @ [n]) = child (ms_entries s) d n"
  by (simp add: paths_snoc)

lemma paths_append_None: "paths s p = None \<Longrightarrow> paths s (p @ q) = None"
  by (simp add: paths_def tree_lookup_append)

subsection \<open>Consequences of well-formedness\<close>

lemma wf_entries: "wf_namespace s \<Longrightarrow> entries_ok (ms_entries s) (ms_root s)"
  and wf_maps: "wf_namespace s \<Longrightarrow> maps_ok s"
  and wf_tree: "wf_namespace s \<Longrightarrow> tree_ok (child (ms_entries s)) (ms_root s)"
  by (simp_all add: wf_namespace_def tree_ok_child)

lemma wf_keys: "wf_namespace s \<Longrightarrow> distinct (map entry_key (ms_entries s))"
  and wf_targets: "wf_namespace s \<Longrightarrow> distinct (map ne_target (ms_entries s))"
  by (simp_all add: wf_namespace_def entries_ok_def)

lemma wf_paths_unique: "wf_namespace s \<Longrightarrow> paths s p = Some t \<Longrightarrow> paths s q = Some t \<Longrightarrow> p = q"
  unfolding paths_def by (rule tree_unique_path [OF wf_tree])

lemma wf_paths_known:
  assumes "wf_namespace s" "paths s p = Some t"
  shows "target_known s t"
proof (cases p rule: rev_exhaust)
  case Nil
  with assms show ?thesis by (auto simp: wf_namespace_def)
next
  case (snoc q n)
  with assms obtain d where "child (ms_entries s) d n = Some t"
    by (auto simp: paths_snoc split: option.splits namespace_target.splits)
  then obtain e where "e \<in> set (ms_entries s)" "ne_target e = t"
    using child_iff [OF wf_keys [OF assms(1)]] by blast
  with assms(1) show ?thesis by (auto simp: wf_namespace_def)
qed

lemma wf_ran_paths: "wf_namespace s \<Longrightarrow> ran (paths s) = {t. target_known s t}"
  by (rule set_eqI) (auto simp: wf_namespace_def ran_def intro: wf_paths_known)

lemma wf_no_child:
  assumes "wf_namespace s" "\<not> target_known s (DirTarget d)"
  shows "child (ms_entries s) d n = None"
  using assms by (auto simp: child_None_iff list_ex_iff entry_at_def wf_namespace_def)

lemma wf_default: "wf_namespace metadata_snapshot_default"
proof -
  have "target_known metadata_snapshot_default t \<longleftrightarrow> t = DirTarget directory_id_root" for t
    by (cases t) (auto simp: target_known_def metadata_snapshot_default_def)
  moreover have "DirTarget directory_id_root \<in> ran (paths metadata_snapshot_default)"
    by (rule ranI [of _ "[]"]) (simp add: metadata_snapshot_default_def)
  ultimately show ?thesis
    by (simp add: wf_namespace_def) (simp add: maps_ok_def entries_ok_def metadata_snapshot_default_def)
qed

subsection \<open>Touching a directory\<close>

lemma touch_directory_sel [simp, keeps_simps]:
  "ms_revision (touch_directory now d s) = ms_revision s"
  "ms_root (touch_directory now d s) = ms_root s"
  "ms_files (touch_directory now d s) = ms_files s"
  "ms_entries (touch_directory now d s) = ms_entries s"
  "ms_placements (touch_directory now d s) = ms_placements s"
  "ms_retentions (touch_directory now d s) = ms_retentions s"
  by (simp_all add: touch_directory_def)

lemma paths_touch [simp]: "paths (touch_directory now d s) = paths s"
  by (simp add: paths_def)

lemma target_known_touch [simp]: "target_known (touch_directory now d s) t = target_known s t"
  by (auto simp: target_known_def touch_directory_def split: namespace_target.splits if_splits)

lemma maps_ok_touch [simp]: "maps_ok s \<Longrightarrow> maps_ok (touch_directory now d s)"
  by (auto simp: maps_ok_def touch_directory_def split: if_splits)

lemma wf_touch: "wf_namespace s \<Longrightarrow> wf_namespace (touch_directory now d s)"
  by (simp add: wf_namespace_def)

lemma target_known_revision [simp]: "target_known (s\<lparr>ms_revision := v\<rparr>) t = target_known s t"
  by (simp add: target_known_def split: namespace_target.splits)

lemma paths_revision [simp]: "paths (s\<lparr>ms_revision := v\<rparr>) = paths s"
  by (simp add: paths_def)

lemma wf_revision [simp]: "wf_namespace (s\<lparr>ms_revision := v\<rparr>) = wf_namespace s"
  by (simp add: wf_namespace_def maps_ok_def)

subsection \<open>The ancestor walk\<close>

lemma parent_of_iff:
  assumes "wf_namespace s"
  shows "parent_of s d = Some p \<longleftrightarrow> (\<exists>n. child (ms_entries s) p n = Some (DirTarget d))"
proof
  assume "parent_of s d = Some p"
  then obtain e where "e \<in> set (ms_entries s)" "ne_target e = DirTarget d" "ne_parent e = p"
    by (auto simp: parent_of_def dest!: find_map_SomeD split: if_splits)
  then show "\<exists>n. child (ms_entries s) p n = Some (DirTarget d)"
    using child_iff [OF wf_keys [OF assms]] by blast
next
  assume "\<exists>n. child (ms_entries s) p n = Some (DirTarget d)"
  then obtain e where e: "e \<in> set (ms_entries s)" "ne_target e = DirTarget d" "ne_parent e = p"
    using child_iff [OF wf_keys [OF assms]] by blast
  then obtain p' where p': "parent_of s d = Some p'"
    by (cases "parent_of s d") (auto simp: parent_of_def)
  then obtain e' where "e' \<in> set (ms_entries s)" "ne_target e' = DirTarget d" "ne_parent e' = p'"
    by (auto simp: parent_of_def dest!: find_map_SomeD split: if_splits)
  with e p' show "parent_of s d = Some p"
    using entry_target_unique [OF wf_targets [OF assms], of e e'] by simp
qed

text \<open>
  On a well-formed snapshot the walk ends, and it finds the ancestor exactly when the
  candidate's path extends the ancestor's.
\<close>

lemma is_descendant_prefix:
  assumes "wf_namespace s" "paths s p = Some (DirTarget c)" "paths s q = Some (DirTarget a)"
  shows "is_descendant s c a = Some (prefix q p)"
  using assms(2)
proof (induction p arbitrary: c rule: rev_induct)
  case Nil
  then show ?case
    using assms(3) wf_paths_unique [OF assms(1), of q _ "[]"]
    by (subst is_descendant.simps) auto
next
  case (snoc n p)
  then obtain d where d: "paths s p = Some (DirTarget d)" "child (ms_entries s) d n = Some (DirTarget c)"
    by (auto simp: paths_snoc split: option.splits namespace_target.splits)
  then have par: "parent_of s c = Some d" using parent_of_iff [OF assms(1)] by blast
  have root: "c \<noteq> ms_root s"
    using wf_paths_unique [OF assms(1) snoc.prems, of "[]"] by auto
  show ?case
  proof (cases "c = a")
    case True
    then have "q = p @ [n]" using wf_paths_unique [OF assms(1) snoc.prems] assms(3) by simp
    with True show ?thesis by (subst is_descendant.simps) simp
  next
    case False
    with snoc.prems assms(3) have "q \<noteq> p @ [n]" by auto
    with False root par snoc.IH [OF d(1)] show ?thesis
      by (subst is_descendant.simps) simp
  qed
qed

end
