(* ===== verification/Namespace_Refine.thy ===== *)
theory Namespace_Refine
  imports Namespace_Correct
begin

section \<open>The namespace operations refine the path map\<close>

text \<open>
  Each edit of \<open>namespace.rs\<close>, run on a well-formed snapshot, gives the result the
  specification gives on the snapshot's path map, errors included, and keeps the snapshot well
  formed. The public methods inherit both under any interleaving with other clients.
\<close>

definition abs_result :: "('r \<times> metadata_snapshot) fs_result \<Rightarrow> path_map fs_result" where
  "abs_result r = (case r of Inl e \<Rightarrow> Inl e | Inr (_, s) \<Rightarrow> Inr (paths s))"

lemma abs_result_simps [simp]:
  "abs_result (Inl e) = Inl e"
  "abs_result (Inr (r, s)) = Inr (paths s)"
  by (simp_all add: abs_result_def)

subsection \<open>Adding an entry\<close>

lemma add_entry_paths:
  assumes wf: "wf_namespace s" and p: "paths s parents = Some (DirTarget p)"
    and absent: "child (ms_entries s) p n = None" and fresh: "\<not> target_known s t"
    and s': "ms_entries s' = ms_entries s @ [\<lparr>ne_parent = p, ne_name = n, ne_target = t\<rparr>]"
      "ms_root s' = ms_root s"
  shows "paths s' = spec_insert (parents @ [n]) t (paths s)"
proof -
  have child': "child (ms_entries s') = set_child p n (Some t) (child (ms_entries s))"
    using absent child_append [of "\<lparr>ne_parent = p, ne_name = n, ne_target = t\<rparr>" "ms_entries s"]
    by (simp add: s' child_None_iff)
  have "t \<noteq> DirTarget p" using wf_paths_known [OF wf p] fresh by auto
  then show ?thesis
    unfolding paths_def s'(2) child'
    using wf_tree [OF wf] p absent wf_no_child [OF wf] fresh
    by (intro tree_insert) (auto simp: paths_def)
qed

lemma add_entry_wf:
  assumes wf: "wf_namespace s" and p: "paths s parents = Some (DirTarget p)"
    and absent: "child (ms_entries s) p n = None" and fresh: "\<not> target_known s t"
    and s': "ms_entries s' = ms_entries s @ [\<lparr>ne_parent = p, ne_name = n, ne_target = t\<rparr>]"
      "ms_root s' = ms_root s"
    and "maps_ok s'" "valid_component n" and known: "\<And>u. target_known s' u \<longleftrightarrow> target_known s u \<or> u = t"
  shows "wf_namespace s'"
proof -
  have new: "t \<notin> ne_target ` set (ms_entries s)" "t \<noteq> DirTarget (ms_root s)"
    using wf fresh by (auto simp: wf_namespace_def)
  have "(p, n) \<notin> entry_key ` set (ms_entries s)"
    using absent by (auto simp: child_None_iff list_ex_iff entry_at_def)
  with new wf have entries: "entries_ok (ms_entries s') (ms_root s')"
    using assms(8) by (auto simp: wf_namespace_def entries_ok_def s')
  have "paths s (parents @ [n]) = None" using p absent by (simp add: paths_snoc_dir)
  then have "ran (paths s') = insert t (ran (paths s))"
    unfolding add_entry_paths [OF assms(1-6)] spec_insert_def by (simp add: ran_map_upd)
  then show ?thesis
    using wf entries assms(7) wf_paths_known [OF wf p]
    by (auto simp: wf_namespace_def known s')
qed

lemma target_known_insert_dir:
  "target_known (s\<lparr>ms_directories := bt_insert d m (ms_directories s), ms_entries := es\<rparr>) u \<longleftrightarrow>
     target_known s u \<or> u = DirTarget d"
  by (auto simp: target_known_def split: namespace_target.splits)

lemma target_known_insert_file:
  "target_known (s\<lparr>ms_files := bt_insert f m (ms_files s), ms_entries := es\<rparr>) u \<longleftrightarrow>
     target_known s u \<or> u = FileTarget f"
  by (auto simp: target_known_def split: namespace_target.splits)

lemma mkdir_edit_Inr:
  assumes "mkdir_edit new parents name now touched s = Inr (r, s')"
  obtains p where "r = new" "paths s parents = Some (DirTarget p)" "child (ms_entries s) p name = None"
    and "s' = touch_directory touched p (s\<lparr>ms_directories := bt_insert new
             \<lparr>dm_id = new, dm_generation = 1, dm_created_at_millis = now, dm_modified_at_millis = now\<rparr>
             (ms_directories s),
       ms_entries := ms_entries s @ [\<lparr>ne_parent = p, ne_name = name, ne_target = DirTarget new\<rparr>]\<rparr>)"
  using assms that
  by (auto simp: mkdir_edit_def resolve_directory_eq ensure_absent_def Let_def child_None_iff split: if_splits)

lemma create_edit_Inr:
  assumes "create_edit new parents name now touched s = Inr (r, s')"
  obtains p where "r = new" "paths s parents = Some (DirTarget p)" "child (ms_entries s) p name = None"
    and "s' = touch_directory touched p (s\<lparr>ms_files := bt_insert new
             \<lparr>fm_id = new, fm_size = 0, fm_generation = 1, fm_created_at_millis = now,
              fm_modified_at_millis = now, fm_manifest = None, fm_write_lease = None\<rparr>
             (ms_files s),
       ms_entries := ms_entries s @ [\<lparr>ne_parent = p, ne_name = name, ne_target = FileTarget new\<rparr>]\<rparr>)"
  using assms that
  by (auto simp: create_edit_def resolve_directory_eq ensure_absent_def Let_def child_None_iff split: if_splits)

lemma mkdir_edit_wf:
  assumes "wf_namespace s" "valid_component name" "new \<notin> dom (map_of (ms_directories s))"
    and "mkdir_edit new parents name now touched s = Inr (r, s')"
  shows "wf_namespace s'"
  using assms(4)
proof (rule mkdir_edit_Inr)
  fix p let ?s = "s\<lparr>ms_directories := bt_insert new
             \<lparr>dm_id = new, dm_generation = 1, dm_created_at_millis = now, dm_modified_at_millis = now\<rparr>
             (ms_directories s),
       ms_entries := ms_entries s @ [\<lparr>ne_parent = p, ne_name = name, ne_target = DirTarget new\<rparr>]\<rparr>"
  assume p: "paths s parents = Some (DirTarget p)" "child (ms_entries s) p name = None"
    and s': "s' = touch_directory touched p ?s"
  have "maps_ok ?s" using wf_maps [OF assms(1)] by (simp add: maps_ok_def)
  moreover have "\<not> target_known s (DirTarget new)" using assms(3) by (simp add: target_known_def)
  ultimately have "wf_namespace ?s"
    using assms(2) by (intro add_entry_wf [OF assms(1) p]) (simp_all add: target_known_insert_dir)
  then show ?thesis unfolding s' by (rule wf_touch)
qed

lemma create_edit_wf:
  assumes "wf_namespace s" "valid_component name" "new \<notin> dom (map_of (ms_files s))"
    and "create_edit new parents name now touched s = Inr (r, s')"
  shows "wf_namespace s'"
  using assms(4)
proof (rule create_edit_Inr)
  fix p let ?s = "s\<lparr>ms_files := bt_insert new
             \<lparr>fm_id = new, fm_size = 0, fm_generation = 1, fm_created_at_millis = now,
              fm_modified_at_millis = now, fm_manifest = None, fm_write_lease = None\<rparr>
             (ms_files s),
       ms_entries := ms_entries s @ [\<lparr>ne_parent = p, ne_name = name, ne_target = FileTarget new\<rparr>]\<rparr>"
  assume p: "paths s parents = Some (DirTarget p)" "child (ms_entries s) p name = None"
    and s': "s' = touch_directory touched p ?s"
  have "maps_ok ?s" using wf_maps [OF assms(1)] by (simp add: maps_ok_def)
  moreover have "\<not> target_known s (FileTarget new)" using assms(3) by (simp add: target_known_def)
  ultimately have "wf_namespace ?s"
    using assms(2) by (intro add_entry_wf [OF assms(1) p]) (simp_all add: target_known_insert_file)
  then show ?thesis unfolding s' by (rule wf_touch)
qed

lemma ensure_absent_spec:
  "paths s parents = Some (DirTarget p) \<Longrightarrow>
     ensure_absent s p name = (if paths s (parents @ [name]) \<noteq> None then Inl AlreadyExists else Inr ())"
  by (simp add: ensure_absent_def paths_snoc_dir child_None_iff)

lemma mkdir_edit_refines:
  assumes "wf_namespace s" "new \<notin> dom (map_of (ms_directories s))"
  shows "abs_result (mkdir_edit new parents name now touched s) =
    spec_add parents name (DirTarget new) (paths s)"
proof (cases "spec_directory (paths s) parents")
  case (Inl e)
  then show ?thesis by (simp add: mkdir_edit_def spec_add_def resolve_directory_eq)
next
  case (Inr p)
  then have p: "paths s parents = Some (DirTarget p)" by simp
  show ?thesis
  proof (cases "paths s (parents @ [name])")
    case (Some t)
    with Inr p show ?thesis
      by (simp add: mkdir_edit_def spec_add_def resolve_directory_eq ensure_absent_spec)
  next
    case None
    with p have absent: "child (ms_entries s) p name = None" by (simp add: paths_snoc_dir)
    from assms(2) have "\<not> target_known s (DirTarget new)" by (simp add: target_known_def)
    from add_entry_paths [OF assms(1) p absent this] None Inr p show ?thesis
      by (simp add: mkdir_edit_def spec_add_def resolve_directory_eq ensure_absent_spec Let_def)
  qed
qed

lemma create_edit_refines:
  assumes "wf_namespace s" "new \<notin> dom (map_of (ms_files s))"
  shows "abs_result (create_edit new parents name now touched s) =
    spec_add parents name (FileTarget new) (paths s)"
proof (cases "spec_directory (paths s) parents")
  case (Inl e)
  then show ?thesis by (simp add: create_edit_def spec_add_def resolve_directory_eq)
next
  case (Inr p)
  then have p: "paths s parents = Some (DirTarget p)" by simp
  show ?thesis
  proof (cases "paths s (parents @ [name])")
    case (Some t)
    with Inr p show ?thesis
      by (simp add: create_edit_def spec_add_def resolve_directory_eq ensure_absent_spec)
  next
    case None
    with p have absent: "child (ms_entries s) p name = None" by (simp add: paths_snoc_dir)
    from assms(2) have "\<not> target_known s (FileTarget new)" by (simp add: target_known_def)
    from add_entry_paths [OF assms(1) p absent this] None Inr p show ?thesis
      by (simp add: create_edit_def spec_add_def resolve_directory_eq ensure_absent_spec Let_def)
  qed
qed

subsection \<open>Removing an entry\<close>

lemma remove_entry_paths:
  assumes wf: "wf_namespace s" and p: "paths s parents = Some (DirTarget p)"
    and i: "i < length (ms_entries s)" "entry_at p n (ms_entries s ! i)"
    and s': "ms_entries s' = remove_at i (ms_entries s)" "ms_root s' = ms_root s"
  shows "paths s' = spec_remove (parents @ [n]) (paths s)"
proof -
  have "child (ms_entries s') = set_child p n None (child (ms_entries s))"
    using child_remove_at [OF wf_keys [OF wf] i(1)] i(2) by (simp add: s' entry_at_def)
  then show ?thesis
    unfolding paths_def s'(2) using wf_tree [OF wf] p by (simp add: tree_remove paths_def)
qed

text \<open>An entry at its place in the tree.\<close>

lemma wf_position:
  assumes "wf_namespace s" "paths s parents = Some (DirTarget p)"
    and "position (entry_at p n) (ms_entries s) = Some i"
  shows "i < length (ms_entries s)" "entry_at p n (ms_entries s ! i)"
    and "paths s (parents @ [n]) = Some (ne_target (ms_entries s ! i))"
  using assms position_SomeD [OF assms(3)] position_find [OF assms(3)]
  by (simp_all add: paths_snoc_dir child_def)

lemma spec_remove_ran:
  assumes inj: "\<And>p q t. m p = Some t \<Longrightarrow> m q = Some t \<Longrightarrow> p = q"
    and t: "m path = Some t" and leaf: "\<And>n r. m (path @ n # r) = None"
  shows "ran (spec_remove path m) = ran m - {t}"
proof (rule set_eqI)
  fix u
  have only: "m q = Some u \<Longrightarrow> prefix path q \<longleftrightarrow> u = t" for q
    using leaf inj [of q u path] t by (auto elim!: prefixE) (metis append_Nil2 neq_Nil_conv option.distinct(1) option.inject)
  have "u \<in> ran (spec_remove path m) \<longleftrightarrow> (\<exists>q. m q = Some u \<and> \<not> prefix path q)"
    by (auto simp: ran_def spec_remove_def)
  also have "\<dots> \<longleftrightarrow> (\<exists>q. m q = Some u) \<and> u \<noteq> t" using only by blast
  finally show "u \<in> ran (spec_remove path m) \<longleftrightarrow> u \<in> ran m - {t}" by (simp add: ran_def)
qed

lemma remove_entry_wf:
  assumes wf: "wf_namespace s" and p: "paths s parents = Some (DirTarget p)"
    and i: "i < length (ms_entries s)" "entry_at p n (ms_entries s ! i)"
    and s': "ms_entries s' = remove_at i (ms_entries s)" "ms_root s' = ms_root s"
    and "maps_ok s'"
    and leaf: "\<And>d e. ne_target (ms_entries s ! i) = DirTarget d \<Longrightarrow> e \<in> set (ms_entries s) \<Longrightarrow> ne_parent e \<noteq> d"
    and known: "\<And>u. target_known s' u \<longleftrightarrow> target_known s u \<and> u \<noteq> ne_target (ms_entries s ! i)"
  shows "wf_namespace s'"
proof -
  let ?e = "ms_entries s ! i"
  have e: "?e \<in> set (ms_entries s)" using i(1) by simp
  have at: "paths s (parents @ [n]) = Some (ne_target ?e)"
    using p i e child_iff [OF wf_keys [OF wf]] by (auto simp: paths_snoc_dir entry_at_def)
  have no_child: "child (ms_entries s) d m = None" if "ne_target ?e = DirTarget d" for d m
    using leaf [OF that] by (auto simp: child_None_iff list_ex_iff entry_at_def)
  have below: "paths s ((parents @ [n]) @ m # r) = None" for m r
  proof -
    have "paths s ((parents @ [n]) @ m # r) = tree_lookup (child (ms_entries s)) (ne_target ?e) (m # r)"
      using at unfolding paths_def by (subst tree_lookup_append) simp
    then show ?thesis using no_child by (cases "ne_target ?e") simp_all
  qed
  have ran': "ran (paths s') = ran (paths s) - {ne_target ?e}"
    unfolding remove_entry_paths [OF assms(1-6)]
    by (rule spec_remove_ran) (use wf_paths_unique [OF wf] at below in auto)
  have ents: "set (ms_entries s') = set (ms_entries s) - {?e}"
    unfolding s' using wf_keys [OF wf] i(1) by (intro set_remove_at_distinct) (auto simp: distinct_map)
  have "entries_ok (ms_entries s') (ms_root s')"
    using wf_entries [OF wf] ents by (simp add: entries_ok_def s' map_remove_at distinct_remove_at)
  moreover have "target_known s' (DirTarget (ne_parent x)) \<and> target_known s' (ne_target x)"
    if x: "x \<in> set (ms_entries s')" for x
  proof -
    from x ents have "x \<in> set (ms_entries s)" "x \<noteq> ?e" by auto
    then have "ne_target x \<noteq> ne_target ?e" "DirTarget (ne_parent x) \<noteq> ne_target ?e"
      "target_known s (DirTarget (ne_parent x))" "target_known s (ne_target x)"
      using entry_target_unique [OF wf_targets [OF wf] _ e] leaf [of "ne_parent x" x] wf
      by (auto simp: wf_namespace_def)
    then show ?thesis by (simp add: known)
  qed
  moreover have "target_known s' (DirTarget (ms_root s'))"
    using wf e by (auto simp: wf_namespace_def entries_ok_def known s'(2))
  moreover have "t \<in> ran (paths s')" if "target_known s' t" for t
    using that wf by (simp add: ran' known wf_namespace_def)
  ultimately show ?thesis using assms(7) by (simp add: wf_namespace_def)
qed

lemma mark_garbage_sel [simp, keeps_simps]:
  "ms_revision (mark_garbage c s) = ms_revision s"
  "ms_root (mark_garbage c s) = ms_root s"
  "ms_directories (mark_garbage c s) = ms_directories s"
  "ms_files (mark_garbage c s) = ms_files s"
  "ms_entries (mark_garbage c s) = ms_entries s"
  "ms_placements (mark_garbage c s) = ms_placements s"
  by (simp_all add: mark_garbage_def)

lemma mark_garbage_ok: "bt_ok (ms_retentions s) \<Longrightarrow> bt_ok (ms_retentions (mark_garbage c s))"
  by (simp add: mark_garbage_def)

lemma fold_mark_garbage_sel [simp, keeps_simps]:
  "ms_revision (fold (\<lambda>x. mark_garbage (g x)) cs s) = ms_revision s"
  "ms_root (fold (\<lambda>x. mark_garbage (g x)) cs s) = ms_root s"
  "ms_directories (fold (\<lambda>x. mark_garbage (g x)) cs s) = ms_directories s"
  "ms_files (fold (\<lambda>x. mark_garbage (g x)) cs s) = ms_files s"
  "ms_entries (fold (\<lambda>x. mark_garbage (g x)) cs s) = ms_entries s"
  "ms_placements (fold (\<lambda>x. mark_garbage (g x)) cs s) = ms_placements s"
  by (induction cs arbitrary: s) simp_all

lemma fold_mark_garbage_ok:
  "bt_ok (ms_retentions s) \<Longrightarrow> bt_ok (ms_retentions (fold (\<lambda>x. mark_garbage (g x)) cs s))"
  by (induction cs arbitrary: s) (simp_all add: mark_garbage_ok)

lemma remove_file_sel [simp, keeps_simps]:
  "ms_revision (remove_file f s) = ms_revision s"
  "ms_root (remove_file f s) = ms_root s"
  "ms_directories (remove_file f s) = ms_directories s"
  "ms_files (remove_file f s) = bt_remove f (ms_files s)"
  "ms_entries (remove_file f s) = ms_entries s"
  "ms_placements (remove_file f s) = ms_placements s"
  by (simp_all add: remove_file_def Let_def split: option.splits)

lemma maps_ok_remove_file: "maps_ok s \<Longrightarrow> maps_ok (remove_file f s)"
proof -
  have "bt_ok (ms_retentions s) \<Longrightarrow> bt_ok (ms_retentions (remove_file f s))"
    by (simp add: remove_file_def Let_def fold_mark_garbage_ok split: option.splits)
  then show "maps_ok s \<Longrightarrow> maps_ok (remove_file f s)" by (simp add: maps_ok_def)
qed

text \<open>What a removal that succeeds did.\<close>

definition drop_target :: "namespace_target \<Rightarrow> metadata_snapshot \<Rightarrow> metadata_snapshot" where
  "drop_target t s = (case t of FileTarget f \<Rightarrow> remove_file f s
     | DirTarget d \<Rightarrow> s\<lparr>ms_directories := bt_remove d (ms_directories s)\<rparr>)"

lemma drop_target_sel [simp]:
  "ms_revision (drop_target t s) = ms_revision s"
  "ms_root (drop_target t s) = ms_root s"
  "ms_entries (drop_target t s) = ms_entries s"
  "ms_placements (drop_target t s) = ms_placements s"
  by (simp_all add: drop_target_def split: namespace_target.splits)

lemma maps_ok_drop_target: "maps_ok s \<Longrightarrow> maps_ok (drop_target t s)"
  by (auto simp: drop_target_def maps_ok_remove_file split: namespace_target.splits)
     (auto simp: maps_ok_def split: if_splits)

lemma target_known_drop_target: "target_known (drop_target t s) u \<longleftrightarrow> target_known s u \<and> u \<noteq> t"
  by (auto simp: drop_target_def target_known_def split: namespace_target.splits)

lemma remove_edit_Inr:
  assumes "remove_edit parents name touched s = Inr (r, s')"
  obtains p i where "paths s parents = Some (DirTarget p)"
    "position (entry_at p name) (ms_entries s) = Some i"
    "\<And>d e. ne_target (ms_entries s ! i) = DirTarget d \<Longrightarrow> e \<in> set (ms_entries s) \<Longrightarrow> ne_parent e \<noteq> d"
    "s' = touch_directory touched p ((drop_target (ne_target (ms_entries s ! i)) s)
       \<lparr>ms_entries := remove_at i (ms_entries s)\<rparr>)"
proof -
  from assms obtain p i s1 where *: "paths s parents = Some (DirTarget p)"
      "position (entry_at p name) (ms_entries s) = Some i"
      "(case ne_target (ms_entries s ! i) of
         FileTarget f \<Rightarrow> Inr (remove_file f s)
       | DirTarget d \<Rightarrow>
           if list_ex (\<lambda>entry. ne_parent entry = d) (ms_entries s) then Inl DirectoryNotEmpty
           else Inr (s\<lparr>ms_directories := bt_remove d (ms_directories s)\<rparr>)) = Inr s1"
      "s' = touch_directory touched p (s1\<lparr>ms_entries := remove_at i (ms_entries s1)\<rparr>)"
    by (auto simp: remove_edit_def resolve_directory_eq)
  then have "s1 = drop_target (ne_target (ms_entries s ! i)) s"
    and "\<And>d e. ne_target (ms_entries s ! i) = DirTarget d \<Longrightarrow> e \<in> set (ms_entries s) \<Longrightarrow> ne_parent e \<noteq> d"
    by (auto simp: drop_target_def list_ex_iff split: namespace_target.splits if_splits)
  with * that show ?thesis by simp
qed

lemma remove_edit_wf:
  assumes "wf_namespace s" "remove_edit parents name touched s = Inr (r, s')"
  shows "wf_namespace s'"
  using assms(2)
proof (rule remove_edit_Inr)
  fix p i
  let ?s = "(drop_target (ne_target (ms_entries s ! i)) s)\<lparr>ms_entries := remove_at i (ms_entries s)\<rparr>"
  assume p: "paths s parents = Some (DirTarget p)"
    and pos: "position (entry_at p name) (ms_entries s) = Some i"
    and leaf: "\<And>d e. ne_target (ms_entries s ! i) = DirTarget d \<Longrightarrow> e \<in> set (ms_entries s) \<Longrightarrow> ne_parent e \<noteq> d"
    and s': "s' = touch_directory touched p ?s"
  note i = wf_position [OF assms(1) p pos]
  have "maps_ok ?s"
    using maps_ok_drop_target [OF wf_maps [OF assms(1)]] by (simp add: maps_ok_def)
  moreover have "target_known ?s u \<longleftrightarrow> target_known s u \<and> u \<noteq> ne_target (ms_entries s ! i)" for u
    using target_known_drop_target [of "ne_target (ms_entries s ! i)" s u]
    by (simp add: target_known_def split: namespace_target.splits)
  ultimately have "wf_namespace ?s"
    using leaf by (intro remove_entry_wf [OF assms(1) p i(1,2)]) simp_all
  then show ?thesis unfolding s' by (rule wf_touch)
qed

lemma remove_edit_refines:
  assumes "wf_namespace s"
  shows "abs_result (remove_edit parents name touched s) = spec_delete parents name (paths s)"
proof (cases "spec_directory (paths s) parents")
  case (Inl e)
  then show ?thesis by (simp add: remove_edit_def spec_delete_def resolve_directory_eq)
next
  case (Inr p)
  then have p: "paths s parents = Some (DirTarget p)" by simp
  show ?thesis
  proof (cases "position (entry_at p name) (ms_entries s)")
    case None
    then have "child (ms_entries s) p name = None" by (auto simp: child_None_iff list_ex_iff)
    with None Inr p show ?thesis
      by (simp add: remove_edit_def spec_delete_def resolve_directory_eq paths_snoc_dir
          del: position_eq_None)
  next
    case (Some i)
    let ?t = "ne_target (ms_entries s ! i)"
    note i = wf_position [OF assms p Some]
    have kids: "(\<exists>n. paths s (parents @ [name, n]) \<noteq> None) \<longleftrightarrow>
      (\<exists>d. ?t = DirTarget d \<and> list_ex (\<lambda>e. ne_parent e = d) (ms_entries s))"
      using paths_snoc [of s "parents @ [name]"] i(3)
      by (cases ?t) (simp_all add: child_None_iff list_ex_iff entry_at_def, blast)
    have "paths (touch_directory touched p ((drop_target ?t s)\<lparr>ms_entries := remove_at i (ms_entries s)\<rparr>)) =
        spec_remove (parents @ [name]) (paths s)"
      by (rule remove_entry_paths [OF assms p i(1,2)]) simp_all
    with kids Inr p Some i(3) show ?thesis
      by (cases ?t) (simp_all add: remove_edit_def spec_delete_def resolve_directory_eq drop_target_def)
  qed
qed

subsection \<open>Moving an entry\<close>

lemma move_entry_sel [simp, keeps_simps]:
  "ms_revision (move_entry i fp tp tn t1 t2 s) = ms_revision s"
  "ms_root (move_entry i fp tp tn t1 t2 s) = ms_root s"
  "ms_files (move_entry i fp tp tn t1 t2 s) = ms_files s"
  "ms_placements (move_entry i fp tp tn t1 t2 s) = ms_placements s"
  "ms_retentions (move_entry i fp tp tn t1 t2 s) = ms_retentions s"
  "ms_entries (move_entry i fp tp tn t1 t2 s) = (ms_entries s)[i :=
     (ms_entries s ! i)\<lparr>ne_parent := tp, ne_name := tn\<rparr>]"
  by (simp_all add: move_entry_def Let_def)

lemma target_known_entries [simp]: "target_known (s\<lparr>ms_entries := es\<rparr>) t = target_known s t"
  by (simp add: target_known_def split: namespace_target.splits)

lemma target_known_move [simp]: "target_known (move_entry i fp tp tn t1 t2 s) t = target_known s t"
  by (simp add: move_entry_def Let_def)

lemma maps_ok_move [simp]: "maps_ok s \<Longrightarrow> maps_ok (move_entry i fp tp tn t1 t2 s)"
proof -
  assume "maps_ok s"
  then have "maps_ok (s\<lparr>ms_entries := es\<rparr>)" for es by (simp add: maps_ok_def)
  then show ?thesis by (simp add: move_entry_def Let_def)
qed

lemma move_entry_paths:
  assumes wf: "wf_namespace s" and src: "paths s q = Some (DirTarget p)"
    "i < length (ms_entries s)" "entry_at p n (ms_entries s ! i)"
    and dst: "paths s q' = Some (DirTarget p')" "child (ms_entries s) p' n' = None"
    and outside: "\<not> prefix (q @ [n]) q'"
  shows "paths (move_entry i p p' n' t1 t2 s) = spec_rename (q @ [n]) (q' @ [n']) (paths s)"
proof -
  let ?e = "(ms_entries s ! i)\<lparr>ne_parent := p', ne_name := n'\<rparr>" and ?t = "ne_target (ms_entries s ! i)"
  have "child (ms_entries (move_entry i p p' n' t1 t2 s)) =
      set_child p' n' (Some ?t) (set_child p n None (child (ms_entries s)))"
    using child_update [OF wf_keys [OF wf] src(2), of ?e] src(3) dst(2)
    by (simp add: child_None_iff entry_at_def)
  moreover have "child (ms_entries s) p n = Some ?t"
    using src(2,3) child_iff [OF wf_keys [OF wf]] by (auto simp: entry_at_def)
  ultimately show ?thesis
    using tree_rename [OF wf_tree [OF wf]] src(1) dst outside by (simp add: paths_def)
qed

lemma spec_rename_ran:
  assumes "\<And>r. m (to @ r) = None"
  shows "ran m \<subseteq> ran (spec_rename from to m)"
proof
  fix t assume "t \<in> ran m"
  then obtain p where p: "m p = Some t" by (auto simp: ran_def)
  show "t \<in> ran (spec_rename from to m)"
  proof (cases "prefix from p")
    case True
    then obtain r where "p = from @ r" by (auto elim: prefixE)
    with p have "spec_rename from to m (to @ r) = Some t" by (simp add: spec_rename_def)
    then show ?thesis by (rule ranI)
  next
    case False
    from p assms have "\<not> prefix to p" by (auto elim!: prefixE)
    with False p have "spec_rename from to m p = Some t" by (simp add: spec_rename_def)
    then show ?thesis by (rule ranI)
  qed
qed

lemma move_entry_wf:
  assumes wf: "wf_namespace s" and src: "paths s q = Some (DirTarget p)"
    "i < length (ms_entries s)" "entry_at p n (ms_entries s ! i)"
    and dst: "paths s q' = Some (DirTarget p')" "child (ms_entries s) p' n' = None"
    and outside: "\<not> prefix (q @ [n]) q'" and name: "valid_component n'"
  shows "wf_namespace (move_entry i p p' n' t1 t2 s)"
proof -
  let ?s = "move_entry i p p' n' t1 t2 s" and ?e = "(ms_entries s ! i)\<lparr>ne_parent := p', ne_name := n'\<rparr>"
  have e: "ms_entries s ! i \<in> set (ms_entries s)" using src(2) by simp
  have sub: "set (ms_entries ?s) \<subseteq> insert ?e (set (ms_entries s))"
    by (simp add: set_update_subset_insert)
  have "map ne_target (ms_entries ?s) = map ne_target (ms_entries s)"
    by (simp add: map_update list_update_same_conv src(2))
  moreover have "distinct (map entry_key (ms_entries ?s))"
    using distinct_key_update [OF wf_keys [OF wf] src(2), of ?e] dst(2) by (simp add: child_None_iff)
  moreover have "valid_component (ne_name x) \<and> ne_target x \<noteq> DirTarget (ms_root s)"
    if "x \<in> set (ms_entries ?s)" for x
    using that sub e wf_entries [OF wf] name by (auto simp: entries_ok_def)
  ultimately have "entries_ok (ms_entries ?s) (ms_root ?s)"
    using wf_entries [OF wf] by (simp add: entries_ok_def)
  moreover have "target_known s (DirTarget (ne_parent x)) \<and> target_known s (ne_target x)"
    if "x \<in> set (ms_entries ?s)" for x
    using that sub e wf wf_paths_known [OF wf dst(1)] by (auto simp: wf_namespace_def)
  moreover have "paths s ((q' @ [n']) @ r) = None" for r
    by (rule paths_append_None) (simp add: paths_snoc_dir dst)
  then have "ran (paths s) \<subseteq> ran (paths ?s)"
    unfolding move_entry_paths [OF assms(1-7)] by (intro spec_rename_ran) simp
  ultimately show ?thesis using wf by (auto simp: wf_namespace_def)
qed

text \<open>The check of \<open>rename\<close> against moving a directory into itself.\<close>

lemma rename_guard:
  assumes "wf_namespace s" "paths s (q @ [n]) = Some t" "paths s q' = Some (DirTarget p')"
  shows "(case t of FileTarget _ \<Rightarrow> Some False | DirTarget d \<Rightarrow> is_descendant s p' d) =
    Some (prefix (q @ [n]) q')"
proof (cases t)
  case (FileTarget f)
  have "paths s ((q @ [n]) @ r) \<noteq> Some (DirTarget p')" for r
  proof -
    have "paths s ((q @ [n]) @ r) = tree_lookup (child (ms_entries s)) (FileTarget f) r"
      using assms(2) FileTarget unfolding paths_def by (subst tree_lookup_append) simp
    then show ?thesis by simp
  qed
  with assms(3) have "\<not> prefix (q @ [n]) q'" by (auto elim!: prefixE)
  with FileTarget show ?thesis by simp
next
  case (DirTarget d)
  with is_descendant_prefix [OF assms(1,3)] assms(2) show ?thesis by simp
qed

lemma rename_edit_eq:
  assumes "paths s fp = Some (DirTarget p)" "paths s tp = Some (DirTarget p')"
    "child (ms_entries s) p' tn = None" "position (entry_at p fn) (ms_entries s) = Some i"
  shows "rename_edit fp fn tp tn t1 t2 s =
    map_option (\<lambda>inside. if inside then Inl InvalidPath else Inr ((), move_entry i p p' tn t1 t2 s))
      (case ne_target (ms_entries s ! i) of FileTarget _ \<Rightarrow> Some False | DirTarget d \<Rightarrow> is_descendant s p' d)"
  using assms by (auto simp: rename_edit_def resolve_directory_eq ensure_absent_def child_None_iff
      split: namespace_target.splits option.splits)

lemma rename_edit_cases:
  assumes wf: "wf_namespace s"
  obtains (error) e where "rename_edit fp fn tp tn t1 t2 s = Some (Inl e)"
      "spec_move fp fn tp tn (paths s) = Inl e"
    | (moved) p i p' where "paths s fp = Some (DirTarget p)" "paths s tp = Some (DirTarget p')"
      "i < length (ms_entries s)" "entry_at p fn (ms_entries s ! i)"
      "child (ms_entries s) p' tn = None" "\<not> prefix (fp @ [fn]) tp"
      "rename_edit fp fn tp tn t1 t2 s = Some (Inr ((), move_entry i p p' tn t1 t2 s))"
      "paths s (fp @ [fn]) \<noteq> None"
proof (cases "\<exists>p p' i. paths s fp = Some (DirTarget p) \<and> paths s tp = Some (DirTarget p') \<and>
    child (ms_entries s) p' tn = None \<and> position (entry_at p fn) (ms_entries s) = Some i")
  case True
  then obtain p p' i where *: "paths s fp = Some (DirTarget p)" "paths s tp = Some (DirTarget p')"
      "child (ms_entries s) p' tn = None" "position (entry_at p fn) (ms_entries s) = Some i" by blast
  note i = wf_position [OF wf *(1,4)]
  have eq: "rename_edit fp fn tp tn t1 t2 s = Some (if prefix (fp @ [fn]) tp then Inl InvalidPath
      else Inr ((), move_entry i p p' tn t1 t2 s))"
    unfolding rename_edit_eq [OF *] rename_guard [OF wf i(3) *(2)] by simp
  show ?thesis
  proof (cases "prefix (fp @ [fn]) tp")
    case True
    with eq * i(3) show ?thesis by (intro error [of InvalidPath]) (auto simp: spec_move_def paths_snoc_dir)
  next
    case False
    with eq * i show ?thesis by (intro moved [of p p' i]) auto
  qed
next
  case False
  have "\<exists>e. rename_edit fp fn tp tn t1 t2 s = Some (Inl e) \<and> spec_move fp fn tp tn (paths s) = Inl e"
  proof (cases "spec_directory (paths s) fp")
    case (Inr p)
    note p = this
    show ?thesis
    proof (cases "spec_directory (paths s) tp")
      case (Inr p')
      with p False have "child (ms_entries s) p' tn \<noteq> None \<or> position (entry_at p fn) (ms_entries s) = None"
        by auto
      moreover have "child (ms_entries s) p fn = None \<longleftrightarrow> position (entry_at p fn) (ms_entries s) = None"
        by (auto simp: child_None_iff list_ex_iff)
      ultimately show ?thesis
        using p Inr by (auto simp: rename_edit_def spec_move_def resolve_directory_eq ensure_absent_spec
            paths_snoc_dir simp del: position_eq_None)
    qed (use p in \<open>simp add: rename_edit_def spec_move_def resolve_directory_eq\<close>)
  qed (simp add: rename_edit_def spec_move_def resolve_directory_eq)
  with error show ?thesis by blast
qed

lemma rename_edit_wf:
  assumes "wf_namespace s" "valid_component to_name"
    "rename_edit from_parents from_name to_parents to_name t1 t2 s = Some (Inr (r, s'))"
  shows "wf_namespace s'"
  by (rule rename_edit_cases [OF assms(1), of from_parents from_name to_parents to_name t1 t2])
     (use assms in \<open>auto intro: move_entry_wf\<close>)

lemma rename_edit_refines:
  assumes "wf_namespace s"
  shows "map_option abs_result (rename_edit from_parents from_name to_parents to_name t1 t2 s) =
    Some (spec_move from_parents from_name to_parents to_name (paths s))"
  by (rule rename_edit_cases [OF assms, of from_parents from_name to_parents to_name t1 t2])
     (auto simp: spec_move_def paths_snoc_dir move_entry_paths [OF assms])

end
