(* ===== verification/Namespace_Props.thy ===== *)
theory Namespace_Props
  imports Namespace_Refine
begin

section \<open>Properties of the namespace\<close>

text \<open>
  The namespace methods over the shared store: what a call that returns did, on which snapshot,
  whatever other clients committed in between.
\<close>

subsection \<open>One committed edit\<close>

lemma mkdir_edit_revision: "mkdir_edit new ps n now touched s = Inr (r, s') \<Longrightarrow> ms_revision s' = ms_revision s"
  by (auto elim!: mkdir_edit_Inr)

lemma create_edit_revision: "create_edit new ps n now touched s = Inr (r, s') \<Longrightarrow> ms_revision s' = ms_revision s"
  by (auto elim!: create_edit_Inr)

lemma remove_edit_revision: "remove_edit ps n touched s = Inr (r, s') \<Longrightarrow> ms_revision s' = ms_revision s"
  by (auto elim!: remove_edit_Inr)

lemma rename_edit_revision:
  "rename_edit fp fn tp tn t1 t2 s = Some (Inr (r, s')) \<Longrightarrow> ms_revision s' = ms_revision s"
  by (auto simp: rename_edit_def Let_def split: sum.splits option.splits namespace_target.splits if_splits)

lemma rename_edit_files: "rename_edit fp fn tp tn t1 t2 s = Some (Inr (r, s')) \<Longrightarrow> ms_files s' = ms_files s"
  by (auto simp: rename_edit_def Let_def split: sum.splits option.splits namespace_target.splits if_splits)

lemma create_edit_files:
  assumes "create_edit new ps n now touched s = Inr (r, s')"
  obtains m where "ms_files s' = bt_insert new m (ms_files s)"
    "fm_id m = new" "fm_size m = 0" "fm_manifest m = None" "fm_generation m = 1" "fm_write_lease m = None"
  using assms by (auto elim!: create_edit_Inr)

lemmas edit_revision = mkdir_edit_revision create_edit_revision remove_edit_revision rename_edit_revision

lemma mutation_commits:
  assumes "shared_ok s" "P (shared_view s)" "others_keep P s"
    and "retry_mutation shared_ops operation s = Some (Inr r, t)"
    and "\<And>j x q y. operation j x = Some (Inr (q, y)) \<Longrightarrow> ms_revision y = ms_revision x"
  obtains j u y where "others_step s u" "P (shared_view u)"
    "operation j (shared_view u) = Some (Inr (r, y))" "t = shared_swap y u"
  using shm.retry_from_commit [OF assms(1), of 0 8 operation r t] assms(4,5)
    others_step_keep(1) [OF assms(3,2)] that
  by (auto simp: retry_mutation_def)

lemma parse_split_Inr:
  "res_bind (fs_path_parse path) split_parent = Inr (parents, name) \<Longrightarrow>
     path = render_path (parents @ [name]) \<and> valid_component name"
  using fs_path_parse_components [of path "parents @ [name]"] by auto

definition dir_fresh :: "directory_id \<Rightarrow> metadata_snapshot \<Rightarrow> bool" where
  "dir_fresh new x \<longleftrightarrow> wf_namespace x \<and> new \<notin> dom (map_of (ms_directories x))"

definition file_fresh :: "file_id \<Rightarrow> metadata_snapshot \<Rightarrow> bool" where
  "file_fresh new x \<longleftrightarrow> wf_namespace x \<and> new \<notin> dom (map_of (ms_files x))"

subsection \<open>A concrete store with a competing client\<close>

text \<open>A tree with the directory \<open>/a\<close> and the file \<open>/a/f\<close>.\<close>

definition demo_mkdir :: metadata_snapshot where
  "demo_mkdir = snd (projr (mkdir_edit (DirectoryId 1) [] ''a'' 5 6 metadata_snapshot_default))"

definition demo_tree :: metadata_snapshot where
  "demo_tree = snd (projr (create_edit (FileId 2) [''a''] ''f'' 7 8 demo_mkdir))"

text \<open>Another client swaps in a snapshot between the first load and the first swap.\<close>

definition demo_racing :: shared_metadata where
  "demo_racing = \<lparr>shm_store = \<lparr>imm_state = demo_tree, imm_poisoned = False\<rparr>,
     shm_others = [[], [\<lambda>x. x]]\<rparr>"

lemma demo_mkdir_run:
  "mkdir_edit (DirectoryId 1) [] ''a'' 5 6 metadata_snapshot_default = Inr (DirectoryId 1, demo_mkdir)"
  by code_simp

lemma demo_tree_run: "create_edit (FileId 2) [''a''] ''f'' 7 8 demo_mkdir = Inr (FileId 2, demo_tree)"
  by code_simp

lemma demo_names: "valid_component ''a''" "valid_component ''f''"
  by code_simp+

lemma wf_demo_mkdir: "wf_namespace demo_mkdir"
  by (rule mkdir_edit_wf [OF wf_default demo_names(1) _ demo_mkdir_run])
     (simp add: metadata_snapshot_default_def directory_id_root_def)

lemma wf_demo_tree: "wf_namespace demo_tree"
proof (rule create_edit_wf [OF wf_demo_mkdir demo_names(2) _ demo_tree_run])
  have "map_of (ms_files demo_mkdir) (FileId 2) = None" by code_simp
  then show "FileId 2 \<notin> dom (map_of (ms_files demo_mkdir))" by auto
qed

lemma demo_fresh: "dir_fresh (DirectoryId 3) demo_tree" "file_fresh (FileId 3) demo_tree"
proof -
  have "map_of (ms_directories demo_tree) (DirectoryId 3) = None"
    "map_of (ms_files demo_tree) (FileId 3) = None" by code_simp+
  with wf_demo_tree show "dir_fresh (DirectoryId 3) demo_tree" "file_fresh (FileId 3) demo_tree"
    by (auto simp: dir_fresh_def file_fresh_def)
qed

lemma demo_racing_simps [simp]:
  "shared_ok demo_racing"
  "shared_view demo_racing = demo_tree"
  "others_keep wf_namespace demo_racing"
  "others_keep (dir_fresh d) demo_racing"
  "others_keep (file_fresh f) demo_racing"
  by (simp_all add: demo_racing_def shared_ok_def shared_pending_def shared_view_def others_keep_def
      dir_fresh_def file_fresh_def)

subsection \<open>The mutations\<close>

text \<open>
  C21: a \<open>mkdir\<close> that returns took effect once and atomically: the state afterwards is the one before,
  after every update the other clients committed meanwhile, with one swap on top that adds exactly the
  path it was given, as the fresh directory, to the paths the store held at the swap. The namespace
  stays well formed. The identifier is assumed new, and the other clients to keep well-formedness.
\<close>

theorem mkdir_atomic:
  assumes "shared_ok s" "dir_fresh new (shared_view s)" "others_keep (dir_fresh new) s"
    and "mkdir shared_ops clk new path s = Some (Inr r, t)"
  shows "r = new \<and> wf_namespace (shared_view t) \<and>
    (\<exists>parents name u y. path = render_path (parents @ [name]) \<and> others_step s u \<and> t = shared_swap y u \<and>
      spec_add parents name (DirTarget new) (paths (shared_view u)) = Inr (paths (shared_view t)))"
proof -
  from assms(4) obtain ps n where ps: "res_bind (fs_path_parse path) split_parent = Inr (ps, n)"
    and run: "retry_mutation shared_ops (\<lambda>k s. Some (mkdir_edit new ps n (clk k 0) (clk k 1) s)) s = Some (Inr r, t)"
    by (auto simp: mkdir_def split: sum.splits)
  note path = parse_split_Inr [OF ps]
  obtain j u y where u: "others_step s u"
      "dir_fresh new (shared_view u)" "mkdir_edit new ps n (clk j 0) (clk j 1) (shared_view u) = Inr (r, y)"
      "t = shared_swap y u"
    by (rule mutation_commits [OF assms(1-3) run]) (auto dest: edit_revision)
  have "r = new" using u(3) by (auto elim: mkdir_edit_Inr)
  moreover have "wf_namespace y" using mkdir_edit_wf [OF _ _ _ u(3)] u(2) path by (simp add: dir_fresh_def)
  moreover have "spec_add ps n (DirTarget new) (paths (shared_view u)) = Inr (paths y)"
    using mkdir_edit_refines [of "shared_view u" new ps n "clk j 0" "clk j 1"] u(2,3)
    by (simp add: dir_fresh_def)
  ultimately show ?thesis using u path by auto
qed

theorem mkdir_atomic_witness:
  "\<exists>t. mkdir shared_ops (\<lambda>_ _. 9) (DirectoryId 3) ''/b'' demo_racing = Some (Inr (DirectoryId 3), t) \<and>
     wf_namespace (shared_view t) \<and>
     (\<exists>parents name u y. ''/b'' = render_path (parents @ [name]) \<and> others_step demo_racing u \<and> t = shared_swap y u \<and>
       spec_add parents name (DirTarget (DirectoryId 3)) (paths (shared_view u)) =
         Inr (paths (shared_view t)))"
proof -
  have "returns (mkdir shared_ops (\<lambda>_ _. 9) (DirectoryId 3) ''/b'' demo_racing) (Inr (DirectoryId 3))"
    by code_simp
  then obtain t where "mkdir shared_ops (\<lambda>_ _. 9) (DirectoryId 3) ''/b'' demo_racing = Some (Inr (DirectoryId 3), t)"
    by (rule returnsE)
  with mkdir_atomic [OF _ _ _ this] demo_fresh show ?thesis by simp
qed

text \<open>
  C22: a \<open>create\<close> that returns took effect once and atomically: the state afterwards is the one before,
  after every update the other clients committed meanwhile, with one swap on top that adds exactly the
  path it was given, and the metadata of an empty file of generation 1 without a manifest under the
  fresh identifier, to what the store held at the swap; every other file is as it was.
\<close>

theorem create_atomic:
  assumes "shared_ok s" "file_fresh new (shared_view s)" "others_keep (file_fresh new) s"
    and "create shared_ops clk new path s = Some (Inr r, t)"
  shows "r = new \<and> wf_namespace (shared_view t) \<and>
    (\<exists>parents name u y. path = render_path (parents @ [name]) \<and> others_step s u \<and> t = shared_swap y u \<and>
      spec_add parents name (FileTarget new) (paths (shared_view u)) = Inr (paths (shared_view t)) \<and>
      (\<exists>m. map_of (ms_files (shared_view t)) = (map_of (ms_files (shared_view u)))(new \<mapsto> m) \<and>
        fm_size m = 0 \<and> fm_manifest m = None \<and> fm_generation m = 1))"
proof -
  from assms(4) obtain ps n where ps: "res_bind (fs_path_parse path) split_parent = Inr (ps, n)"
    and run: "retry_mutation shared_ops (\<lambda>k s. Some (create_edit new ps n (clk k 0) (clk k 1) s)) s = Some (Inr r, t)"
    by (auto simp: create_def split: sum.splits)
  note path = parse_split_Inr [OF ps]
  obtain j u y where u: "others_step s u"
      "file_fresh new (shared_view u)" "create_edit new ps n (clk j 0) (clk j 1) (shared_view u) = Inr (r, y)"
      "t = shared_swap y u"
    by (rule mutation_commits [OF assms(1-3) run]) (auto dest: edit_revision)
  have "r = new" using u(3) by (auto elim: create_edit_Inr)
  moreover have "wf_namespace y" using create_edit_wf [OF _ _ _ u(3)] u(2) path by (simp add: file_fresh_def)
  moreover have "spec_add ps n (FileTarget new) (paths (shared_view u)) = Inr (paths y)"
    using create_edit_refines [of "shared_view u" new ps n "clk j 0" "clk j 1"] u(2,3)
    by (simp add: file_fresh_def)
  moreover obtain m where "ms_files y = bt_insert new m (ms_files (shared_view u))"
      "fm_size m = 0" "fm_manifest m = None" "fm_generation m = 1"
    using u(3) by (rule create_edit_files)
  ultimately show ?thesis using u path by auto
qed

theorem create_atomic_witness:
  "\<exists>t. create shared_ops (\<lambda>_ _. 9) (FileId 3) ''/a/g'' demo_racing = Some (Inr (FileId 3), t) \<and>
     wf_namespace (shared_view t) \<and>
     (\<exists>parents name u y. ''/a/g'' = render_path (parents @ [name]) \<and> others_step demo_racing u \<and> t = shared_swap y u \<and>
       spec_add parents name (FileTarget (FileId 3)) (paths (shared_view u)) = Inr (paths (shared_view t)) \<and>
       (\<exists>m. map_of (ms_files (shared_view t)) = (map_of (ms_files (shared_view u)))(FileId 3 \<mapsto> m) \<and>
         fm_size m = 0 \<and> fm_manifest m = None \<and> fm_generation m = 1))"
proof -
  have "returns (create shared_ops (\<lambda>_ _. 9) (FileId 3) ''/a/g'' demo_racing) (Inr (FileId 3))"
    by code_simp
  then obtain t where "create shared_ops (\<lambda>_ _. 9) (FileId 3) ''/a/g'' demo_racing = Some (Inr (FileId 3), t)"
    by (rule returnsE)
  with create_atomic [OF _ _ _ this] demo_fresh show ?thesis by simp
qed

text \<open>
  C20: a \<open>remove\<close> that returns took effect once and atomically: the state afterwards is the one before,
  after every update the other clients committed meanwhile, with one swap on top that deletes exactly the
  path it was given, which was a file or an empty directory, from the paths the store held at the swap.
\<close>

theorem remove_atomic:
  assumes "shared_ok s" "wf_namespace (shared_view s)" "others_keep wf_namespace s"
    and "remove shared_ops clk path s = Some (Inr r, t)"
  shows "wf_namespace (shared_view t) \<and>
    (\<exists>parents name u y. path = render_path (parents @ [name]) \<and> others_step s u \<and> t = shared_swap y u \<and>
      spec_delete parents name (paths (shared_view u)) = Inr (paths (shared_view t)))"
proof -
  from assms(4) obtain ps n where ps: "res_bind (fs_path_parse path) split_parent = Inr (ps, n)"
    and run: "retry_mutation shared_ops (\<lambda>k s. Some (remove_edit ps n (clk k 0) s)) s = Some (Inr r, t)"
    by (auto simp: remove_def split: sum.splits)
  obtain j u y where u: "others_step s u"
      "wf_namespace (shared_view u)" "remove_edit ps n (clk j 0) (shared_view u) = Inr (r, y)"
      "t = shared_swap y u"
    by (rule mutation_commits [OF assms(1-3) run]) (auto dest: edit_revision)
  with remove_edit_wf [OF u(2,3)] remove_edit_refines [OF u(2), of ps n "clk j 0"] parse_split_Inr [OF ps]
  show ?thesis by auto
qed

theorem remove_atomic_witness:
  "\<exists>t. remove shared_ops (\<lambda>_ _. 9) ''/a/f'' demo_racing = Some (Inr (), t) \<and>
     wf_namespace (shared_view t) \<and>
     (\<exists>parents name u y. ''/a/f'' = render_path (parents @ [name]) \<and> others_step demo_racing u \<and> t = shared_swap y u \<and>
       spec_delete parents name (paths (shared_view u)) = Inr (paths (shared_view t)))"
proof -
  have "returns (remove shared_ops (\<lambda>_ _. 9) ''/a/f'' demo_racing) (Inr ())" by code_simp
  then obtain t where "remove shared_ops (\<lambda>_ _. 9) ''/a/f'' demo_racing = Some (Inr (), t)"
    by (rule returnsE)
  with remove_atomic [OF _ _ _ this] wf_demo_tree show ?thesis by simp
qed

text \<open>
  C3: a \<open>rename\<close> that returns took effect once and atomically: the state afterwards is the one before,
  after every update the other clients committed meanwhile, with one swap on top that moves the target
  and everything below it from the first path to the second and changes no other path and no file, of
  those the store held at the swap. The namespace stays a tree.
\<close>

theorem rename_atomic:
  assumes "shared_ok s" "wf_namespace (shared_view s)" "others_keep wf_namespace s"
    and "rename shared_ops clk from to s = Some (Inr r, t)"
  shows "wf_namespace (shared_view t) \<and>
    (\<exists>fp fn tp tn u y. from = render_path (fp @ [fn]) \<and> to = render_path (tp @ [tn]) \<and>
      others_step s u \<and> t = shared_swap y u \<and> ms_files (shared_view t) = ms_files (shared_view u) \<and>
      spec_move fp fn tp tn (paths (shared_view u)) = Inr (paths (shared_view t)))"
proof -
  from assms(4) obtain fp fn tp tn where ps: "fs_path_parse from = Inr (fp @ [fn])" "fs_path_parse to = Inr (tp @ [tn])"
    and run: "retry_mutation shared_ops (\<lambda>k. rename_edit fp fn tp tn (clk k 0) (clk k 1)) s = Some (Inr r, t)"
    by (auto simp: rename_def split: sum.splits)
  obtain j u y where u: "others_step s u"
      "wf_namespace (shared_view u)" "rename_edit fp fn tp tn (clk j 0) (clk j 1) (shared_view u) = Some (Inr (r, y))"
      "t = shared_swap y u"
    by (rule mutation_commits [OF assms(1-3) run]) (auto dest: edit_revision)
  have "wf_namespace y"
    using rename_edit_wf [OF u(2) _ u(3)] fs_path_parse_components(1) [OF ps(2)] by simp
  moreover have "spec_move fp fn tp tn (paths (shared_view u)) = Inr (paths y)"
    using rename_edit_refines [OF u(2), of fp fn tp tn "clk j 0" "clk j 1"] u(3) by simp
  moreover have "wf_namespace (shared_view t) = wf_namespace y" "paths (shared_view t) = paths y"
    "ms_files (shared_view t) = ms_files (shared_view u)"
    using rename_edit_files [OF u(3)] by (simp_all add: u(4))
  ultimately show ?thesis
    using u(1,4) fs_path_parse_components(2) [OF ps(1)] fs_path_parse_components(2) [OF ps(2)]
    by (metis (no_types))
qed

theorem rename_atomic_witness:
  "\<exists>t. rename shared_ops (\<lambda>_ _. 9) ''/a'' ''/b'' demo_racing = Some (Inr (), t) \<and>
     wf_namespace (shared_view t) \<and>
     (\<exists>fp fn tp tn u y. ''/a'' = render_path (fp @ [fn]) \<and> ''/b'' = render_path (tp @ [tn]) \<and>
       others_step demo_racing u \<and> t = shared_swap y u \<and> ms_files (shared_view t) = ms_files (shared_view u) \<and>
       spec_move fp fn tp tn (paths (shared_view u)) = Inr (paths (shared_view t)))"
proof -
  have "returns (rename shared_ops (\<lambda>_ _. 9) ''/a'' ''/b'' demo_racing) (Inr ())" by code_simp
  then obtain t where "rename shared_ops (\<lambda>_ _. 9) ''/a'' ''/b'' demo_racing = Some (Inr (), t)"
    by (rule returnsE)
  with rename_atomic [OF _ _ _ this] wf_demo_tree show ?thesis by simp
qed

text \<open>
  C31: \<open>rename\<close> always returns on a well-formed namespace: the ancestor walk of
  \<open>is_descendant\<close> ends on every snapshot the retry loop can see.
\<close>

theorem rename_returns:
  assumes "shared_ok s" "wf_namespace (shared_view s)" "others_keep wf_namespace s"
  shows "\<exists>r t. rename shared_ops clk from to s = Some (r, t)"
proof -
  have "retry_mutation shared_ops (\<lambda>k. rename_edit fp fn tp tn (clk k 0) (clk k 1)) s \<noteq> None" for fp fn tp tn
  proof -
    have "rename_edit fp fn tp tn (clk j 0) (clk j 1) (shared_view u) \<noteq> None" if "others_step s u" for j u
      using rename_edit_refines [OF others_step_keep(1) [OF assms(3,2) that], of fp fn tp tn "clk j 0" "clk j 1"]
      by auto
    then show ?thesis
      using shm.retry_from_returns [OF assms(1), of "\<lambda>k. rename_edit fp fn tp tn (clk k 0) (clk k 1)" 0 8]
      by (simp add: retry_mutation_def)
  qed
  then show ?thesis
    unfolding rename_def by (auto split: sum.split prod.split)
qed

theorem rename_returns_witness:
  "\<exists>r t. rename shared_ops (\<lambda>_ _. 9) ''/a'' ''/a/f/b'' demo_racing = Some (r, t)"
  using rename_returns [of demo_racing] wf_demo_tree by simp

subsection \<open>Listing\<close>

text \<open>
  C35: listing a directory returns, in strictly increasing name order, exactly the children the
  path map has below it, each with the metadata of its target.
\<close>

theorem list_complete:
  assumes "wf_namespace s" "paths s cs = Some (DirTarget d)"
  shows "\<exists>xs. list_snapshot s cs = Inr xs \<and> sorted_wrt (<) (map le_name xs) \<and>
    (\<forall>n m. \<lparr>le_name = n, le_metadata = m\<rparr> \<in> set xs \<longleftrightarrow>
      (\<exists>t. paths s (cs @ [n]) = Some t \<and> metadata_for s t = Inr m))"
proof -
  let ?es = "filter (\<lambda>e. ne_parent e = d) (ms_entries s)"
  let ?f = "\<lambda>e. res_bind (metadata_for s (ne_target e)) (\<lambda>m. Inr \<lparr>le_name = ne_name e, le_metadata = m\<rparr>)"
  have "\<exists>m. metadata_for s (ne_target e) = Inr m" if "e \<in> set (ms_entries s)" for e
  proof -
    from that assms(1) have "target_known s (ne_target e)" by (auto simp: wf_namespace_def)
    then show ?thesis by (auto simp: target_known_def metadata_for_def split: namespace_target.splits)
  qed
  then have "\<forall>e \<in> set (ms_entries s). \<exists>m. metadata_for s (ne_target e) = Inr m" by blast
  from bchoice [OF this] obtain g
    where g: "\<And>e. e \<in> set (ms_entries s) \<Longrightarrow> metadata_for s (ne_target e) = Inr (g e)" by blast
  let ?l = "\<lambda>e. \<lparr>le_name = ne_name e, le_metadata = g e\<rparr>"
  have "res_map ?f ?es = Inr (map ?l ?es)" by (rule res_map_total) (simp add: g)
  with assms(2) have res: "list_snapshot s cs = Inr (sort_key le_name (map ?l ?es))"
    by (simp add: list_snapshot_def resolve_components_eq spec_resolve_def)
  have "inj_on ne_name (set ?es)"
    using entry_key_unique [OF wf_keys [OF assms(1)]] by (auto simp: inj_on_def)
  moreover have "distinct ?es" using wf_keys [OF assms(1)] by (simp add: distinct_map)
  ultimately have "distinct (map le_name (map ?l ?es))" by (simp add: distinct_map comp_def)
  then have "distinct (map le_name (sort_key le_name (map ?l ?es)))"
    by (simp only: distinct_map distinct_sort set_sort) 
  then have sorted: "sorted_wrt (<) (map le_name (sort_key le_name (map ?l ?es)))"
    by (simp add: strict_sorted_iff)
  have "\<lparr>le_name = n, le_metadata = m\<rparr> \<in> set (map ?l ?es) \<longleftrightarrow>
      (\<exists>t. paths s (cs @ [n]) = Some t \<and> metadata_for s t = Inr m)" for n m
    unfolding paths_snoc_dir [OF assms(2)] child_iff [OF wf_keys [OF assms(1)]]
    using g by (auto simp: image_iff)
  with res sorted show ?thesis by auto
qed


theorem list_complete_witness:
  "\<exists>xs. list_snapshot demo_tree [''a''] = Inr xs \<and> sorted_wrt (<) (map le_name xs) \<and>
    (\<forall>n m. \<lparr>le_name = n, le_metadata = m\<rparr> \<in> set xs \<longleftrightarrow>
      (\<exists>t. paths demo_tree ([''a''] @ [n]) = Some t \<and> metadata_for demo_tree t = Inr m))"
proof -
  have "resolve_components demo_tree [''a''] = Inr (DirTarget (DirectoryId 1))" by code_simp
  then have "paths demo_tree [''a''] = Some (DirTarget (DirectoryId 1))"
    by (auto simp: resolve_components_eq spec_resolve_def split: option.splits if_splits)
  from list_complete [OF wf_demo_tree this] show ?thesis .
qed

end
