(* ===== verification/Retention.thy ===== *)
theory Retention
  imports Service Namespace_Props
begin

section \<open>Retention of content\<close>

text \<open>
  Which content counts as live, and the discipline \<open>write\<close> and \<open>remove\<close> keep: content of a
  current file version is retained and has a placement; what is marked as live is live; so a
  garbage candidate is never content some file still needs.
\<close>

definition retention_ok :: "metadata_snapshot \<Rightarrow> bool" where
  "retention_ok s \<longleftrightarrow> (\<forall>c.
     (is_content_live_referenced s c \<longrightarrow>
        map_of (ms_retentions s) c \<in> {Some LiveReference, Some SnapshotRetention} \<and>
        map_of (ms_placements s) c \<noteq> None) \<and>
     (map_of (ms_retentions s) c = Some LiveReference \<longrightarrow> is_content_live_referenced s c))"

definition placements_ok :: "metadata_snapshot \<Rightarrow> bool" where
  "placements_ok s \<longleftrightarrow> (\<forall>c p. map_of (ms_placements s) c = Some p \<longrightarrow>
     cp_content_id p = c \<and> distinct (map rp_node_id (cp_replicas p)))"

definition snapshot_ok :: "metadata_snapshot \<Rightarrow> bool" where
  "snapshot_ok s \<longleftrightarrow> wf_namespace s \<and> retention_ok s \<and> placements_ok s"

subsection \<open>Live content\<close>

lemma live_iff:
  assumes "bt_ok (ms_files s)"
  shows "is_content_live_referenced s c \<longleftrightarrow>
    (\<exists>g m. map_of (ms_files s) g = Some m \<and> c \<in> set (file_chunk_ids m))"
  unfolding is_content_live_referenced_iff by (rule bt_ex_value [OF assms])

lemma live_cong: "ms_files s = ms_files s' \<Longrightarrow> is_content_live_referenced s = is_content_live_referenced s'"
  by (rule ext) (simp add: is_content_live_referenced_iff)

lemma live_mark_garbage [simp]:
  "is_content_live_referenced (mark_garbage c s) = is_content_live_referenced s"
  "is_content_live_referenced (fold mark_garbage cs s) = is_content_live_referenced s"
proof -
  show "is_content_live_referenced (mark_garbage c s) = is_content_live_referenced s" for c s
    by (rule live_cong) simp
  then show "is_content_live_referenced (fold mark_garbage cs s) = is_content_live_referenced s"
    by (induction cs arbitrary: s) simp_all
qed

lemma retentions_mark_garbage:
  "map_of (ms_retentions (mark_garbage c s)) x =
     (if x = c \<and> \<not> is_content_live_referenced s c \<and> map_of (ms_retentions s) c \<noteq> Some SnapshotRetention
      then Some GarbageCandidate else map_of (ms_retentions s) x)"
  by (simp add: mark_garbage_def)

lemma retentions_fold_mark_garbage:
  "map_of (ms_retentions (fold mark_garbage cs s)) x =
     (if x \<in> set cs \<and> \<not> is_content_live_referenced s x \<and> map_of (ms_retentions s) x \<noteq> Some SnapshotRetention
      then Some GarbageCandidate else map_of (ms_retentions s) x)"
  by (induction cs arbitrary: s) (auto simp: retentions_mark_garbage)

lemma fold_mark_garbage_plain [simp]:
  "ms_revision (fold mark_garbage cs s) = ms_revision s"
  "ms_root (fold mark_garbage cs s) = ms_root s"
  "ms_directories (fold mark_garbage cs s) = ms_directories s"
  "ms_files (fold mark_garbage cs s) = ms_files s"
  "ms_entries (fold mark_garbage cs s) = ms_entries s"
  "ms_placements (fold mark_garbage cs s) = ms_placements s"
  using fold_mark_garbage_sel [of "\<lambda>x. x"] by simp_all

subsection \<open>Dropping the last reference\<close>

text \<open>
  The common core of \<open>remove\<close> and \<open>write\<close>: the files change, and the content that may have
  lost its last reference is marked.
\<close>

lemma retention_after_marking:
  assumes ok: "retention_ok s"
    and live: "\<And>c. is_content_live_referenced s' c \<Longrightarrow> is_content_live_referenced s c \<or> c \<in> new"
    and lost: "\<And>c. is_content_live_referenced s c \<Longrightarrow> \<not> is_content_live_referenced s' c \<Longrightarrow> c \<in> set cs"
    and ret: "\<And>c. map_of (ms_retentions s') c = (if c \<in> new then Some LiveReference else map_of (ms_retentions s) c)"
    and new_live: "\<And>c. c \<in> new \<Longrightarrow> is_content_live_referenced s' c"
    and placed: "\<And>c. map_of (ms_placements s) c \<noteq> None \<or> c \<in> new \<Longrightarrow> map_of (ms_placements s') c \<noteq> None"
  shows "retention_ok (fold mark_garbage cs s')"
  unfolding retention_ok_def
proof (intro allI conjI impI)
  fix c assume "is_content_live_referenced (fold mark_garbage cs s') c"
  then have l: "is_content_live_referenced s' c" by simp
  with ok live [OF l] ret [of c] show "map_of (ms_retentions (fold mark_garbage cs s')) c
      \<in> {Some LiveReference, Some SnapshotRetention}"
    by (auto simp: retentions_fold_mark_garbage retention_ok_def)
  from ok live [OF l] placed [of c] show "map_of (ms_placements (fold mark_garbage cs s')) c \<noteq> None"
    by (auto simp: retention_ok_def)
next
  fix c assume "map_of (ms_retentions (fold mark_garbage cs s')) c = Some LiveReference"
  then have "map_of (ms_retentions s') c = Some LiveReference" "c \<in> set cs \<longrightarrow> is_content_live_referenced s' c"
    by (auto simp: retentions_fold_mark_garbage split: if_splits)
  with ok ret [of c] lost [of c] new_live [of c] show "is_content_live_referenced (fold mark_garbage cs s') c"
    by (auto simp: retention_ok_def split: if_splits)
qed

lemma retention_ok_cong:
  assumes "ms_files s = ms_files s'" "ms_retentions s = ms_retentions s'" "ms_placements s = ms_placements s'"
  shows "retention_ok s = retention_ok s'"
  using assms live_cong [OF assms(1)] by (simp add: retention_ok_def)

lemma remove_file_marks:
  "remove_file f s = fold mark_garbage (case map_of (ms_files s) f of None \<Rightarrow> [] | Some m \<Rightarrow> file_chunk_ids m)
     (s\<lparr>ms_files := bt_remove f (ms_files s)\<rparr>)"
  by (simp add: remove_file_def file_chunk_ids_def Let_def fold_map comp_def split: option.splits)

lemma remove_file_retention:
  assumes "retention_ok s" "bt_ok (ms_files s)"
  shows "retention_ok (remove_file f s)"
  unfolding remove_file_marks
proof (rule retention_after_marking [OF assms(1), where new = "{}"])
  fix c
  let ?s = "s\<lparr>ms_files := bt_remove f (ms_files s)\<rparr>"
  have ok: "bt_ok (ms_files ?s)" using assms(2) by simp
  show "is_content_live_referenced ?s c \<Longrightarrow> is_content_live_referenced s c \<or> c \<in> {}"
    unfolding live_iff [OF ok] live_iff [OF assms(2)] by (auto split: if_splits)
  show "c \<in> set (case map_of (ms_files s) f of None \<Rightarrow> [] | Some m \<Rightarrow> file_chunk_ids m)"
    if was: "is_content_live_referenced s c" and gone: "\<not> is_content_live_referenced ?s c"
  proof -
    from was obtain g m where g: "map_of (ms_files s) g = Some m" "c \<in> set (file_chunk_ids m)"
      unfolding live_iff [OF assms(2)] by blast
    from gone have "map_of (bt_remove f (ms_files s)) g \<noteq> Some m" 
      unfolding live_iff [OF ok] using g(2) by (simp del: map_of_bt_remove) blast
    with g(1) have "g = f" by (auto split: if_splits)
    with g show ?thesis by simp
  qed
qed simp_all

subsection \<open>Writing\<close>

lemma write_edit_Inr:
  assumes "write_edit desired source cid f data expected now s = Inr (out, s')"
  obtains m len created replicas p
  where "map_of (ms_files s) f = Some m" "expected = None \<or> expected = Some (fm_generation m)"
    "u64_try_from (length data) = Some len"
    "wo_committed out = m\<lparr>fm_generation := fm_generation m + 1, fm_modified_at_millis := now,
       fm_size := len, fm_manifest := Some (manifest_single cid len)\<rparr>"
    "record_healthy source (cp_replicas (entry_or_insert cid desired s)) = (created, replicas)"
    "p = (entry_or_insert cid desired s)\<lparr>cp_desired_replica_count := desired, cp_replicas := replicas\<rparr>"
    "wo_replica_created out = created" "wo_durability out = durability p"
    "s' = fold mark_garbage (file_chunk_ids m)
       (s\<lparr>ms_files := bt_insert f (wo_committed out) (ms_files s),
          ms_placements := bt_insert cid p (ms_placements s),
          ms_retentions := bt_insert cid LiveReference (ms_retentions s)\<rparr>)"
proof -
  obtain created replicas where rh: "record_healthy source (cp_replicas (entry_or_insert cid desired s)) = (created, replicas)"
    by fastforce
  from assms obtain m len where "map_of (ms_files s) f = Some m" "u64_try_from (length data) = Some len"
    by (auto simp: write_edit_def Let_def split: if_splits)
  with assms rh show thesis
    by (intro that [of m len created replicas]) (auto simp: write_edit_def Let_def split: if_splits option.splits)
qed

lemma record_healthy_replicas:
  assumes "record_healthy node rs = (created, rs')" "distinct (map rp_node_id rs)"
  shows "distinct (map rp_node_id rs')" "\<exists>r \<in> set rs'. rp_node_id r = node \<and> rp_state r = Healthy"
    "created \<longleftrightarrow> \<not> (\<exists>r \<in> set rs. rp_node_id r = node \<and> rp_state r = Healthy)"
proof -
  have upd: "map rp_node_id (update_first (node_is node) (\<lambda>r. r\<lparr>rp_state := Healthy\<rparr>) rs) = map rp_node_id rs"
    by (rule map_update_first) simp
  have mem: "find (node_is node) rs = Some r \<Longrightarrow>
      r\<lparr>rp_state := Healthy\<rparr> \<in> set (update_first (node_is node) (\<lambda>r. r\<lparr>rp_state := Healthy\<rparr>) rs)" for r
    by (induction rs) (auto split: if_splits)
  have uniq: "r \<in> set rs \<Longrightarrow> r' \<in> set rs \<Longrightarrow> rp_node_id r = rp_node_id r' \<Longrightarrow> r = r'" for r r'
    using assms(2) by (auto simp: distinct_map dest: inj_onD)
  have "find (node_is node) rs = None \<Longrightarrow> node \<notin> rp_node_id ` set rs"
    by (auto simp: find_None_iff node_is_def)
  then show "distinct (map rp_node_id rs')"
    using assms upd by (auto simp: record_healthy_def split: option.splits)
  show "\<exists>r \<in> set rs'. rp_node_id r = node \<and> rp_state r = Healthy"
  proof (cases "find (node_is node) rs")
    case None
    with assms(1) show ?thesis by (auto simp: record_healthy_def)
  next
    case (Some r)
    then have "rp_node_id r = node" by (auto simp: node_is_def dest: find_SomeD)
    with mem [OF Some] Some assms(1) show ?thesis
      by (intro bexI [of _ "r\<lparr>rp_state := Healthy\<rparr>"]) (auto simp: record_healthy_def)
  qed
  show "created \<longleftrightarrow> \<not> (\<exists>r \<in> set rs. rp_node_id r = node \<and> rp_state r = Healthy)"
  proof (cases "find (node_is node) rs")
    case None
    then show ?thesis using assms(1) find_None_all [OF None] by (auto simp: record_healthy_def node_is_def)
  next
    case (Some r)
    then have "r \<in> set rs" "rp_node_id r = node" by (auto simp: node_is_def dest: find_SomeD)
    with Some assms(1) show ?thesis using uniq by (auto simp: record_healthy_def)
  qed
qed

lemma write_edit_keeps:
  assumes "snapshot_ok s" "write_edit desired source cid f data expected now s = Inr (out, s')"
  shows "snapshot_ok s'"
  using assms(2)
proof (rule write_edit_Inr)
  fix m len created replicas p
  let ?s = "s\<lparr>ms_files := bt_insert f (wo_committed out) (ms_files s),
          ms_placements := bt_insert cid p (ms_placements s),
          ms_retentions := bt_insert cid LiveReference (ms_retentions s)\<rparr>"
  assume m: "map_of (ms_files s) f = Some m"
    and out: "wo_committed out = m\<lparr>fm_generation := fm_generation m + 1, fm_modified_at_millis := now,
       fm_size := len, fm_manifest := Some (manifest_single cid len)\<rparr>"
    and rh: "record_healthy source (cp_replicas (entry_or_insert cid desired s)) = (created, replicas)"
    and p: "p = (entry_or_insert cid desired s)\<lparr>cp_desired_replica_count := desired, cp_replicas := replicas\<rparr>"
    and s': "s' = fold mark_garbage (file_chunk_ids m) ?s"
  have wf: "wf_namespace s" and ret: "retention_ok s" and pl: "placements_ok s"
    using assms(1) by (simp_all add: snapshot_ok_def)
  have ok: "bt_ok (ms_files s)" "bt_ok (ms_files ?s)" using wf_maps [OF wf] by (simp_all add: maps_ok_def)
  have chunks: "file_chunk_ids (wo_committed out) = [cid]"
    by (simp add: out file_chunk_ids_def manifest_single_def)
  have live: "is_content_live_referenced ?s c \<longleftrightarrow>
      c = cid \<or> (\<exists>g n. g \<noteq> f \<and> map_of (ms_files s) g = Some n \<and> c \<in> set (file_chunk_ids n))" for c
    unfolding live_iff [OF ok(2)] using chunks by (auto split: if_splits)
  have "retention_ok s'"
    unfolding s'
  proof (rule retention_after_marking [OF ret, where new = "{cid}"])
    fix c
    show "is_content_live_referenced ?s c \<Longrightarrow> is_content_live_referenced s c \<or> c \<in> {cid}"
      unfolding live live_iff [OF ok(1)] by blast
    show "is_content_live_referenced s c \<Longrightarrow> \<not> is_content_live_referenced ?s c \<Longrightarrow> c \<in> set (file_chunk_ids m)"
      unfolding live live_iff [OF ok(1)] using m by (metis option.inject)
  qed (auto simp: live)
  moreover have "target_known s' t \<longleftrightarrow> target_known s t" for t
    using m by (auto simp: s' target_known_def split: namespace_target.splits)
  then have "wf_namespace s'"
    using wf m fold_mark_garbage_ok [of ?s "\<lambda>x. x"]
    by (auto simp: wf_namespace_def maps_ok_def paths_def s' out split: if_splits)
  moreover have "placements_ok s'"
  proof -
    have "cp_content_id (entry_or_insert cid desired s) = cid \<and>
        distinct (map rp_node_id (cp_replicas (entry_or_insert cid desired s)))"
      using pl by (auto simp: entry_or_insert_def placements_ok_def split: option.splits)
    with record_healthy_replicas(1) [OF rh] pl show ?thesis
      by (auto simp: placements_ok_def s' p)
  qed
  ultimately show ?thesis by (simp add: snapshot_ok_def)
qed

end
