(* ===== verification/Replication.thy ===== *)
theory Replication
  imports Service
begin

section \<open>The replication reconciler\<close>

text \<open>
  \<open>replication.rs\<close>: one pass compares the recorded replicas of every retained content with
  what the nodes hold, and copies content to the nodes the policy names until the durability target
  is met. Loops over replicas, nodes and contents are recursive functions over the lists; the two
  compare-and-swap loops run at most eight rounds.
\<close>

record reconcile_report =
  rr_replicas_created :: nat
  rr_degraded_contents :: "content_id list"

record 's replication_reconciler =
  rc_metadata :: "'s metadata_ops"
  rc_policy :: placement_policy

definition reconciler :: "'s filesystem_service \<Rightarrow> 's replication_reconciler" where
  "reconciler svc = \<lparr>rc_metadata = fs_metadata svc, rc_policy = fs_policy svc\<rparr>"

subsection \<open>Looking at nodes\<close>

definition chunk_size_of :: "content_id \<Rightarrow> metadata_snapshot \<Rightarrow> u64 option" where
  "chunk_size_of cid s =
     find_map (\<lambda>file. Option.bind (fm_manifest file) (\<lambda>manifest.
       map_option cr_size (find (\<lambda>chunk. cr_content_id chunk = cid) (cm_chunks manifest))))
       (bt_values (ms_files s))"

definition content_size :: "'s metadata_ops \<Rightarrow> content_id \<Rightarrow> 's \<Rightarrow> u64 \<times> 's" where
  "content_size M cid s = (case md_load M s of
     (Inl _, s1) \<Rightarrow> (0, s1)
   | (Inr snapshot, s1) \<Rightarrow> (case chunk_size_of cid snapshot of None \<Rightarrow> 0 | Some n \<Rightarrow> n, s1))"

fun find_source ::
    "hash_function \<Rightarrow> content_id \<Rightarrow> replica list \<Rightarrow> ('s, 'c) world
     \<Rightarrow> (device_id \<times> bytes) option \<times> ('s, 'c) world" where
  "find_source sha256 cid [] w = (None, w)"
| "find_source sha256 cid (r # rs) w =
     (if rp_state r \<noteq> Healthy then find_source sha256 cid rs w
      else (case on_contents (\<lambda>reg. get_from reg (rp_node_id r) cid) w of
          (Inl _, w1) \<Rightarrow> find_source sha256 cid rs w1
        | (Inr bs, w1) \<Rightarrow>
            if matches sha256 cid bs then (Some (rp_node_id r, bs), w1)
            else find_source sha256 cid rs w1))"

definition offline_state :: "replica_state \<Rightarrow> replica_state" where
  "offline_state state = (if state = Missing \<or> state = Corrupted then state else Offline)"

text \<open>The state of one replica whose node is online.\<close>

definition probe_store ::
    "hash_function \<Rightarrow> content_id \<Rightarrow> device_id \<Rightarrow> (('s, 'c) world, filesystem_error, replica_state) op" where
  "probe_store sha256 cid node_id =
     op_bind (\<lambda>w. op_lift (registry_store (w_registry w) node_id) w) (\<lambda>store.
     op_bind (on_contents (\<lambda>_. cs_exists store cid)) (\<lambda>there.
       if \<not> there then op_lift (Inr Missing)
       else (\<lambda>w. case on_contents (\<lambda>_. cs_get store cid) w of
           (Inr bs, w1) \<Rightarrow>
             if matches sha256 cid bs then (Inr Healthy, w1)
             else (Inr Corrupted, w_emit (ReplicaCorrupted cid node_id) w1)
         | (Inl e, w1) \<Rightarrow> (if e = ContentUnavailable then Inr Missing else Inl e, w1))))"

fun refresh_replica_states ::
    "hash_function \<Rightarrow> content_id \<Rightarrow> replica list
     \<Rightarrow> (('s, 'c) world, filesystem_error, (device_id \<times> replica_state) list) op" where
  "refresh_replica_states sha256 cid [] w = (Inr [], w)"
| "refresh_replica_states sha256 cid (r # rs) w =
     (let node_id = rp_node_id r;
          checked = (case registry_node (w_registry w) node_id of
              Inl _ \<Rightarrow> (Inr Missing, w)
            | Inr node \<Rightarrow>
                if \<not> sn_online node then (Inr (offline_state (rp_state r)), w)
                else probe_store sha256 cid node_id w)
      in case checked of
           (Inl e, w1) \<Rightarrow> (Inl e, w1)
         | (Inr state, w1) \<Rightarrow>
             op_bind (refresh_replica_states sha256 cid rs) (\<lambda>states. op_lift (Inr ((node_id, state) # states))) w1)"

subsection \<open>Updating placements\<close>

definition apply_states :: "(device_id \<times> replica_state) list \<Rightarrow> replica list \<Rightarrow> replica list" where
  "apply_states states rs =
     fold (\<lambda>(node_id, state). update_first (node_is node_id) (\<lambda>r. r\<lparr>rp_state := state\<rparr>)) states rs"

definition put_placement :: "content_id \<Rightarrow> content_placement \<Rightarrow> metadata_snapshot \<Rightarrow> metadata_snapshot" where
  "put_placement cid p s = s\<lparr>ms_placements := bt_adjust cid (\<lambda>_. p) (ms_placements s)\<rparr>"

fun refresh_placement_from ::
    "'s replication_reconciler \<Rightarrow> hash_function \<Rightarrow> nat \<Rightarrow> content_id
     \<Rightarrow> (('s, 'c) world, filesystem_error, content_placement option) op" where
  "refresh_placement_from rc sha256 0 cid w = (Inl Conflict, w)"
| "refresh_placement_from rc sha256 (Suc n) cid w = (case on_metadata (md_load (rc_metadata rc)) w of
     (Inl e, w1) \<Rightarrow> (Inl e, w1)
   | (Inr snapshot, w1) \<Rightarrow>
       if \<not> is_content_retained snapshot cid then (Inr None, w1)
       else (case map_of (ms_placements snapshot) cid of
           None \<Rightarrow> (Inl ContentUnavailable, w1)
         | Some current \<Rightarrow> (case refresh_replica_states sha256 (cp_content_id current) (cp_replicas current) w1 of
             (Inl e, w2) \<Rightarrow> (Inl e, w2)
           | (Inr states, w2) \<Rightarrow>
               let refreshed = current\<lparr>cp_replicas := apply_states states (cp_replicas current)\<rparr>
               in (case on_metadata (md_cas (rc_metadata rc) (put_placement cid refreshed snapshot)) w2 of
                   (Inr _, w3) \<Rightarrow> (Inr (Some refreshed), w3)
                 | (Inl e, w3) \<Rightarrow>
                     if e = Conflict then refresh_placement_from rc sha256 n cid w3 else (Inl e, w3)))))"

definition refresh_current_placement ::
    "'s replication_reconciler \<Rightarrow> hash_function \<Rightarrow> content_id
     \<Rightarrow> (('s, 'c) world, filesystem_error, content_placement option) op" where
  "refresh_current_placement rc sha256 cid = refresh_placement_from rc sha256 8 cid"

fun mutate_placement_from ::
    "'s replication_reconciler \<Rightarrow> nat \<Rightarrow> content_id \<Rightarrow> (content_placement \<Rightarrow> content_placement)
     \<Rightarrow> (('s, 'c) world, filesystem_error, unit) op" where
  "mutate_placement_from rc 0 cid operation w = (Inl Conflict, w)"
| "mutate_placement_from rc (Suc n) cid operation w = (case on_metadata (md_load (rc_metadata rc)) w of
     (Inl e, w1) \<Rightarrow> (Inl e, w1)
   | (Inr snapshot, w1) \<Rightarrow>
       if \<not> is_content_retained snapshot cid then (Inr (), w1)
       else (case map_of (ms_placements snapshot) cid of
           None \<Rightarrow> (Inl ContentUnavailable, w1)
         | Some p \<Rightarrow>
             (case on_metadata (md_cas (rc_metadata rc) (put_placement cid (operation p) snapshot)) w1 of
                (Inr _, w2) \<Rightarrow> (Inr (), w2)
              | (Inl e, w2) \<Rightarrow>
                  if e = Conflict then mutate_placement_from rc n cid operation w2 else (Inl e, w2))))"

definition mutate_placement ::
    "'s replication_reconciler \<Rightarrow> content_id \<Rightarrow> (content_placement \<Rightarrow> content_placement)
     \<Rightarrow> (('s, 'c) world, filesystem_error, unit) op" where
  "mutate_placement rc cid operation = mutate_placement_from rc 8 cid operation"

definition upsert_state :: "device_id \<Rightarrow> replica_state \<Rightarrow> content_placement \<Rightarrow> content_placement" where
  "upsert_state node_id state p = p\<lparr>cp_replicas := (case find (node_is node_id) (cp_replicas p) of
     Some _ \<Rightarrow> update_first (node_is node_id) (\<lambda>r. r\<lparr>rp_state := state\<rparr>) (cp_replicas p)
   | None \<Rightarrow> cp_replicas p @ [\<lparr>rp_node_id = node_id, rp_state = state\<rparr>])\<rparr>"

definition upsert_replica ::
    "'s replication_reconciler \<Rightarrow> content_id \<Rightarrow> device_id \<Rightarrow> replica_state
     \<Rightarrow> (('s, 'c) world, filesystem_error, unit) op" where
  "upsert_replica rc cid node_id state = mutate_placement rc cid (upsert_state node_id state)"

subsection \<open>Copying\<close>

text \<open>Copy checked bytes to one node and record the replica.\<close>

definition copy_to ::
    "'s replication_reconciler \<Rightarrow> content_id \<Rightarrow> device_id \<Rightarrow> device_id \<Rightarrow> bytes
     \<Rightarrow> (('s, 'c) world, filesystem_error, unit) op" where
  "copy_to rc cid source destination bs =
     op_bind (op_modify (w_emit (ReplicationStarted cid source destination))) (\<lambda>_.
     op_bind (\<lambda>w. op_lift (registry_store (w_registry w) destination) w) (\<lambda>store.
     op_bind (on_contents (\<lambda>_. cs_exists store cid)) (\<lambda>there.
     op_bind (if there then on_contents (\<lambda>_. cs_delete store cid) else op_lift (Inr ())) (\<lambda>_.
     op_bind (on_contents (\<lambda>reg. put_on reg destination bs)) (\<lambda>written_id.
       if written_id \<noteq> cid
       then op_lift (Inl (Storage ''content store returned an unexpected content id''))
       else
         op_bind (upsert_replica rc cid destination Healthy) (\<lambda>_.
         op_bind (op_modify (w_emit (ReplicaCreated cid destination))) (\<lambda>_.
         op_modify (w_emit (ReplicationCompleted cid source destination)))))))))"

fun replicate_to ::
    "'s replication_reconciler \<Rightarrow> hash_function \<Rightarrow> content_id \<Rightarrow> device_id list \<Rightarrow> nat
     \<Rightarrow> (('s, 'c) world, filesystem_error, nat) op" where
  "replicate_to rc sha256 cid [] created w = (Inr created, w)"
| "replicate_to rc sha256 cid (destination # rest) created w =
     (case on_metadata (md_load (rc_metadata rc)) w of
        (Inl e, w1) \<Rightarrow> (Inl e, w1)
      | (Inr snapshot, w1) \<Rightarrow>
          if \<not> is_content_retained snapshot cid then (Inr created, w1)
          else (case map_of (ms_placements snapshot) cid of
              None \<Rightarrow> (Inl ContentUnavailable, w1)
            | Some current \<Rightarrow>
                if list_ex (\<lambda>r. rp_node_id r = destination \<and> replica_present r) (cp_replicas current)
                then replicate_to rc sha256 cid rest created w1
                else (case find_source sha256 cid (cp_replicas current) w1 of
                    (None, w2) \<Rightarrow> (Inr created, w2)
                  | (Some (source, bs), w2) \<Rightarrow> (case copy_to rc cid source destination bs w2 of
                      (Inl e, w3) \<Rightarrow> (Inl e, w3)
                    | (Inr _, w3) \<Rightarrow> replicate_to rc sha256 cid rest (created + 1) w3))))"

definition durability_events :: "content_id \<Rightarrow> durability_status \<Rightarrow> durability_status \<Rightarrow> filesystem_event list" where
  "durability_events cid before after =
     (if before = DurHealthy \<and> after = DurDegraded then [DurabilityDegraded cid]
      else if before = DurDegraded \<and> after = DurHealthy then [DurabilityRestored cid] else [])"

definition reconcile_content ::
    "'s replication_reconciler \<Rightarrow> hash_function \<Rightarrow> content_id \<Rightarrow> (('s, 'c) world, filesystem_error, nat) op" where
  "reconcile_content rc sha256 cid =
     op_bind (on_metadata (md_load (rc_metadata rc))) (\<lambda>initial.
     if \<not> is_content_retained initial cid then op_lift (Inr 0)
     else
       op_bind (op_lift (ok_or (map_of (ms_placements initial) cid) ContentUnavailable)) (\<lambda>original.
       op_bind (refresh_current_placement rc sha256 cid) (\<lambda>refreshed. case refreshed of
         None \<Rightarrow> op_lift (Inr 0)
       | Some placement \<Rightarrow>
           op_bind (\<lambda>w. op_lift (registry_nodes (w_registry w)) w) (\<lambda>nodes.
           op_bind (on_metadata (\<lambda>s. let (n, s1) = content_size (rc_metadata rc) cid s in (Inr n, s1))) (\<lambda>sz.
           op_bind (replicate_to rc sha256 cid (rc_policy rc
               \<lparr>pr_size = sz, pr_available_nodes = nodes, pr_existing_replicas = cp_replicas placement,
                pr_desired_replica_count = cp_desired_replica_count placement\<rparr>) 0) (\<lambda>created.
           op_bind (on_metadata (md_load (rc_metadata rc))) (\<lambda>final.
             let after = (case map_of (ms_placements final) cid of None \<Rightarrow> DurDegraded | Some p \<Rightarrow> durability p)
             in op_bind (op_modify (fold w_emit (durability_events cid (durability original) after))) (\<lambda>_.
                op_lift (Inr created)))))))))"

fun reconcile_all ::
    "'s replication_reconciler \<Rightarrow> hash_function \<Rightarrow> content_id list \<Rightarrow> reconcile_report
     \<Rightarrow> (('s, 'c) world, filesystem_error, reconcile_report) op" where
  "reconcile_all rc sha256 [] report w = (Inr report, w)"
| "reconcile_all rc sha256 (cid # cids) report w =
     op_bind (reconcile_content rc sha256 cid) (\<lambda>created.
     op_bind (on_metadata (md_load (rc_metadata rc))) (\<lambda>snapshot.
       let degraded = is_content_retained snapshot cid \<and>
             (case map_of (ms_placements snapshot) cid of None \<Rightarrow> False | Some p \<Rightarrow> durability p = DurDegraded)
       in reconcile_all rc sha256 cids
            \<lparr>rr_replicas_created = rr_replicas_created report + created,
             rr_degraded_contents = rr_degraded_contents report @ (if degraded then [cid] else [])\<rparr>)) w"

definition reconcile ::
    "'s replication_reconciler \<Rightarrow> hash_function \<Rightarrow> (('s, 'c) world, filesystem_error, reconcile_report) op" where
  "reconcile rc sha256 =
     op_bind (on_metadata (md_load (rc_metadata rc))) (\<lambda>snapshot.
       reconcile_all rc sha256 (bt_keys (retained_content_ids snapshot))
         \<lparr>rr_replicas_created = 0, rr_degraded_contents = []\<rparr>)"

end
