(* ===== verification/Service_Props.thy ===== *)
theory Service_Props
  imports Service Namespace_Props
begin

section \<open>How the service acts on the world\<close>

text \<open>
  Which parts of the world each step of the service changes, and what a read that returns data
  has checked.
\<close>

subsection \<open>Parts of the world\<close>

lemma on_metadata_eq: "on_metadata m w = (fst (m (w_metadata w)), w\<lparr>w_metadata := snd (m (w_metadata w))\<rparr>)"
  by (simp add: on_metadata_def case_prod_beta Let_def)

lemma on_contents_eq:
  "on_contents m w = (fst (m (w_registry w) (w_contents w)), w\<lparr>w_contents := snd (m (w_registry w) (w_contents w))\<rparr>)"
  by (simp add: on_contents_def case_prod_beta Let_def)

lemma on_metadata_iff:
  "on_metadata m w = (r, w') \<longleftrightarrow> (\<exists>s. m (w_metadata w) = (r, s) \<and> w' = w\<lparr>w_metadata := s\<rparr>)"
  by (auto simp: on_metadata_eq prod_eq_iff)

lemma on_contents_iff:
  "on_contents m w = (r, w') \<longleftrightarrow>
     (\<exists>c. m (w_registry w) (w_contents w) = (r, c) \<and> w' = w\<lparr>w_contents := c\<rparr>)"
  by (auto simp: on_contents_eq prod_eq_iff)

lemma fold_w_emit_sel [simp, keeps_simps]:
  "w_metadata (fold w_emit es w) = w_metadata w"
  "w_contents (fold w_emit es w) = w_contents w"
  "w_registry (fold w_emit es w) = w_registry w"
  "w_events (fold w_emit es w) = fold emit es (w_events w)"
  by (induction es arbitrary: w) (simp_all add: w_emit_def)

lemma w_emit_sel [simp, keeps_simps]:
  "w_metadata (w_emit e w) = w_metadata w"
  "w_contents (w_emit e w) = w_contents w"
  "w_registry (w_emit e w) = w_registry w"
  by (simp_all add: w_emit_def)

lemma mark_replica_sel [simp, keeps_simps]:
  "w_contents (mark_replica svc cid n st w) = w_contents w"
  "w_registry (mark_replica svc cid n st w) = w_registry w"
  "w_events (mark_replica svc cid n st w) = w_events w"
  by (simp_all add: mark_replica_def)

lemma require_file_simps [simp]:
  "require_file t = Inr f \<longleftrightarrow> t = FileTarget f"
  "require_file (FileTarget f) = Inr f"
  by (auto simp: require_file_def split: namespace_target.splits)

subsection \<open>Integrity of reads\<close>

lemma read_replicas_matches:
  "read_replicas svc sha256 cid rs w = (Some bs, w') \<Longrightarrow> matches sha256 cid bs"
proof (induction svc sha256 cid rs w rule: read_replicas.induct)
  case (2 svc sha256 cid r rs w)
  then show ?case
    by (auto simp: Let_def split: sum.splits if_splits prod.splits)
qed simp

definition parts_match :: "hash_function \<Rightarrow> chunk_reference list \<Rightarrow> bytes list \<Rightarrow> bool" where
  "parts_match sha256 = list_all2 (\<lambda>chunk part. matches sha256 (cr_content_id chunk) part)"

lemma read_chunks_parts:
  "read_chunks svc sha256 snapshot cks acc w = (Inr bs, w') \<Longrightarrow>
     \<exists>parts. bs = acc @ concat parts \<and> parts_match sha256 cks parts"
proof (induction svc sha256 snapshot cks acc w rule: read_chunks.induct)
  case (1 svc sha256 snapshot result w)
  then show ?case by (auto simp: parts_match_def intro: exI [of _ "[]"])
next
  case (2 svc sha256 snapshot chunk rest result w)
  from "2.prems" obtain p part w1 where p: "map_of (ms_placements snapshot) (cr_content_id chunk) = Some p"
      and part: "read_replicas svc sha256 (cr_content_id chunk) (cp_replicas p) w = (Some part, w1)"
      and rest: "read_chunks svc sha256 snapshot rest (result @ part) w1 = (Inr bs, w')"
    by (auto split: option.splits prod.splits)
  from "2.IH" [OF p part [symmetric] refl rest] obtain parts
    where "bs = (result @ part) @ concat parts" "parts_match sha256 rest parts" by blast
  with read_replicas_matches [OF part] show ?case
    by (intro exI [of _ "part # parts"]) (simp add: parts_match_def)
qed

definition file_chunks :: "file_metadata \<Rightarrow> chunk_reference list" where
  "file_chunks file = (case fm_manifest file of None \<Rightarrow> [] | Some manifest \<Rightarrow> cm_chunks manifest)"

lemma read_internal_parts:
  assumes "read_internal svc sha256 path w = (Inr bs, w')"
  obtains f s1 snapshot s2 fmd parts
  where "resolve (fs_metadata svc) path (w_metadata w) = (Inr (FileTarget f), s1)"
    "md_load (fs_metadata svc) s1 = (Inr snapshot, s2)" "map_of (ms_files snapshot) f = Some fmd"
    "bs = concat parts" "parts_match sha256 (file_chunks fmd) parts"
proof -
  from assms obtain f s1 snapshot s2 fmd
    where *: "resolve (fs_metadata svc) path (w_metadata w) = (Inr (FileTarget f), s1)"
      "md_load (fs_metadata svc) s1 = (Inr snapshot, s2)" "map_of (ms_files snapshot) f = Some fmd"
      and rd: "(case fm_manifest fmd of None \<Rightarrow> op_lift (Inr [])
        | Some manifest \<Rightarrow> read_chunks svc sha256 snapshot (cm_chunks manifest) [])
          (w\<lparr>w_metadata := s2\<rparr>) = (Inr bs, w')"
    by (auto simp: read_internal_def op_bind_eq_Inr on_metadata_iff)
  show thesis
  proof (cases "fm_manifest fmd")
    case None
    with rd * that [of f s1 snapshot s2 fmd "[]"] show ?thesis
      by (simp add: file_chunks_def parts_match_def)
  next
    case (Some manifest)
    with rd have "read_chunks svc sha256 snapshot (cm_chunks manifest) [] (w\<lparr>w_metadata := s2\<rparr>) = (Inr bs, w')"
      by simp
    from read_chunks_parts [OF this] obtain parts
      where "bs = concat parts" "parts_match sha256 (cm_chunks manifest) parts" by auto
    with * Some that show ?thesis by (simp add: file_chunks_def)
  qed
qed

lemma shared_resolve_Inr:
  assumes "shared_ok s" "resolve shared_ops path s = (Inr t, s1)"
  obtains cs where "path = render_path cs" "others_step s s1" "paths (shared_view s1) cs = Some t"
proof -
  from assms(2) obtain cs x where cs: "fs_path_parse path = Inr cs" and ld: "shared_load s = (Inr x, s1)"
    and r: "resolve_components x cs = Inr t"
    by (auto simp: resolve_def op_bind_eq_Inr)
  have "paths x cs = Some t"
    using r by (auto simp: resolve_components_eq spec_resolve_def split: option.splits if_splits)
  then show thesis
    using that fs_path_parse_components(2) [OF cs] shm.load_others [OF assms(1) ld] shm.load_view [OF assms(1) ld]
    by blast
qed

end
