(* ===== verification/System.thy ===== *)
theory System
  imports Retention Replication Service_Props
begin

section \<open>The metadata as a state machine\<close>

text \<open>
  Every commit any part of the filesystem makes is one of the steps of \<open>commit_step\<close>; the
  snapshots they lead to from an empty filesystem are the reachable ones. Each step keeps
  \<^const>\<open>snapshot_ok\<close>; each method of the service and of the reconciler moves a shared store only
  by such steps, whatever other clients commit in between.
\<close>

inductive commit_step :: "metadata_snapshot \<Rightarrow> metadata_snapshot \<Rightarrow> bool" where
  step_mkdir: "valid_component name \<Longrightarrow> new \<notin> dom (map_of (ms_directories s)) \<Longrightarrow>
    mkdir_edit new parents name now touched s = Inr (r, s') \<Longrightarrow> commit_step s s'"
| step_create: "valid_component name \<Longrightarrow> new \<notin> dom (map_of (ms_files s)) \<Longrightarrow>
    create_edit new parents name now touched s = Inr (r', s') \<Longrightarrow> commit_step s s'"
| step_rename: "valid_component to_name \<Longrightarrow>
    rename_edit from_parents from_name to_parents to_name t1 t2 s = Some (Inr (u, s')) \<Longrightarrow> commit_step s s'"
| step_remove: "remove_edit parents name touched s = Inr (u, s') \<Longrightarrow> commit_step s s'"
| step_write: "write_edit desired source cid f data expected now s = Inr (out, s') \<Longrightarrow> commit_step s s'"
| step_mark: "commit_step s (set_replica_state cid node_id state s)"
| step_refresh: "map_of (ms_placements s) cid = Some p \<Longrightarrow>
    commit_step s (put_placement cid (p\<lparr>cp_replicas := apply_states states (cp_replicas p)\<rparr>) s)"
| step_upsert: "map_of (ms_placements s) cid = Some p \<Longrightarrow>
    commit_step s (put_placement cid (upsert_state node_id state p) s)"

inductive reachable :: "metadata_snapshot \<Rightarrow> bool" where
  initial: "reachable metadata_snapshot_default"
| commit: "reachable s \<Longrightarrow> commit_step s s' \<Longrightarrow> reachable (s'\<lparr>ms_revision := ms_revision s + 1\<rparr>)"

inductive_cases commit_stepE: "commit_step s s'"

subsection \<open>Steps that change placements only\<close>

lemma placements_only:
  assumes "snapshot_ok s"
    and same: "ms_root s' = ms_root s" "ms_directories s' = ms_directories s" "ms_files s' = ms_files s"
      "ms_entries s' = ms_entries s" "ms_retentions s' = ms_retentions s"
    and "bt_ok (ms_placements s')" "placements_ok s'"
    and dom: "dom (map_of (ms_placements s')) = dom (map_of (ms_placements s))"
  shows "snapshot_ok s'"
proof -
  have "target_known s' = target_known s" 
    by (rule ext) (simp add: target_known_def same split: namespace_target.split)
  moreover have "paths s' = paths s" by (simp add: paths_def same)
  moreover have "maps_ok s'" using assms by (simp add: snapshot_ok_def wf_namespace_def maps_ok_def)
  ultimately have "wf_namespace s'" using assms(1) by (simp add: snapshot_ok_def wf_namespace_def same)
  moreover have "map_of (ms_placements s') c \<noteq> None \<longleftrightarrow> map_of (ms_placements s) c \<noteq> None" for c
    using dom by auto
  then have "retention_ok s'"
    using assms(1) live_cong [OF same(3)] by (simp add: snapshot_ok_def retention_ok_def same)
  ultimately show ?thesis using assms(8) by (simp add: snapshot_ok_def)
qed

lemma update_first_nodes [simp]:
  "map rp_node_id (update_first P (\<lambda>r. r\<lparr>rp_state := state\<rparr>) rs) = map rp_node_id rs"
  by (rule map_update_first) simp

lemma apply_states_nodes [simp]: "map rp_node_id (apply_states states rs) = map rp_node_id rs"
  unfolding apply_states_def by (induction states arbitrary: rs) (auto simp: case_prod_beta)

lemma upsert_state_nodes:
  "distinct (map rp_node_id (cp_replicas p)) \<Longrightarrow> distinct (map rp_node_id (cp_replicas (upsert_state node_id state p)))"
  by (auto simp: upsert_state_def node_is_def find_None_iff split: option.splits)

lemma upsert_state_id [simp]: "cp_content_id (upsert_state node_id state p) = cp_content_id p"
  by (simp add: upsert_state_def)

lemma snapshot_ok_placement:
  assumes "snapshot_ok s" "map_of (ms_placements s) cid = Some p"
  shows "cp_content_id p = cid" "distinct (map rp_node_id (cp_replicas p))"
  using assms by (auto simp: snapshot_ok_def placements_ok_def)

lemma put_placement_ok:
  assumes "snapshot_ok s" "map_of (ms_placements s) cid = Some p"
    and "cp_content_id q = cp_content_id p" "distinct (map rp_node_id (cp_replicas q))"
  shows "snapshot_ok (put_placement cid q s)"
proof (rule placements_only [OF assms(1)])
  show "bt_ok (ms_placements (put_placement cid q s))"
    using assms(1) by (simp add: put_placement_def snapshot_ok_def wf_namespace_def maps_ok_def)
  show "placements_ok (put_placement cid q s)"
    using assms by (auto simp: placements_ok_def put_placement_def snapshot_ok_def split: if_splits)
  show "dom (map_of (ms_placements (put_placement cid q s))) = dom (map_of (ms_placements s))"
    using assms(2) by (auto simp: put_placement_def split: if_splits)
qed (simp_all add: put_placement_def)

lemma set_replica_state_ok:
  assumes "snapshot_ok s"
  shows "snapshot_ok (set_replica_state cid node_id state s)"
proof (rule placements_only [OF assms])
  show "bt_ok (ms_placements (set_replica_state cid node_id state s))"
    using assms by (simp add: set_replica_state_def snapshot_ok_def wf_namespace_def maps_ok_def)
  show "placements_ok (set_replica_state cid node_id state s)"
    using assms by (auto simp: placements_ok_def set_replica_state_def snapshot_ok_def split: if_splits)
  show "dom (map_of (ms_placements (set_replica_state cid node_id state s))) = dom (map_of (ms_placements s))"
    by (auto simp: set_replica_state_def split: if_splits)
qed (simp_all add: set_replica_state_def)

subsection \<open>Steps of the namespace\<close>

lemma namespace_step_ok:
  assumes "snapshot_ok s" "wf_namespace s'" "is_content_live_referenced s' = is_content_live_referenced s"
    "ms_retentions s' = ms_retentions s" "ms_placements s' = ms_placements s"
  shows "snapshot_ok s'"
  using assms by (simp add: snapshot_ok_def retention_ok_def placements_ok_def)

lemma create_edit_live:
  assumes "wf_namespace s" "new \<notin> dom (map_of (ms_files s))" "create_edit new ps n now touched s = Inr (r, s')"
  shows "is_content_live_referenced s' = is_content_live_referenced s"
  using assms(3)
proof (rule create_edit_Inr)
  fix p assume s': "s' = touch_directory touched p (s\<lparr>ms_files := bt_insert new
             \<lparr>fm_id = new, fm_size = 0, fm_generation = 1, fm_created_at_millis = now,
              fm_modified_at_millis = now, fm_manifest = None, fm_write_lease = None\<rparr>
             (ms_files s),
       ms_entries := ms_entries s @ [\<lparr>ne_parent = p, ne_name = n, ne_target = FileTarget new\<rparr>]\<rparr>)"
  have ok: "bt_ok (ms_files s)" "bt_ok (ms_files s')"
    using wf_maps [OF assms(1)] by (simp_all add: s' maps_ok_def)
  show ?thesis
  proof (rule ext)
    fix c
    have new: "map_of (ms_files s') new = Some m \<Longrightarrow> c \<notin> set (file_chunk_ids m)"
      and old: "g \<noteq> new \<Longrightarrow> map_of (ms_files s') g = map_of (ms_files s) g" for g m
      by (auto simp: s' file_chunk_ids_def)
    have "map_of (ms_files s) new = None" using assms(2) by auto
    then show "is_content_live_referenced s' c = is_content_live_referenced s c"
      unfolding live_iff [OF ok(1)] live_iff [OF ok(2)] using new old by (metis option.distinct(1))
  qed
qed

lemma mkdir_edit_keeps_sel:
  "mkdir_edit new ps n now touched s = Inr (r, s') \<Longrightarrow>
     ms_files s' = ms_files s \<and> ms_retentions s' = ms_retentions s \<and> ms_placements s' = ms_placements s"
  by (erule mkdir_edit_Inr) simp

lemma create_edit_keeps_sel:
  "create_edit new ps n now touched s = Inr (r, s') \<Longrightarrow>
     ms_retentions s' = ms_retentions s \<and> ms_placements s' = ms_placements s"
  by (erule create_edit_Inr) simp

lemma rename_edit_keeps_sel:
  assumes "wf_namespace s" "rename_edit fp fn tp tn t1 t2 s = Some (Inr (r, s'))"
  shows "ms_files s' = ms_files s \<and> ms_retentions s' = ms_retentions s \<and> ms_placements s' = ms_placements s"
  by (rule rename_edit_cases [OF assms(1), of fp fn tp tn t1 t2]) (use assms(2) in auto)

lemma remove_edit_ok:
  assumes "snapshot_ok s" "remove_edit ps n touched s = Inr (r, s')"
  shows "snapshot_ok s'"
  using assms(2)
proof (rule remove_edit_Inr)
  fix p i
  let ?t = "ne_target (ms_entries s ! i)"
  assume s': "s' = touch_directory touched p ((drop_target ?t s)\<lparr>ms_entries := remove_at i (ms_entries s)\<rparr>)"
  have wf: "wf_namespace s" and ret: "retention_ok s" and pl: "placements_ok s"
    using assms(1) by (simp_all add: snapshot_ok_def)
  have "bt_ok (ms_files s)" using wf_maps [OF wf] by (simp add: maps_ok_def)
  then have "retention_ok (drop_target ?t s)"
    using ret remove_file_retention
    by (auto simp: drop_target_def retention_ok_cong [of "s\<lparr>ms_directories := _\<rparr>" s] split: namespace_target.splits)
  then have "retention_ok s'" by (simp add: s' cong: retention_ok_cong)
  moreover have "placements_ok s'" using pl by (simp add: placements_ok_def s')
  ultimately show ?thesis using remove_edit_wf [OF wf assms(2)] by (simp add: snapshot_ok_def)
qed

lemma snapshot_ok_revision [simp]: "snapshot_ok (s\<lparr>ms_revision := v\<rparr>) = snapshot_ok s"
  by (simp add: snapshot_ok_def placements_ok_def retention_ok_cong [of "s\<lparr>ms_revision := v\<rparr>" s])

lemma commit_step_ok: "commit_step s s' \<Longrightarrow> snapshot_ok s \<Longrightarrow> snapshot_ok s'"
proof (induction rule: commit_step.induct)
  case (step_mkdir name new s parents now touched r s')
  then have wf: "wf_namespace s" by (simp add: snapshot_ok_def)
  show ?case
    using mkdir_edit_wf [OF wf step_mkdir(1-3)] mkdir_edit_keeps_sel [OF step_mkdir(3)] step_mkdir(4)
    by (intro namespace_step_ok [OF step_mkdir(4)] live_cong) simp_all
next
  case (step_create name new s parents now touched r s')
  then have wf: "wf_namespace s" by (simp add: snapshot_ok_def)
  show ?case
    using create_edit_wf [OF wf step_create(1-3)] create_edit_keeps_sel [OF step_create(3)] step_create(4)
      create_edit_live [OF wf step_create(2,3)]
    by (intro namespace_step_ok [OF step_create(4)]) simp_all
next
  case (step_rename tn fp fn tp t1 t2 s u s')
  then have wf: "wf_namespace s" by (simp add: snapshot_ok_def)
  show ?case
    using rename_edit_wf [OF wf step_rename(1,2)] rename_edit_keeps_sel [OF wf step_rename(2)] step_rename(3)
    by (intro namespace_step_ok [OF step_rename(3)] live_cong) simp_all
next
  case (step_remove parents name touched s u s')
  then show ?case by (rule remove_edit_ok [rotated])
next
  case (step_write desired source cid f data expected now s out s')
  then show ?case by (rule write_edit_keeps [rotated])
next
  case (step_mark s cid node_id state)
  then show ?case by (rule set_replica_state_ok)
next
  case (step_refresh s cid p states)
  show ?case
    by (rule put_placement_ok [OF step_refresh(2,1)])
       (simp_all add: snapshot_ok_placement [OF step_refresh(2,1)])
next
  case (step_upsert s cid p node_id state)
  show ?case
    by (rule put_placement_ok [OF step_upsert(2,1)])
       (simp_all add: upsert_state_nodes snapshot_ok_placement [OF step_upsert(2,1)])
qed

lemma snapshot_ok_default: "snapshot_ok metadata_snapshot_default"
  unfolding snapshot_ok_def
  by (simp add: wf_default)
     (simp add: retention_ok_def placements_ok_def metadata_snapshot_default_def is_content_live_referenced_def)

subsection \<open>Calls on a shared store\<close>

definition store_ok :: "(metadata_snapshot \<Rightarrow> bool) \<Rightarrow> shared_metadata \<Rightarrow> bool" where
  "store_ok P s \<longleftrightarrow> shared_ok s \<and> P (shared_view s) \<and> others_keep P s"

lemma store_ok_others: "store_ok P s \<Longrightarrow> others_step s t \<Longrightarrow> store_ok P t"
  using shm.others_ok others_step_keep by (auto simp: store_ok_def)

lemma store_load:
  assumes "store_ok P s" "shared_load s = (r, t)"
  shows "store_ok P t" "r = Inr x \<Longrightarrow> shared_view t = x \<and> P x"
proof -
  have ok: "shared_ok s" using assms(1) by (simp add: store_ok_def)
  show t: "store_ok P t" using store_ok_others [OF assms(1) shm.load_others [OF ok assms(2)]] .
  show "r = Inr x \<Longrightarrow> shared_view t = x \<and> P x"
    using shm.load_view [OF ok] assms(2) t by (auto simp: store_ok_def)
qed

lemma store_cas:
  assumes ok: "store_ok P t" and rev: "ms_revision y = ms_revision (shared_view t)"
    and keep: "\<And>v. P (y\<lparr>ms_revision := v\<rparr>)" and cas: "shared_cas y t = (r, u)"
  shows "store_ok P u"
proof -
  let ?v = "run_others t"
  have v: "store_ok P ?v" using store_ok_others [OF ok run_others_step] .
  have pend: "shared_pending u = shared_pending ?v"
    using cas by (auto simp: shared_cas_eq Let_def shared_pending_def)
  have "shared_view u = shared_view ?v \<or> (\<exists>x. shared_view u = y\<lparr>ms_revision := x\<rparr>)"
    using cas by (auto simp: shared_cas_eq Let_def in_memory_cas_def shared_view_def split: if_splits)
  then show ?thesis
    using v keep pend by (auto simp: store_ok_def shared_ok_def others_keep_def)
qed

lemma store_cas_lost:
  assumes "store_ok P t" "shared_cas y t = (Inl e, u)"
  shows "store_ok P u"
proof -
  have "u = run_others t"
    using assms(2) by (auto simp: shared_cas_eq Let_def in_memory_cas_def split: if_splits)
  then show ?thesis using store_ok_others [OF assms(1) run_others_step] by simp
qed

lemma store_cas_won:
  assumes "store_ok P t" "others_keep R t" "shared_cas y t = (Inr v, u)" "\<And>x. R (y\<lparr>ms_revision := x\<rparr>)"
  shows "store_ok R u"
proof -
  have "shared_pending u = shared_pending (run_others t)" "\<exists>x. shared_view u = y\<lparr>ms_revision := x\<rparr>"
    using assms(3) by (auto simp: shared_cas_eq Let_def in_memory_cas_def shared_view_def shared_pending_def
        split: if_splits)
  moreover have "set (shared_pending (run_others t)) \<subseteq> set (shared_pending t)"
    by (auto simp: run_others_def shared_pending_def split: list.splits)
  moreover have "shared_ok (run_others t)"
    using store_ok_others [OF assms(1) run_others_step] by (simp add: store_ok_def)
  ultimately show ?thesis
    using assms(2,4) by (auto simp: store_ok_def shared_ok_def others_keep_def)
qed

text \<open>
  A mutation that runs while every visible snapshot satisfies \<open>P\<close>, and whose edit leads from
  \<open>P\<close> to \<open>R\<close>, ends in \<open>R\<close>.
\<close>

lemma store_retry:
  assumes edit: "\<And>k x q y. P x \<Longrightarrow> operation k x = Some (Inr (q, y)) \<Longrightarrow> (\<forall>v. R (y\<lparr>ms_revision := v\<rparr>))"
    and PR: "\<And>x. P x \<Longrightarrow> R x"
    and "store_ok P s" "others_keep R s" "retry_from shared_ops i n operation s = Some (r, t)"
  shows "store_ok R t"
  using assms(3-5)
proof (induction n arbitrary: i s)
  case 0
  then show ?case using PR by (auto simp: store_ok_def)
next
  case (Suc n)
  obtain ldr s1 where ld: "shared_load s = (ldr, s1)" by (cases "shared_load s")
  have ok: "shared_ok s" using Suc.prems(1) by (simp add: store_ok_def)
  note s1 = store_load [OF Suc.prems(1) ld]
  have keepR: "others_keep R u" if "others_step s1 u \<or> u = s1" for u
    using that shm.load_others [OF ok ld] Suc.prems(2)
    by (auto simp: others_step_def others_keep_def)
  show ?case
  proof (cases "\<exists>x q y. ldr = Inr x \<and> operation i x = Some (Inr (q, y))")
    case False
    with Suc.prems(3) ld have "t = s1"
      by (cases ldr) (auto split: option.splits sum.splits)
    with s1(1) keepR PR show ?thesis by (auto simp: store_ok_def)
  next
    case True
    then obtain x q y where x: "ldr = Inr x" "operation i x = Some (Inr (q, y))" by blast
    obtain cr s2 where sw: "shared_cas y s1 = (cr, s2)" by (cases "shared_cas y s1")
    show ?thesis
    proof (cases cr)
      case (Inr v)
      have "store_ok R s2"
        using edit [OF _ x(2)] s1(2) [OF x(1)] keepR
        by (intro store_cas_won [OF s1(1) _ sw [unfolded Inr]]) auto
      with Suc.prems(3) ld x sw Inr show ?thesis by simp
    next
      case (Inl e)
      have s2: "store_ok P s2" using store_cas_lost [OF s1(1) sw [unfolded Inl]] .
      have "s2 = run_others s1"
        using sw Inl by (auto simp: shared_cas_eq Let_def in_memory_cas_def split: if_splits)
      then have "others_keep R s2" using keepR run_others_step by blast
      with s2 Suc.prems(3) Suc.IH [OF s2] PR ld x sw Inl show ?thesis
        by (auto simp: store_ok_def split: if_splits)
    qed
  qed
qed

lemma store_mark:
  "store_ok snapshot_ok s \<Longrightarrow> store_ok snapshot_ok (mark_replica_from shared_ops n cid node_id state s)"
proof (induction n arbitrary: s)
  case (Suc n)
  obtain ldr s1 where ld: "shared_load s = (ldr, s1)" by (cases "shared_load s")
  note s1 = store_load [OF Suc.prems ld]
  show ?case
  proof (cases ldr)
    case (Inr x)
    obtain cr s2 where sw: "shared_cas (set_replica_state cid node_id state x) s1 = (cr, s2)"
      by (cases "shared_cas (set_replica_state cid node_id state x) s1")
    have "store_ok snapshot_ok s2"
      using s1(2) [OF Inr] by (intro store_cas [OF s1(1) _ _ sw])
        (auto simp: set_replica_state_ok, simp add: set_replica_state_def)
    with s1(1) Suc.IH ld Inr sw show ?thesis by (auto split: option.splits sum.splits)
  qed (use ld s1 in simp)
qed simp

definition world_ok :: "(shared_metadata, 'c) world \<Rightarrow> bool" where
  "world_ok w \<longleftrightarrow> store_ok snapshot_ok (w_metadata w)"

lemma world_ok_simps [simp]:
  "world_ok (w\<lparr>w_contents := c\<rparr>) = world_ok w"
  "world_ok (w_emit e w) = world_ok w"
  "world_ok (fold w_emit es w) = world_ok w"
  "world_ok (w\<lparr>w_metadata := s\<rparr>) = store_ok snapshot_ok s"
  by (simp_all add: world_ok_def)

lemma world_ok_contents: "world_ok w \<Longrightarrow> on_contents m w = (r, w') \<Longrightarrow> world_ok w'"
  by (auto simp: on_contents_iff)

lemma world_ok_load:
  assumes "world_ok w" "on_metadata shared_load w = (r, w')"
  shows "world_ok w'" "r = Inr x \<Longrightarrow> shared_view (w_metadata w') = x \<and> snapshot_ok x"
  using assms store_load [of snapshot_ok "w_metadata w" r] by (auto simp: on_metadata_iff world_ok_def)

lemma commit_step_revision: "commit_step s s' \<Longrightarrow> ms_revision s' = ms_revision s"
  by (cases rule: commit_step.cases)
     (auto dest: edit_revision elim!: write_edit_Inr simp: set_replica_state_def put_placement_def)

lemma world_ok_cas:
  assumes "world_ok w" "commit_step (shared_view (w_metadata w)) y" "on_metadata (shared_cas y) w = (r, w')"
  shows "world_ok w'"
proof -
  from assms(3) obtain u where u: "shared_cas y (w_metadata w) = (r, u)" "w' = w\<lparr>w_metadata := u\<rparr>"
    by (auto simp: on_metadata_iff)
  have "snapshot_ok y" using commit_step_ok assms(1,2) by (auto simp: world_ok_def store_ok_def)
  with store_cas [OF _ commit_step_revision [OF assms(2)] _ u(1)] assms(1) u(2) show ?thesis
    by (simp add: world_ok_def)
qed

lemma world_ok_mark:
  "fs_metadata svc = shared_ops \<Longrightarrow> world_ok w \<Longrightarrow> world_ok (mark_replica svc cid n st w)"
  by (simp add: mark_replica_def world_ok_def store_mark)

lemma world_ok_resolve:
  assumes "world_ok w" "on_metadata (resolve shared_ops path) w = (r, w')"
  shows "world_ok w'"
proof -
  from assms(2) obtain s where s: "resolve shared_ops path (w_metadata w) = (r, s)" "w' = w\<lparr>w_metadata := s\<rparr>"
    by (auto simp: on_metadata_iff)
  then have "s = w_metadata w \<or> (\<exists>q. shared_load (w_metadata w) = (q, s))"
    by (auto simp: resolve_def op_bind_def split: prod.splits sum.splits)
  with assms(1) s(2) show ?thesis using store_load(1) by (auto simp: world_ok_def)
qed

subsection \<open>Operations that keep the world well formed\<close>

definition keeps :: "((shared_metadata, 'c) world, 'e, 'a) op \<Rightarrow> bool" where
  "keeps m \<longleftrightarrow> (\<forall>w r w'. world_ok w \<longrightarrow> m w = (r, w') \<longrightarrow> world_ok w')"

lemma keepsD: "keeps m \<Longrightarrow> world_ok w \<Longrightarrow> m w = (r, w') \<Longrightarrow> world_ok w'"
  by (auto simp: keeps_def)

lemma keeps_bind: "keeps m \<Longrightarrow> (\<And>x. keeps (f x)) \<Longrightarrow> keeps (op_bind m f)"
  unfolding keeps_def by (intro allI impI) (erule op_bind_cases, blast+)

lemma keeps_load: "keeps (on_metadata shared_load)"
  by (auto simp: keeps_def dest: world_ok_load(1))

lemma keeps_resolve: "keeps (on_metadata (resolve shared_ops path))"
  by (auto simp: keeps_def dest: world_ok_resolve)

lemma keeps_contents: "keeps (on_contents m)"
  by (auto simp: keeps_def dest: world_ok_contents)

lemma keeps_lift: "keeps (op_lift r)" "keeps (\<lambda>w. op_lift (g w) w)"
  by (simp_all add: keeps_def)

lemma keeps_emit: "keeps (op_modify (w_emit e))" "keeps (op_modify (fold w_emit es))"
  by (auto simp: keeps_def)

lemma keeps_if: "keeps m \<Longrightarrow> keeps m' \<Longrightarrow> keeps (if b then m else m')"
  by simp

lemmas keeps_intros = keeps_bind keeps_load keeps_resolve keeps_contents keeps_lift keeps_emit keeps_if

lemma keeps_edit:
  assumes "\<And>x out y. snapshot_ok x \<Longrightarrow> edit x = Inr (out, y) \<Longrightarrow> commit_step x y"
    and "\<And>out. keeps (h out)"
  shows "keeps (op_bind (on_metadata shared_load) (\<lambda>x. op_bind (op_lift (edit x))
    (\<lambda>(out, y). op_bind (on_metadata (shared_cas y)) (\<lambda>_. h out))))"
  unfolding keeps_def
proof (intro allI impI)
  fix w r w'
  assume w: "world_ok w"
    and run: "op_bind (on_metadata shared_load) (\<lambda>x. op_bind (op_lift (edit x))
      (\<lambda>(out, y). op_bind (on_metadata (shared_cas y)) (\<lambda>_. h out))) w = (r, w')"
  obtain ldr w1 where ld: "on_metadata shared_load w = (ldr, w1)" by fastforce
  note w1 = world_ok_load [OF w ld]
  show "world_ok w'"
  proof (cases "\<exists>x out y. ldr = Inr x \<and> edit x = Inr (out, y)")
    case True
    then obtain x out y where x: "ldr = Inr x" "edit x = Inr (out, y)" by blast
    obtain cr w2 where sw: "on_metadata (shared_cas y) w1 = (cr, w2)" by fastforce
    have "world_ok w2" using w1(2) [OF x(1)] assms(1) [OF _ x(2)] by (intro world_ok_cas [OF w1(1) _ sw]) auto
    with run ld x sw keepsD [OF assms(2)] show ?thesis by (cases cr) auto
  next
    case False
    with run ld w1(1) show ?thesis by (cases ldr) (auto elim!: op_bind_cases)
  qed
qed

lemma keeps_write:
  assumes "fs_metadata svc = shared_ops"
  shows "keeps (svc_write svc now path data expected source)"
  unfolding svc_write_def assms shared_ops_sel
  by (intro keeps_bind [OF keeps_resolve] keeps_bind [OF keeps_lift(1)] keeps_bind [OF keeps_contents]
      keeps_edit keeps_intros) (rule step_write)

lemma keeps_read_replicas:
  "fs_metadata svc = shared_ops \<Longrightarrow> world_ok w \<Longrightarrow> read_replicas svc sha256 cid rs w = (r, w') \<Longrightarrow> world_ok w'"
proof (induction rs arbitrary: w)
  case (Cons x rs)
  note mark = world_ok_mark [OF Cons.prems(1)] and IH = Cons.IH [OF Cons.prems(1), rotated]
  show ?case
  proof (cases "registry_node (w_registry w) (rp_node_id x)")
    case (Inl e)
    with Cons.prems show ?thesis by (auto simp: Let_def intro: IH mark world_ok_simps(2) [THEN iffD2])
  next
    case (Inr node)
    obtain g w1 where g: "on_contents (\<lambda>reg. get_from reg (rp_node_id x) cid) w = (g, w1)" by fastforce
    have w1: "world_ok w1" using world_ok_contents [OF Cons.prems(2) g] .
    show ?thesis
    proof (cases "sn_online node")
      case False
      with Inr Cons.prems show ?thesis by (auto simp: Let_def intro: IH mark world_ok_simps(2) [THEN iffD2])
    next
      case True
      with Inr Cons.prems g show ?thesis
        by (cases g) (auto simp: Let_def intro: IH mark w1 world_ok_simps(2) [THEN iffD2] split: if_splits)
    qed
  qed
qed simp

lemma keeps_read_chunks:
  "fs_metadata svc = shared_ops \<Longrightarrow> world_ok w \<Longrightarrow> read_chunks svc sha256 snapshot cks acc w = (r, w') \<Longrightarrow> world_ok w'"
proof (induction cks arbitrary: acc w)
  case (Cons chunk rest)
  show ?case
  proof (cases "map_of (ms_placements snapshot) (cr_content_id chunk)")
    case (Some p)
    obtain x w1 where x: "read_replicas svc sha256 (cr_content_id chunk) (cp_replicas p) w = (x, w1)" by fastforce
    from Some x keeps_read_replicas [OF Cons.prems(1,2) x] Cons.prems Cons.IH [OF Cons.prems(1), of w1] show ?thesis
      by (cases x) simp_all
  qed (use Cons.prems in simp)
qed simp

lemma keeps_read:
  assumes "fs_metadata svc = shared_ops"
  shows "keeps (svc_read svc sha256 path)"
proof -
  have "keeps (read_chunks svc sha256 snapshot cks acc)" for snapshot cks acc
    using keeps_read_chunks [OF assms] by (auto simp: keeps_def)
  then have "keeps (case x of None \<Rightarrow> op_lift (Inr []) | Some m \<Rightarrow> read_chunks svc sha256 snapshot (cm_chunks m) [])"
    for x snapshot
    by (cases x) (simp_all add: keeps_lift)
  then show ?thesis
    unfolding svc_read_def read_internal_def assms shared_ops_sel by (intro keeps_intros)
qed

subsection \<open>The reconciler keeps it\<close>

lemma keeps_probe: "keeps (probe_store sha256 cid node_id)"
proof -
  have "keeps (\<lambda>w. case on_contents (\<lambda>_. cs_get store cid) w of
           (Inr bs, w1) \<Rightarrow>
             if matches sha256 cid bs then (Inr Healthy, w1)
             else (Inr Corrupted, w_emit (ReplicaCorrupted cid node_id) w1)
         | (Inl e, w1) \<Rightarrow> (if e = ContentUnavailable then Inr Missing else Inl e, w1))" for store
    unfolding keeps_def
    by (auto split: prod.splits sum.splits if_splits dest: world_ok_contents)
  then show ?thesis unfolding probe_store_def by (intro keeps_intros)
qed

lemma keeps_refresh_states:
  "world_ok w \<Longrightarrow> refresh_replica_states sha256 cid rs w = (r, w') \<Longrightarrow> world_ok w'"
proof (induction rs arbitrary: w r)
  case (Cons x rs)
  let ?checked = "case registry_node (w_registry w) (rp_node_id x) of
              Inl _ \<Rightarrow> (Inr Missing, w)
            | Inr node \<Rightarrow>
                if \<not> sn_online node then (Inr (offline_state (rp_state x)), w)
                else probe_store sha256 cid (rp_node_id x) w"
  obtain cr w1 where c: "?checked = (cr, w1)" by fastforce
  then have w1: "world_ok w1"
    using Cons.prems(1) keepsD [OF keeps_probe, of w] by (auto split: sum.splits if_splits)
  from Cons.prems(2) c show ?case
  proof (cases cr)
    case (Inl e)
    with Cons.prems(2) c w1 show ?thesis by simp
  next
    case (Inr st)
    with Cons.prems(2) c have "op_bind (refresh_replica_states sha256 cid rs)
        (\<lambda>states. op_lift (Inr ((rp_node_id x, st) # states))) w1 = (r, w')" by simp
    then show ?thesis by (rule op_bind_cases) (use Cons.IH [OF w1] in auto)
  qed
qed simp

lemma probe_keeps_metadata: "probe_store sha256 cid node_id w = (r, w') \<Longrightarrow> w_metadata w' = w_metadata w"
  unfolding probe_store_def
  by (auto elim!: op_bind_cases simp: on_contents_iff split: if_splits prod.splits sum.splits)

lemma refresh_keeps_metadata:
  "refresh_replica_states sha256 cid rs w = (r, w') \<Longrightarrow> w_metadata w' = w_metadata w"
proof (induction rs arbitrary: w r)
  case (Cons x rs)
  let ?checked = "case registry_node (w_registry w) (rp_node_id x) of
              Inl _ \<Rightarrow> (Inr Missing, w)
            | Inr node \<Rightarrow>
                if \<not> sn_online node then (Inr (offline_state (rp_state x)), w)
                else probe_store sha256 cid (rp_node_id x) w"
  obtain cr w1 where c: "?checked = (cr, w1)" by fastforce
  then have w1: "w_metadata w1 = w_metadata w"
    using probe_keeps_metadata by (auto split: sum.splits if_splits)
  show ?case
  proof (cases cr)
    case (Inl e)
    with Cons.prems c w1 show ?thesis by simp
  next
    case (Inr st)
    with Cons.prems c have "op_bind (refresh_replica_states sha256 cid rs)
        (\<lambda>states. op_lift (Inr ((rp_node_id x, st) # states))) w1 = (r, w')" by simp
    then show ?thesis by (rule op_bind_cases) (use Cons.IH w1 in auto)
  qed
qed simp

lemma keeps_refresh_placement:
  assumes "rc_metadata rc = shared_ops"
  shows "world_ok w \<Longrightarrow> refresh_placement_from rc sha256 n cid w = (r, w') \<Longrightarrow> world_ok w'"
proof (induction n arbitrary: w)
  case (Suc n)
  obtain ldr w1 where ld: "on_metadata shared_load w = (ldr, w1)" by fastforce
  note w1 = world_ok_load [OF Suc.prems(1) ld]
  show ?case
  proof (cases "\<exists>x p. ldr = Inr x \<and> is_content_retained x cid \<and> map_of (ms_placements x) cid = Some p")
    case False
    with Suc.prems(2) ld w1 assms show ?thesis
      by (cases ldr) (auto split: if_splits option.splits)
  next
    case True
    then obtain x p where x: "ldr = Inr x" "is_content_retained x cid" "map_of (ms_placements x) cid = Some p"
      by blast
    obtain str w2 where st: "refresh_replica_states sha256 (cp_content_id p) (cp_replicas p) w1 = (str, w2)"
      by fastforce
    have w2: "world_ok w2" using keeps_refresh_states [OF w1(1) st] .
    show ?thesis
    proof (cases str)
      case (Inl e)
      with Suc.prems(2) ld x st w2 assms show ?thesis by simp
    next
      case (Inr states)
      let ?y = "put_placement cid (p\<lparr>cp_replicas := apply_states states (cp_replicas p)\<rparr>) x"
      obtain cr w3 where sw: "on_metadata (shared_cas ?y) w2 = (cr, w3)" by fastforce
      have same: "w_metadata w2 = w_metadata w1"
        using refresh_keeps_metadata [OF st] .
      have "world_ok w3"
        using w1(2) [OF x(1)] x(3) by (intro world_ok_cas [OF w2 _ sw]) (simp add: same step_refresh)
      with Suc ld x st Inr sw assms show ?thesis
        by (cases cr) (auto simp: Let_def split: if_splits)
    qed
  qed
qed simp

lemma keeps_mutate_placement:
  assumes "rc_metadata rc = shared_ops"
  shows "world_ok w \<Longrightarrow> mutate_placement_from rc n cid (upsert_state node_id state) w = (r, w') \<Longrightarrow> world_ok w'"
proof (induction n arbitrary: w)
  case (Suc n)
  obtain ldr w1 where ld: "on_metadata shared_load w = (ldr, w1)" by fastforce
  note w1 = world_ok_load [OF Suc.prems(1) ld]
  show ?case
  proof (cases "\<exists>x p. ldr = Inr x \<and> is_content_retained x cid \<and> map_of (ms_placements x) cid = Some p")
    case False
    with Suc.prems(2) ld w1 assms show ?thesis
      by (cases ldr) (auto split: if_splits option.splits)
  next
    case True
    then obtain x p where x: "ldr = Inr x" "is_content_retained x cid" "map_of (ms_placements x) cid = Some p"
      by blast
    obtain cr w2 where sw: "on_metadata (shared_cas (put_placement cid (upsert_state node_id state p) x)) w1 = (cr, w2)"
      by fastforce
    have "world_ok w2"
      using w1(2) [OF x(1)] x(3) by (intro world_ok_cas [OF w1(1) _ sw]) (simp add: step_upsert)
    with Suc ld x sw assms show ?thesis by (cases cr) (auto split: if_splits)
  qed
qed simp

lemma keeps_copy:
  assumes "rc_metadata rc = shared_ops"
  shows "keeps (copy_to rc cid source destination bs)"
proof -
  have "keeps (upsert_replica rc cid destination Healthy)"
    using keeps_mutate_placement [OF assms] by (auto simp: keeps_def upsert_replica_def mutate_placement_def)
  then show ?thesis unfolding copy_to_def by (intro keeps_intros)
qed

lemma keeps_find_source:
  "world_ok w \<Longrightarrow> find_source sha256 cid rs w = (x, w') \<Longrightarrow> world_ok w'"
proof (induction rs arbitrary: w)
  case (Cons y rs)
  then show ?case
    by (auto split: if_splits prod.splits sum.splits dest: world_ok_contents)
qed simp

lemma keeps_replicate:
  assumes "rc_metadata rc = shared_ops"
  shows "world_ok w \<Longrightarrow> replicate_to rc sha256 cid ds created w = (r, w') \<Longrightarrow> world_ok w'"
proof (induction ds arbitrary: w created)
  case (Cons d ds)
  obtain ldr w1 where ld: "on_metadata shared_load w = (ldr, w1)" by fastforce
  note w1 = world_ok_load(1) [OF Cons.prems(1) ld]
  show ?case
  proof (cases "\<exists>x p. ldr = Inr x \<and> is_content_retained x cid \<and> map_of (ms_placements x) cid = Some p \<and>
      \<not> list_ex (\<lambda>r. rp_node_id r = d \<and> replica_present r) (cp_replicas p)")
    case False
    with Cons.prems(2) ld w1 assms Cons.IH [OF w1] show ?thesis
      by (cases ldr) (auto split: if_splits option.splits)
  next
    case True
    then obtain x p where x: "ldr = Inr x" "is_content_retained x cid" "map_of (ms_placements x) cid = Some p"
      "\<not> list_ex (\<lambda>r. rp_node_id r = d \<and> replica_present r) (cp_replicas p)" by blast
    obtain src w2 where src: "find_source sha256 cid (cp_replicas p) w1 = (src, w2)" by fastforce
    have w2: "world_ok w2" using keeps_find_source [OF w1 src] .
    show ?thesis
    proof (cases src)
      case None
      with Cons.prems(2) ld x src w2 assms show ?thesis by simp
    next
      case (Some sb)
      obtain s bs where sb: "sb = (s, bs)" by (cases sb)
      obtain cr w3 where c: "copy_to rc cid s d bs w2 = (cr, w3)" by fastforce
      have "world_ok w3" using keepsD [OF keeps_copy [OF assms] w2 c] .
      with Cons.prems(2) ld x src Some sb c assms Cons.IH [of w3] show ?thesis
        by (cases cr) auto
    qed
  qed
qed simp

end
