(* ===== verification/System_Props.thy ===== *)
theory System_Props
  imports System
begin

section \<open>Every run of the filesystem keeps the invariant\<close>

text \<open>
  A run is any sequence of calls of service and reconciler methods on one world, with any results,
  while other clients commit edits of their own between any two accesses to the metadata.
\<close>

lemma keeps_reconcile_content:
  assumes "rc_metadata rc = shared_ops"
  shows "keeps (reconcile_content rc sha256 cid)"
proof -
  have size: "keeps (on_metadata (\<lambda>s. let (n, s1) = content_size shared_ops cid s in (Inr n, s1)))"
    unfolding keeps_def
    by (auto simp: on_metadata_iff content_size_def world_ok_def split: prod.splits sum.splits dest: store_load(1))
  have refresh: "keeps (refresh_current_placement rc sha256 cid)"
    using keeps_refresh_placement [OF assms] by (auto simp: keeps_def refresh_current_placement_def)
  have copies: "keeps (replicate_to rc sha256 cid ds n)" for ds n
    using keeps_replicate [OF assms] by (auto simp: keeps_def)
  have opt: "keeps (case x of None \<Rightarrow> op_lift (Inr 0) | Some p \<Rightarrow> h p)" if "\<And>p. keeps (h p)"
    for x and h :: "content_placement \<Rightarrow> ((shared_metadata, 'a) world, filesystem_error, nat) op"
    using that by (cases x) (simp_all add: keeps_lift)
  show ?thesis
    unfolding reconcile_content_def assms shared_ops_sel Let_def
    by (intro keeps_intros refresh copies size opt [unfolded Let_def] size [unfolded Let_def])
qed

lemma keeps_reconcile_all:
  assumes "rc_metadata rc = shared_ops"
  shows "keeps (reconcile_all rc sha256 cids report)"
proof (induction cids arbitrary: report)
  case Nil
  then show ?case by (auto simp: keeps_def)
next
  case (Cons cid cids)
  have eq: "reconcile_all rc sha256 (cid # cids) report =
     op_bind (reconcile_content rc sha256 cid) (\<lambda>created.
     op_bind (on_metadata (md_load (rc_metadata rc))) (\<lambda>snapshot.
       let degraded = is_content_retained snapshot cid \<and>
             (case map_of (ms_placements snapshot) cid of None \<Rightarrow> False | Some p \<Rightarrow> durability p = DurDegraded)
       in reconcile_all rc sha256 cids
            \<lparr>rr_replicas_created = rr_replicas_created report + created,
             rr_degraded_contents = rr_degraded_contents report @ (if degraded then [cid] else [])\<rparr>))"
    by (rule ext) simp
  show ?case
    unfolding eq assms shared_ops_sel Let_def
    by (intro keeps_bind keeps_reconcile_content [OF assms] keeps_load Cons.IH)
qed

lemma keeps_reconcile:
  assumes "rc_metadata rc = shared_ops"
  shows "keeps (reconcile rc sha256)"
  unfolding reconcile_def assms shared_ops_sel
  by (intro keeps_bind keeps_load keeps_reconcile_all [OF assms])

lemma keeps_loads:
  "keeps (on_metadata (stat shared_ops path))"
  "keeps (on_metadata (list_directory shared_ops path))"
  unfolding keeps_def
  by (auto simp: on_metadata_iff stat_def list_directory_def world_ok_def op_bind_def
      split: prod.splits sum.splits dest: store_load(1))

subsection \<open>Namespace mutations\<close>

lemma commit_step_keeps: "snapshot_ok x \<Longrightarrow> commit_step x y \<Longrightarrow> snapshot_ok (y\<lparr>ms_revision := v\<rparr>)"
  using commit_step_ok by simp

lemma namespace_keeps:
  assumes "retry_mutation shared_ops operation s = Some (r, t)"
    and "store_ok P s" "others_keep snapshot_ok s" "\<And>x. P x \<Longrightarrow> snapshot_ok x"
    and "\<And>k x q y. P x \<Longrightarrow> operation k x = Some (Inr (q, y)) \<Longrightarrow> commit_step x y"
  shows "store_ok snapshot_ok t"
proof (rule store_retry [OF _ assms(4,2,3)])
  show "retry_from shared_ops 0 8 operation s = Some (r, t)"
    using assms(1) by (simp add: retry_mutation_def)
  show "\<forall>v. snapshot_ok (y\<lparr>ms_revision := v\<rparr>)"
    if "P x" "operation k x = Some (Inr (q, y))" for k x q y
    using commit_step_keeps [OF assms(4) [OF that(1)] assms(5) [OF that]] by blast
qed

lemma split_path_cases:
  obtains (bad) e where "res_bind (fs_path_parse path) split_parent = Inl e"
    | (good) ps n where "res_bind (fs_path_parse path) split_parent = Inr (ps, n)" "valid_component n"
  using parse_split_Inr [of path] by (cases "res_bind (fs_path_parse path) split_parent") auto

definition ok_new_dir :: "directory_id \<Rightarrow> metadata_snapshot \<Rightarrow> bool" where
  "ok_new_dir new x \<longleftrightarrow> snapshot_ok x \<and> new \<notin> dom (map_of (ms_directories x))"

definition ok_new_file :: "file_id \<Rightarrow> metadata_snapshot \<Rightarrow> bool" where
  "ok_new_file new x \<longleftrightarrow> snapshot_ok x \<and> new \<notin> dom (map_of (ms_files x))"

lemma mkdir_keeps:
  assumes "store_ok (ok_new_dir new) s" "others_keep snapshot_ok s" "mkdir shared_ops clk new path s = Some (r, t)"
  shows "store_ok snapshot_ok t"
proof (cases rule: split_path_cases [of path])
  case bad
  with assms show ?thesis by (auto simp: mkdir_def store_ok_def ok_new_dir_def)
next
  case (good ps n)
  then have "retry_mutation shared_ops (\<lambda>k s. Some (mkdir_edit new ps n (clk k 0) (clk k 1) s)) s = Some (r, t)"
    using assms(3) by (simp add: mkdir_def del: res_bind_eq_Inr)
  then show ?thesis
    by (rule namespace_keeps [OF _ assms(1,2)]) (auto simp: ok_new_dir_def intro: step_mkdir [OF good(2)])
qed

lemma create_keeps:
  assumes "store_ok (ok_new_file new) s" "others_keep snapshot_ok s" "create shared_ops clk new path s = Some (r, t)"
  shows "store_ok snapshot_ok t"
proof (cases rule: split_path_cases [of path])
  case bad
  with assms show ?thesis by (auto simp: create_def store_ok_def ok_new_file_def)
next
  case (good ps n)
  then have "retry_mutation shared_ops (\<lambda>k s. Some (create_edit new ps n (clk k 0) (clk k 1) s)) s = Some (r, t)"
    using assms(3) by (simp add: create_def del: res_bind_eq_Inr)
  then show ?thesis
    by (rule namespace_keeps [OF _ assms(1,2)]) (auto simp: ok_new_file_def intro: step_create [OF good(2)])
qed

lemma store_ok_keep: "store_ok P s \<Longrightarrow> others_keep P s"
  by (simp add: store_ok_def)

lemma remove_keeps:
  assumes "store_ok snapshot_ok s" "remove shared_ops clk path s = Some (r, t)"
  shows "store_ok snapshot_ok t"
proof (cases rule: split_path_cases [of path])
  case bad
  with assms show ?thesis by (auto simp: remove_def)
next
  case (good ps n)
  then have "retry_mutation shared_ops (\<lambda>k s. Some (remove_edit ps n (clk k 0) s)) s = Some (r, t)"
    using assms(2) by (simp add: remove_def del: res_bind_eq_Inr)
  then show ?thesis
    by (rule namespace_keeps [OF _ assms(1) store_ok_keep [OF assms(1)]]) (auto intro: step_remove)
qed

lemma rename_keeps:
  assumes "store_ok snapshot_ok s" "rename shared_ops clk from to s = Some (r, t)"
  shows "store_ok snapshot_ok t"
proof (cases "res_bind (fs_path_parse from) (\<lambda>f. res_bind (fs_path_parse to) (\<lambda>t.
            res_bind (split_parent f) (\<lambda>fs. res_bind (split_parent t) (\<lambda>ts. Inr (fs, ts)))))")
  case (Inl e)
  with assms show ?thesis by (simp add: rename_def del: res_bind_eq_Inl)
next
  case (Inr ft)
  obtain fp fn tp tn where ft: "ft = ((fp, fn), (tp, tn))" by (metis prod.exhaust)
  have valid: "valid_component tn"
    using Inr ft fs_path_parse_components(1) [of to "tp @ [tn]"] by auto
  have "retry_mutation shared_ops (\<lambda>k. rename_edit fp fn tp tn (clk k 0) (clk k 1)) s = Some (r, t)"
    using assms(2) Inr ft by (simp add: rename_def del: res_bind_eq_Inr)
  then show ?thesis
    by (rule namespace_keeps [OF _ assms(1) store_ok_keep [OF assms(1)]]) (auto intro: step_rename [OF valid])
qed

subsection \<open>Runs\<close>

inductive service_call ::
    "shared_metadata filesystem_service \<Rightarrow> hash_function
     \<Rightarrow> (shared_metadata, 'c) world \<Rightarrow> (shared_metadata, 'c) world \<Rightarrow> bool"
  for svc :: "shared_metadata filesystem_service" and sha256 :: hash_function where
  call_mkdir: "store_ok (ok_new_dir new) (w_metadata w) \<Longrightarrow>
    svc_mkdir svc clk new path w = Some (r1, w') \<Longrightarrow> service_call svc sha256 w w'"
| call_create: "store_ok (ok_new_file newf) (w_metadata w) \<Longrightarrow>
    svc_create svc clk newf path w = Some (r2, w') \<Longrightarrow> service_call svc sha256 w w'"
| call_rename: "svc_rename svc clk from to w = Some (r3, w') \<Longrightarrow> service_call svc sha256 w w'"
| call_remove: "svc_remove svc clk path w = Some (r4, w') \<Longrightarrow> service_call svc sha256 w w'"
| call_stat: "svc_stat svc path w = (r5, w') \<Longrightarrow> service_call svc sha256 w w'"
| call_list: "svc_list svc path w = (r6, w') \<Longrightarrow> service_call svc sha256 w w'"
| call_write: "svc_write svc now path data expected source w = (r7, w') \<Longrightarrow> service_call svc sha256 w w'"
| call_read: "svc_read svc sha256 path w = (r8, w') \<Longrightarrow> service_call svc sha256 w w'"
| call_read_from: "svc_read_from svc sha256 path node_id w = (r9, w') \<Longrightarrow> service_call svc sha256 w w'"
| call_placement: "placement_for_path svc path w = (r10, w') \<Longrightarrow> service_call svc sha256 w w'"
| call_reconcile: "reconcile (reconciler svc) sha256 w = (r11, w') \<Longrightarrow> service_call svc sha256 w w'"
| call_node: "registry_set_online node_id online (w_registry w) = (r12, reg) \<Longrightarrow>
    service_call svc sha256 w (w\<lparr>w_registry := reg\<rparr>)"
| call_media: "service_call svc sha256 w (w\<lparr>w_contents := c\<rparr>)"

lemma keeps_placement_for_path:
  assumes "fs_metadata svc = shared_ops"
  shows "keeps (placement_for_path svc path)"
  unfolding placement_for_path_def assms shared_ops_sel by (intro keeps_intros)

lemma keeps_stat_list:
  assumes "fs_metadata svc = shared_ops"
  shows "keeps (svc_stat svc path)" "keeps (svc_list svc path)"
  unfolding svc_stat_def svc_list_def assms using keeps_loads by blast+

lemma svc_create_keeps:
  assumes "fs_metadata svc = shared_ops" "store_ok (ok_new_file new) (w_metadata w)" "others_keep snapshot_ok (w_metadata w)"
    and "svc_create svc clk new path w = Some (r, w')"
  shows "world_ok w'"
proof -
  from assms(1,4) obtain q s where q: "create shared_ops clk new path (w_metadata w) = Some (q, s)"
    and rest: "(case q of Inl e \<Rightarrow> (Inl e, w\<lparr>w_metadata := s\<rparr>)
       | Inr f \<Rightarrow> op_bind (on_metadata (stat shared_ops path)) (\<lambda>entry. case entry of
             FileEntry metadata \<Rightarrow> op_lift (Inr metadata)
           | DirEntry _ \<Rightarrow> op_lift (Inl IsDirectory)) (w_emit (FileCreated path f) (w\<lparr>w_metadata := s\<rparr>))) = (r, w')"
    unfolding svc_create_def on_namespace_def assms(1) by (auto simp del: split_paired_All)
  have s: "store_ok snapshot_ok s" using create_keeps [OF assms(2,3) q] .
  have "keeps (case entry of FileEntry m \<Rightarrow> op_lift (Inr m) | DirEntry _ \<Rightarrow> op_lift (Inl IsDirectory))" for entry
    by (cases entry) (simp_all add: keeps_lift)
  then have "keeps (op_bind (on_metadata (stat shared_ops path)) (\<lambda>entry. case entry of
             FileEntry metadata \<Rightarrow> op_lift (Inr metadata) | DirEntry _ \<Rightarrow> op_lift (Inl IsDirectory)))"
    by (intro keeps_bind keeps_loads)
  note keep = keepsD [OF this]
  show ?thesis
  proof (cases q)
    case (Inl e)
    with rest s show ?thesis by auto
  next
    case (Inr f)
    show ?thesis by (rule keep [of "w_emit (FileCreated path f) (w\<lparr>w_metadata := s\<rparr>)" r])
        (use rest s Inr in auto)
  qed
qed

lemma service_call_keeps:
  assumes "fs_metadata svc = shared_ops" "world_ok w" "service_call svc sha256 w w'"
  shows "world_ok w'"
  using assms(3)
proof cases
  case (call_mkdir new clk path r1)
  with assms show ?thesis
    using mkdir_keeps [of new "w_metadata w" clk path] store_ok_keep
    by (auto simp: svc_mkdir_def on_namespace_def world_ok_def)
next
  case (call_create newf clk path r2)
  then show ?thesis
    using svc_create_keeps [OF assms(1) _ _ call_create(2)] assms(2) store_ok_keep by (auto simp: world_ok_def)
next
  case (call_rename clk "from" to r3)
  with assms show ?thesis using rename_keeps by (auto simp: svc_rename_def on_namespace_def world_ok_def)
next
  case (call_remove clk path r4)
  with assms show ?thesis using remove_keeps by (auto simp: svc_remove_def on_namespace_def world_ok_def)
next
  case (call_stat path r5)
  then show ?thesis using keepsD [OF keeps_stat_list(1) [OF assms(1)] assms(2)] by blast
next
  case (call_list path r6)
  then show ?thesis using keepsD [OF keeps_stat_list(2) [OF assms(1)] assms(2)] by blast
next
  case (call_write now path data expected source r7)
  then show ?thesis using keepsD [OF keeps_write [OF assms(1)] assms(2)] by blast
next
  case (call_read path r8)
  then show ?thesis using keepsD [OF keeps_read [OF assms(1)] assms(2)] by blast
next
  case (call_read_from path node_id r9)
  then show ?thesis
    using keepsD [OF keeps_read [OF assms(1)] assms(2)] by (simp add: svc_read_def svc_read_from_def)
next
  case (call_placement path r10)
  then show ?thesis using keepsD [OF keeps_placement_for_path [OF assms(1)] assms(2)] by blast
next
  case (call_reconcile r11)
  have "rc_metadata (reconciler svc) = shared_ops" using assms(1) by (simp add: reconciler_def)
  from keepsD [OF keeps_reconcile [OF this] assms(2) call_reconcile] show ?thesis .
next
  case (call_node node_id online r12 reg)
  with assms(2) show ?thesis by (simp add: world_ok_def)
next
  case (call_media c)
  with assms(2) show ?thesis by simp
qed

lemma service_run_keeps:
  assumes "fs_metadata svc = shared_ops" "rtranclp (service_call svc sha256) w w'" "world_ok w"
  shows "world_ok w'"
  using assms(2,3) by (induction rule: rtranclp_induct) (auto intro: service_call_keeps [OF assms(1)])

subsection \<open>Properties\<close>

definition demo_world :: "(shared_metadata, content_heap) world" where
  "demo_world = \<lparr>w_metadata = race_store, w_contents = demo_heap, w_registry = demo_registry,
     w_events = RecordingEventSink False []\<rparr>"

definition demo_service :: "shared_metadata filesystem_service" where
  "demo_service = filesystem_service_new shared_ops"

lemma demo_service_ops [simp]: "fs_metadata demo_service = shared_ops"
  by (simp add: demo_service_def filesystem_service_new_def with_components_def)

lemma demo_world_ok: "store_ok snapshot_ok (w_metadata demo_world)"
  using snapshot_ok_default
  by (simp add: demo_world_def store_ok_def race_store_def shared_ok_def shared_pending_def shared_view_def
      others_keep_def in_memory_metadata_new_def)

text \<open>
  C1: along every run of service and reconciler calls, whatever they return, whatever nodes go on or
  off line, whatever happens to the stored bytes and whatever well-formed updates other clients commit
  in between, the visible metadata stays well formed: a tree of uniquely named entries, placements with
  one entry per node, and a retention state in which all content of current file versions is retained.
\<close>

theorem service_run_safe:
  assumes "fs_metadata svc = shared_ops" "store_ok snapshot_ok (w_metadata w)"
    and "rtranclp (service_call svc sha256) w w'"
  shows "snapshot_ok (shared_view (w_metadata w'))"
  using service_run_keeps [OF assms(1,3)] assms(2) by (simp add: world_ok_def store_ok_def)

theorem service_run_safe_witness:
  "\<exists>w'. rtranclp (service_call demo_service (\<lambda>bs. bs)) demo_world w' \<and> w' \<noteq> demo_world \<and>
     snapshot_ok (shared_view (w_metadata w'))"
proof -
  let ?w = "snd (reconcile (reconciler demo_service) (\<lambda>bs. bs) demo_world)"
  have "service_call demo_service (\<lambda>bs. bs) demo_world ?w"
    by (rule call_reconcile) (rule prod.collapse [symmetric])
  then have run: "rtranclp (service_call demo_service (\<lambda>bs. bs)) demo_world ?w" by simp
  have "length (shm_others (w_metadata ?w)) \<noteq> length (shm_others (w_metadata demo_world))" by code_simp
  then have "?w \<noteq> demo_world" by force
  with run service_run_safe [OF demo_service_ops demo_world_ok run] show ?thesis by blast
qed

text \<open>
  C24: in every reachable snapshot each file and each directory has exactly one absolute path, and
  every entry of the namespace has its metadata.
\<close>

theorem reachable_one_path:
  assumes "reachable s" "target_known s t"
  shows "\<exists>!p. paths s p = Some t"
proof -
  have "snapshot_ok s"
    using assms(1) by (induction rule: reachable.induct) (auto simp: snapshot_ok_default intro: commit_step_ok)
  then have wf: "wf_namespace s" by (simp add: snapshot_ok_def)
  with assms(2) obtain p where "paths s p = Some t" by (auto simp: wf_namespace_def ran_def)
  with wf_paths_unique [OF wf] show ?thesis by blast
qed

lemma demo_tree_reachable: "reachable (demo_tree\<lparr>ms_revision := 2\<rparr>)"
proof -
  have "DirectoryId 1 \<notin> dom (map_of (ms_directories metadata_snapshot_default))"
    by (simp add: metadata_snapshot_default_def directory_id_root_def)
  from reachable.commit [OF reachable.initial step_mkdir [OF demo_names(1) this demo_mkdir_run]]
  have r: "reachable (demo_mkdir\<lparr>ms_revision := 1\<rparr>)" by (simp add: metadata_snapshot_default_def)
  have run: "create_edit (FileId 2) [''a''] ''f'' 7 8 (demo_mkdir\<lparr>ms_revision := 1\<rparr>) =
      Inr (FileId 2, demo_tree\<lparr>ms_revision := 1\<rparr>)" by code_simp
  have "map_of (ms_files (demo_mkdir\<lparr>ms_revision := 1\<rparr>)) (FileId 2) = None" by code_simp
  then have "FileId 2 \<notin> dom (map_of (ms_files (demo_mkdir\<lparr>ms_revision := 1\<rparr>)))" by auto
  from reachable.commit [OF r step_create [OF demo_names(2) this run]] show ?thesis by simp
qed

theorem reachable_one_path_witness:
  "\<exists>!p. paths (demo_tree\<lparr>ms_revision := 2\<rparr>) p = Some (FileTarget (FileId 2))"
proof (rule reachable_one_path [OF demo_tree_reachable])
  have "map_of (ms_files demo_tree) (FileId 2) \<noteq> None" by code_simp
  then show "target_known (demo_tree\<lparr>ms_revision := 2\<rparr>) (FileTarget (FileId 2))"
    by (auto simp: target_known_def)
qed

text \<open>
  C23: in every reachable snapshot the content of a current file version is retained, has a
  placement and is never marked as a garbage candidate.
\<close>

theorem reachable_live_content:
  assumes "reachable s" "is_content_live_referenced s cid"
  shows "is_content_retained s cid \<and> cid \<in> set (bt_keys (retained_content_ids s)) \<and>
    map_of (ms_placements s) cid \<noteq> None \<and> map_of (ms_retentions s) cid \<noteq> Some GarbageCandidate"
proof -
  have ok: "snapshot_ok s"
    using assms(1) by (induction rule: reachable.induct) (auto simp: snapshot_ok_default intro: commit_step_ok)
  then have "bt_ok (ms_retentions s)" by (simp add: snapshot_ok_def wf_namespace_def maps_ok_def)
  moreover have "is_content_retained s cid" using assms(2) by (simp add: is_content_retained_def)
  ultimately show ?thesis
    using ok assms(2) retained_content_ids_iff [of s cid] by (auto simp: snapshot_ok_def retention_ok_def)
qed

definition demo_written :: metadata_snapshot where
  "demo_written = snd (projr (write_edit 2 (DeviceId ''n.a'') (ContentId ''c'') (FileId 2) [1, 2] None 9
     (demo_tree\<lparr>ms_revision := 2\<rparr>)))"

theorem reachable_live_content_witness:
  "let s = demo_written\<lparr>ms_revision := 3\<rparr>; cid = ContentId ''c'' in
    is_content_retained s cid \<and> cid \<in> set (bt_keys (retained_content_ids s)) \<and>
    map_of (ms_placements s) cid \<noteq> None \<and> map_of (ms_retentions s) cid \<noteq> Some GarbageCandidate"
proof -
  have "\<not> isl (write_edit 2 (DeviceId ''n.a'') (ContentId ''c'') (FileId 2) [1, 2] None 9
      (demo_tree\<lparr>ms_revision := 2\<rparr>))" by code_simp
  then obtain out where "write_edit 2 (DeviceId ''n.a'') (ContentId ''c'') (FileId 2) [1, 2] None 9
      (demo_tree\<lparr>ms_revision := 2\<rparr>) = Inr (out, demo_written)"
    unfolding demo_written_def by (metis prod.collapse sum.collapse(2))
  from reachable.commit [OF demo_tree_reachable step_write [OF this]]
  have r: "reachable (demo_written\<lparr>ms_revision := 3\<rparr>)" by simp
  have "is_content_live_referenced (demo_written\<lparr>ms_revision := 3\<rparr>) (ContentId ''c'')" by code_simp
  from reachable_live_content [OF r this] show ?thesis unfolding Let_def .
qed

end
