(* ===== verification/Service_Correct.thy ===== *)
theory Service_Correct
  imports System_Props
begin

section \<open>Reads and writes\<close>

text \<open>
  Integrity of reads against arbitrary stores, atomicity and isolation of writes under
  interleaving, and read-after-write on in-memory stores.
\<close>

subsection \<open>Reads return what the manifest names\<close>

text \<open>
  C6: whatever the content stores answer, a read that returns data returns, for the file the path
  named in a current snapshot, the concatenation of one part per chunk of its manifest, each of which
  has the digest the manifest names. A wrong or corrupted replica is never served.
\<close>

theorem read_integrity:
  assumes "shared_ok (w_metadata w)" "fs_metadata svc = shared_ops"
    and "svc_read svc sha256 path w = (Inr bs, w')"
  shows "\<exists>cs f u1 u2 fmd parts. path = render_path cs \<and> others_step (w_metadata w) u1 \<and>
    paths (shared_view u1) cs = Some (FileTarget f) \<and> others_step u1 u2 \<and>
    map_of (ms_files (shared_view u2)) f = Some fmd \<and>
    bs = concat parts \<and> parts_match sha256 (file_chunks fmd) parts"
proof -
  from assms(3) have "read_internal svc sha256 path w = (Inr bs, w')" by (simp add: svc_read_def)
  then obtain f s1 snapshot s2 fmd parts
    where res: "resolve shared_ops path (w_metadata w) = (Inr (FileTarget f), s1)"
      and ld: "shared_load s1 = (Inr snapshot, s2)" and fmd: "map_of (ms_files snapshot) f = Some fmd"
        "bs = concat parts" "parts_match sha256 (file_chunks fmd) parts"
    by (rule read_internal_parts) (simp add: assms(2))
  from shared_resolve_Inr [OF assms(1) res] obtain cs
    where cs: "path = render_path cs" "others_step (w_metadata w) s1" "paths (shared_view s1) cs = Some (FileTarget f)"
    by blast
  have ok: "shared_ok s1" using shm.others_ok [OF cs(2) assms(1)] .
  from cs shm.load_others [OF ok ld] shm.load_view [OF ok ld] fmd show ?thesis by blast
qed

text \<open>A world with the file \<open>/f\<close> holding two bytes, on one in-memory node.\<close>

definition demo_file :: "(shared_metadata, content_heap) world" where
  "demo_file = snd (the (svc_create demo_service (\<lambda>_ _. 3) (FileId 2) ''/f''
     (demo_world\<lparr>w_metadata := sole metadata_snapshot_default\<rparr>)))"

definition demo_saved :: "file_metadata fs_result \<times> (shared_metadata, content_heap) world" where
  "demo_saved = svc_write demo_service 5 ''/f'' [7, 8] (Some 1) (DeviceId ''n.a'') demo_file"

theorem read_integrity_witness:
  "\<exists>bs w' cs f u1 u2 fmd parts. svc_read demo_service (\<lambda>bs. bs) ''/f'' (snd demo_saved) = (Inr bs, w') \<and>
    ''/f'' = render_path cs \<and> others_step (w_metadata (snd demo_saved)) u1 \<and>
    paths (shared_view u1) cs = Some (FileTarget f) \<and> others_step u1 u2 \<and>
    map_of (ms_files (shared_view u2)) f = Some fmd \<and>
    bs = concat parts \<and> parts_match (\<lambda>bs. bs) (file_chunks fmd) parts"
proof -
  have "fst (svc_read demo_service (\<lambda>bs. bs) ''/f'' (snd demo_saved)) = Inr [7, 8]" by code_simp
  then obtain w' where rd: "svc_read demo_service (\<lambda>bs. bs) ''/f'' (snd demo_saved) = (Inr [7, 8], w')"
    by (metis prod.collapse)
  have "shm_others (w_metadata (snd demo_saved)) = []" by code_simp
  then have "shared_ok (w_metadata (snd demo_saved))" by (simp add: shared_ok_def shared_pending_def)
  from read_integrity [OF this demo_service_ops rd] rd show ?thesis by blast
qed

subsection \<open>Writes\<close>

lemma svc_write_Inr:
  assumes "svc_write svc now path data expected source w = (Inr m, w')" "fs_metadata svc = shared_ops"
  obtains f s1 cid c x s2 out y s3
  where "resolve shared_ops path (w_metadata w) = (Inr (FileTarget f), s1)"
    "put_on (w_registry w) source data (w_contents w) = (Inr cid, c)"
    "shared_load s1 = (Inr x, s2)"
    "write_edit (fs_desired_replica_count svc) source cid f data expected now x = Inr (out, y)"
    "shared_cas y s2 = (Inr (), s3)" "m = wo_committed out"
    "w' = fold w_emit (write_events f cid source out) (w\<lparr>w_metadata := s3, w_contents := c\<rparr>)"
  using assms
  by (auto simp: svc_write_def op_bind_eq_Inr on_metadata_iff on_contents_iff)

lemma write_edit_effect:
  assumes "write_edit desired source cid f data expected now x = Inr (out, y)"
  shows "\<exists>old. map_of (ms_files x) f = Some old \<and> (expected = None \<or> expected = Some (fm_generation old)) \<and>
      fm_generation (wo_committed out) = fm_generation old + 1 \<and> unat (fm_size (wo_committed out)) = length data \<and>
      fm_manifest (wo_committed out) = Some (manifest_single cid (fm_size (wo_committed out))) \<and>
      map_of (ms_files y) = (map_of (ms_files x))(f \<mapsto> wo_committed out) \<and> paths y = paths x \<and>
      ms_revision y = ms_revision x \<and> (\<exists>p. map_of (ms_placements y) cid = Some p)"
  using assms
proof (rule write_edit_Inr)
  fix old len created replicas p
  assume *: "map_of (ms_files x) f = Some old" "expected = None \<or> expected = Some (fm_generation old)"
    "u64_try_from (length data) = Some len"
    "wo_committed out = old\<lparr>fm_generation := fm_generation old + 1, fm_modified_at_millis := now,
       fm_size := len, fm_manifest := Some (manifest_single cid len)\<rparr>"
    "y = fold mark_garbage (file_chunk_ids old)
       (x\<lparr>ms_files := bt_insert f (wo_committed out) (ms_files x),
          ms_placements := bt_insert cid p (ms_placements x),
          ms_retentions := bt_insert cid LiveReference (ms_retentions x)\<rparr>)"
  from u64_try_from_Some [OF *(3)] * show ?thesis
    by (intro exI [of _ old] conjI) (simp_all add: paths_def)
qed

text \<open>
  C4: a write that returns took effect once and atomically. The state of the metadata afterwards is the
  one before, after every update the other clients committed meanwhile, with one swap on top, which
  advances exactly one file, the one its path named, by one generation from the version the store held
  at the swap; if the caller gave an expected generation, that version carried it, so no other write
  came in between. The new version names the data's size and the identifier the source node stored it
  under; no other file and no path changed.
\<close>

theorem write_atomic:
  assumes "shared_ok (w_metadata w)" "fs_metadata svc = shared_ops"
    and "svc_write svc now path data expected source w = (Inr m, w')"
  shows "\<exists>cs f cid u1 u2 y old. path = render_path cs \<and> others_step (w_metadata w) u1 \<and>
    paths (shared_view u1) cs = Some (FileTarget f) \<and> others_step u1 u2 \<and> w_metadata w' = shared_swap y u2 \<and>
    map_of (ms_files (shared_view u2)) f = Some old \<and> (expected = None \<or> expected = Some (fm_generation old)) \<and>
    fst (put_on (w_registry w) source data (w_contents w)) = Inr cid \<and>
    fm_generation m = fm_generation old + 1 \<and> unat (fm_size m) = length data \<and>
    fm_manifest m = Some (manifest_single cid (fm_size m)) \<and>
    map_of (ms_files (shared_view (w_metadata w'))) = (map_of (ms_files (shared_view u2)))(f \<mapsto> m) \<and>
    paths (shared_view (w_metadata w')) = paths (shared_view u2)"
  using assms(3,2)
proof (rule svc_write_Inr)
  fix f s1 cid c x s2 out y s3
  assume res: "resolve shared_ops path (w_metadata w) = (Inr (FileTarget f), s1)"
    and put: "put_on (w_registry w) source data (w_contents w) = (Inr cid, c)"
    and ld: "shared_load s1 = (Inr x, s2)"
    and ed: "write_edit (fs_desired_replica_count svc) source cid f data expected now x = Inr (out, y)"
    and sw: "shared_cas y s2 = (Inr (), s3)" and m: "m = wo_committed out"
    and w': "w' = fold w_emit (write_events f cid source out) (w\<lparr>w_metadata := s3, w_contents := c\<rparr>)"
  from shared_resolve_Inr [OF assms(1) res] obtain cs where cs: "path = render_path cs"
    "others_step (w_metadata w) s1" "paths (shared_view s1) cs = Some (FileTarget f)" by blast
  have ok: "shared_ok s1" using shm.others_ok [OF cs(2) assms(1)] .
  from write_edit_effect [OF ed] obtain old where old: "map_of (ms_files x) f = Some old"
      "expected = None \<or> expected = Some (fm_generation old)"
      "fm_generation m = fm_generation old + 1" "unat (fm_size m) = length data"
      "fm_manifest m = Some (manifest_single cid (fm_size m))"
      "map_of (ms_files y) = (map_of (ms_files x))(f \<mapsto> m)" "paths y = paths x" "ms_revision y = ms_revision x"
    unfolding m by blast
  from shm.load_cas_atomic [OF ok ld old(8) sw] obtain v
    where v: "others_step s1 v" "shared_view v = x" "s3 = shared_swap y v" using shm.others_trans by blast
  with cs old put show ?thesis
    by (intro exI [of _ cs] exI [of _ f] exI [of _ cid] exI [of _ s1] exI [of _ v] exI [of _ y] exI [of _ old])
       (simp add: w')
qed

theorem write_atomic_witness:
  "\<exists>m w' cs f cid u1 u2 y old. svc_write demo_service 5 ''/f'' [7, 8] (Some 1) (DeviceId ''n.a'') demo_file = (Inr m, w') \<and>
    ''/f'' = render_path cs \<and> others_step (w_metadata demo_file) u1 \<and>
    paths (shared_view u1) cs = Some (FileTarget f) \<and> others_step u1 u2 \<and> w_metadata w' = shared_swap y u2 \<and>
    map_of (ms_files (shared_view u2)) f = Some old \<and> (Some 1 = None \<or> Some 1 = Some (fm_generation old)) \<and>
    fst (put_on (w_registry demo_file) (DeviceId ''n.a'') [7, 8] (w_contents demo_file)) = Inr cid \<and>
    fm_generation m = fm_generation old + 1 \<and> unat (fm_size m) = length [7 :: byte, 8] \<and>
    fm_manifest m = Some (manifest_single cid (fm_size m)) \<and>
    map_of (ms_files (shared_view (w_metadata w'))) = (map_of (ms_files (shared_view u2)))(f \<mapsto> m) \<and>
    paths (shared_view (w_metadata w')) = paths (shared_view u2)"
proof -
  have "\<not> isl (fst demo_saved)" by code_simp
  then obtain m w' where wr: "svc_write demo_service 5 ''/f'' [7, 8] (Some 1) (DeviceId ''n.a'') demo_file = (Inr m, w')"
    unfolding demo_saved_def by (metis prod.collapse sum.collapse(2))
  have "shm_others (w_metadata demo_file) = []" by code_simp
  then have "shared_ok (w_metadata demo_file)" by (simp add: shared_ok_def shared_pending_def)
  from write_atomic [OF this demo_service_ops wr] wr show ?thesis by blast
qed

lemma shared_resolve_others:
  assumes "shared_ok s" "resolve shared_ops path s = (r, s1)"
  shows "others_step s s1"
proof -
  have "s1 = s \<or> (\<exists>q. shared_load s = (q, s1))"
    using assms(2) by (auto simp: resolve_def op_bind_def split: prod.splits sum.splits)
  with shm.load_others [OF assms(1)] shm.others_refl show ?thesis by blast
qed

lemma shared_cas_lost_others: "shared_cas y s = (Inl e, t) \<Longrightarrow> others_step s t"
proof -
  assume "shared_cas y s = (Inl e, t)"
  then have "t = run_others s"
    by (auto simp: shared_cas_eq Let_def in_memory_cas_def split: if_splits)
  then show ?thesis using run_others_step by simp
qed

text \<open>
  C30: over the in-memory metadata store, a write that fails leaves no trace in the metadata: what
  changed there was committed by other clients, and no event was emitted. It may leave behind a stored blob nothing refers to.
\<close>

theorem write_failure_isolated:
  assumes "shared_ok (w_metadata w)" "fs_metadata svc = shared_ops"
    and "svc_write svc now path data expected source w = (Inl e, w')"
  shows "others_step (w_metadata w) (w_metadata w') \<and> w_events w' = w_events w \<and> w_registry w' = w_registry w"
proof -
  obtain rr s1 where res: "resolve shared_ops path (w_metadata w) = (rr, s1)" by fastforce
  note s1 = shared_resolve_others [OF assms(1) res] and ok1 = shm.others_ok [OF shared_resolve_others [OF assms(1) res] assms(1)]
  obtain pr c where put: "put_on (w_registry w) source data (w_contents w) = (pr, c)" by fastforce
  obtain lr s2 where ld: "shared_load s1 = (lr, s2)" by fastforce
  have s2: "others_step (w_metadata w) s2"
    using shm.others_trans [OF s1 shm.load_others [OF ok1 ld]] .
  have cas: "others_step (w_metadata w) s3" if "shared_cas y s2 = (Inl e', s3)" for y e' s3
    using shm.others_trans [OF s2 shared_cas_lost_others [OF that]] .
  from assms(3,2) res put ld show ?thesis
    by (auto simp: svc_write_def on_metadata_iff on_contents_iff s1 s2 cas
        elim!: op_bind_cases split: prod.splits)
qed

theorem write_failure_isolated_witness:
  "\<exists>e w'. svc_write demo_service 5 ''/f'' [7, 8] (Some 9) (DeviceId ''n.a'') demo_file = (Inl e, w') \<and>
    others_step (w_metadata demo_file) (w_metadata w') \<and> w_events w' = w_events demo_file \<and>
    w_registry w' = w_registry demo_file"
proof -
  have "fst (svc_write demo_service 5 ''/f'' [7, 8] (Some 9) (DeviceId ''n.a'') demo_file) = Inl Conflict" by code_simp
  then obtain w' where wr: "svc_write demo_service 5 ''/f'' [7, 8] (Some 9) (DeviceId ''n.a'') demo_file = (Inl Conflict, w')"
    by (metis prod.collapse)
  have "shm_others (w_metadata demo_file) = []" by code_simp
  then have "shared_ok (w_metadata demo_file)" by (simp add: shared_ok_def shared_pending_def)
  from write_failure_isolated [OF this demo_service_ops wr] wr show ?thesis by blast
qed

subsection \<open>Read after write\<close>

text \<open>All nodes keep their content in memory, node \<open>d\<close> at the address \<open>addr d\<close>.\<close>

definition memory_registry :: "hash_function \<Rightarrow> (device_id \<Rightarrow> nat) \<Rightarrow> content_heap content_registry \<Rightarrow> bool" where
  "memory_registry sha256 addr reg \<longleftrightarrow>
     (\<forall>d node. map_of (reg_nodes reg) d = Some node \<longrightarrow> rn_store node = in_memory_store sha256 (addr d))"

lemma memory_store:
  assumes "memory_registry sha256 addr reg" "registry_store reg d = Inr store"
  shows "store = in_memory_store sha256 (addr d)"
  using assms by (auto simp: registry_store_def memory_registry_def split: if_splits)

lemma memory_get_frame:
  assumes "memory_registry sha256 addr reg" "get_from reg d cid h = (r, h')"
  shows "h' = h" "r = Inr bs \<Longrightarrow> heap_blob (addr d) h cid = Some bs"
proof -
  show "h' = h"
    using assms(2) by (auto simp: get_from_def in_memory_store_sel imc_get_def
        dest!: memory_store [OF assms(1)] elim!: op_bind_cases split: if_splits)
  show "r = Inr bs \<Longrightarrow> heap_blob (addr d) h cid = Some bs"
    using assms(2) by (auto simp: get_from_def op_bind_eq_Inr dest!: memory_store [OF assms(1)]
        split: if_splits intro: imc.get_ok)
qed

lemma on_contents_memory:
  assumes "memory_registry sha256 addr (w_registry w)"
    "on_contents (\<lambda>reg. get_from reg d cid) w = (r, w')"
  shows "w' = w"
  using memory_get_frame(1) [OF assms(1)] assms(2) by (auto simp: on_contents_iff)

text \<open>If one replica is on line and serves matching bytes, the chunk is read.\<close>

lemma read_replicas_found:
  assumes "memory_registry sha256 addr (w_registry w)"
    and "r \<in> set rs" "registry_node (w_registry w) (rp_node_id r) = Inr node" "sn_online node"
    and "fst (get_from (w_registry w) (rp_node_id r) cid (w_contents w)) = Inr bs" "matches sha256 cid bs"
  shows "\<exists>bs' w' a. read_replicas svc sha256 cid rs w = (Some bs', w') \<and> matches sha256 cid bs' \<and>
    heap_blob a (w_contents w) cid = Some bs'"
  using assms
proof (induction rs arbitrary: w)
  case (Cons x rs)
  obtain g w1 where g: "on_contents (\<lambda>reg. get_from reg (rp_node_id x) cid) w = (g, w1)" by fastforce
  note w1 = on_contents_memory [OF Cons.prems(1) g]
  have held: "heap_blob (addr (rp_node_id x)) (w_contents w) cid = Some b" if "g = Inr b" for b
  proof -
    obtain h where "get_from (w_registry w) (rp_node_id x) cid (w_contents w) = (g, h)"
      using g by (auto simp: on_contents_iff)
    from memory_get_frame(2) [OF Cons.prems(1) this that] show ?thesis .
  qed
  have rec: "\<exists>bs' w' a. read_replicas svc sha256 cid rs v = (Some bs', w') \<and> matches sha256 cid bs' \<and>
      heap_blob a (w_contents w) cid = Some bs'"
    if "x \<noteq> r" "w_registry v = w_registry w" "w_contents v = w_contents w" for v
    using Cons.IH [of v] Cons.prems that by simp
  show ?case
  proof (cases "x = r")
    case True
    with Cons.prems g w1 have "g = Inr bs" by (auto simp: on_contents_iff)
    with True Cons.prems g w1 held show ?thesis by (auto simp: Let_def)
  next
    case False
    show ?thesis
    proof (cases "registry_node (w_registry w) (rp_node_id x)")
      case (Inl e)
      with rec [OF False] show ?thesis by (simp add: Let_def)
    next
      case (Inr node')
      show ?thesis
      proof (cases "sn_online node'")
        case False
        with Inr rec [OF \<open>x \<noteq> r\<close>] show ?thesis by (simp add: Let_def)
      next
        case True
        with Inr g w1 rec [OF False] held show ?thesis by (cases g) (auto simp: Let_def)
      qed
    qed
  qed
qed simp

lemma put_on_Inr:
  assumes "memory_registry sha256 addr reg" "put_on reg d data h = (Inr cid, h')"
  obtains node bs where "registry_node reg d = Inr node" "sn_online node" "cid = for_bytes sha256 data"
    "fst (get_from reg d cid h') = Inr bs" "matches sha256 cid bs"
proof -
  from assms(2) obtain node where node: "registry_node reg d = Inr node" "sn_online node"
    and store: "registry_store reg d = Inr (in_memory_store sha256 (addr d))"
    and put: "cs_put (in_memory_store sha256 (addr d)) data h = (Inr cid, h')"
    by (auto simp: put_on_def op_bind_eq_Inr dest: memory_store [OF assms(1)] split: if_splits)
  from imc.put_ok [OF put] obtain bs where bs: "cid = for_bytes sha256 data"
    "heap_blob (addr d) h' cid = Some bs" "matches sha256 cid bs" by auto
  have "\<not> imc_poisoned (h (addr d))"
    using put by (auto simp: in_memory_store_sel imc_put_def Let_def)
  then have "\<not> imc_poisoned (h' (addr d))"
    using put by (cases rule: imc_put_cases [of sha256 data "h (addr d)"]) (auto simp: in_memory_store_sel)
  with bs node store that [of node bs] show thesis
    by (simp add: get_from_def in_memory_store_sel imc_get_def heap_blob_def)
qed

lemma resolve_sole:
  "resolve shared_ops path (sole x) =
     (res_bind (fs_path_parse path) (spec_resolve (paths x)), sole x)"
  by (cases "fs_path_parse path") (simp_all add: resolve_def resolve_components_eq)

lemma record_healthy_source:
  assumes "record_healthy node rs = (created, rs')"
  shows "\<exists>r \<in> set rs'. rp_node_id r = node"
proof (cases "find (node_is node) rs")
  case None
  with assms show ?thesis by (auto simp: record_healthy_def)
next
  case (Some r)
  then have "rp_node_id r = node" "r \<in> set rs" by (auto simp: node_is_def dest: find_SomeD)
  moreover have "map rp_node_id rs' = map rp_node_id rs" using Some assms by (auto simp: record_healthy_def)
  ultimately have "node \<in> set (map rp_node_id rs')" by auto
  then show ?thesis by auto
qed

text \<open>
  C16: on a metadata store no one else uses, with in-memory nodes, reading a path right after a
  successful write returns the data written, whatever the other replicas hold, unless some node
  holds a second preimage of the data's digest.
\<close>

theorem read_after_write:
  assumes "fs_metadata svc = shared_ops" "w_metadata w = sole s" "memory_registry sha256 addr (w_registry w)"
    and wr: "svc_write svc now path data expected source w = (Inr m, w1)"
    and coll: "\<And>a b. heap_blob a (w_contents w1) (for_bytes sha256 data) = Some b \<Longrightarrow> sha256 b = sha256 data \<Longrightarrow> b = data"
  shows "\<exists>w2. svc_read svc sha256 path w1 = (Inr data, w2)"
  using wr assms(1)
proof (rule svc_write_Inr)
  fix f s1 cid c x s2 out y s3
  assume res: "resolve shared_ops path (w_metadata w) = (Inr (FileTarget f), s1)"
    and put: "put_on (w_registry w) source data (w_contents w) = (Inr cid, c)"
    and ld: "shared_load s1 = (Inr x, s2)"
    and ed: "write_edit (fs_desired_replica_count svc) source cid f data expected now x = Inr (out, y)"
    and sw: "shared_cas y s2 = (Inr (), s3)"
    and w1: "w1 = fold w_emit (write_events f cid source out) (w\<lparr>w_metadata := s3, w_contents := c\<rparr>)"
  have s1: "s1 = sole s" using res assms(2) by (simp add: resolve_sole)
  with ld have x: "x = s" "s2 = sole s" by auto
  from write_edit_effect [OF ed] x have eff: "fm_manifest (wo_committed out) = Some (manifest_single cid (fm_size (wo_committed out)))"
    "map_of (ms_files y) f = Some (wo_committed out)" "paths y = paths s" "ms_revision y = ms_revision s" by auto
  define z where "z = y\<lparr>ms_revision := ms_revision y + 1\<rparr>"
  have s3: "s3 = sole z" using sw x eff(4) by (simp add: z_def)
  have z: "map_of (ms_files z) f = Some (wo_committed out)" "paths z = paths s" "ms_placements z = ms_placements y"
    using eff by (simp_all add: z_def)
  from put_on_Inr [OF assms(3) put] obtain node bs where node: "registry_node (w_registry w) source = Inr node"
    "sn_online node" "cid = for_bytes sha256 data" "fst (get_from (w_registry w) source cid c) = Inr bs"
    "matches sha256 cid bs" by blast
  from ed obtain p where p: "map_of (ms_placements z) cid = Some p" "\<exists>r \<in> set (cp_replicas p). rp_node_id r = source"
    by (rule write_edit_Inr) (use z(3) record_healthy_source in auto)
  then obtain r where r: "r \<in> set (cp_replicas p)" "rp_node_id r = source" by blast
  have reg: "w_registry w1 = w_registry w" "w_contents w1 = c" "w_metadata w1 = sole z" by (simp_all add: w1 s3)
  have "\<exists>bs' w2 a. read_replicas svc sha256 cid (cp_replicas p) (w1\<lparr>w_metadata := sole z\<rparr>) = (Some bs', w2) \<and>
      matches sha256 cid bs' \<and> heap_blob a (w_contents (w1\<lparr>w_metadata := sole z\<rparr>)) cid = Some bs'"
    by (rule read_replicas_found [of sha256 addr _ r _ node cid bs]) (use assms(3) r node reg in simp_all)
  then obtain bs' w2 a where rd: "read_replicas svc sha256 cid (cp_replicas p) (w1\<lparr>w_metadata := sole z\<rparr>) = (Some bs', w2)"
    "matches sha256 cid bs'" "heap_blob a (w_contents w1) cid = Some bs'" by auto
  from rd(2) node(3) have "sha256 bs' = sha256 data" by (simp add: matches_def)
  with rd(3) node(3) have "bs' = data" by (blast intro: coll)
  moreover have "on_metadata (resolve shared_ops path) w1 = (Inr (FileTarget f), w1\<lparr>w_metadata := sole z\<rparr>)"
    using res assms(2) z(2) reg(3) by (auto simp: on_metadata_iff resolve_sole)
  ultimately show ?thesis
    using rd z(1) p(1) eff(1) assms(1)
    by (simp add: svc_read_def read_internal_def on_metadata_eq manifest_single_def)
qed

lemma svc_create_registry:
  assumes "svc_create svc clk new path w = Some (r, w')"
  shows "w_registry w' = w_registry w"
proof -
  from assms obtain q v where "(case q of Inl e \<Rightarrow> (Inl e, v)
       | Inr f \<Rightarrow> op_bind (on_metadata (stat (fs_metadata svc) path)) (\<lambda>entry. case entry of
             FileEntry metadata \<Rightarrow> op_lift (Inr metadata)
           | DirEntry _ \<Rightarrow> op_lift (Inl IsDirectory)) (w_emit (FileCreated path f) v)) = (r, w')"
    "w_registry v = w_registry w"
    by (auto simp: svc_create_def on_namespace_def)
  then show ?thesis
    by (auto simp: on_metadata_iff elim!: op_bind_cases split: sum.splits entry_metadata.splits)
qed

theorem read_after_write_witness:
  "\<exists>m w1 w2. svc_write demo_service 5 ''/f'' [7, 8] (Some 1) (DeviceId ''n.a'') demo_file = (Inr m, w1) \<and>
     svc_read demo_service (\<lambda>bs. bs) ''/f'' w1 = (Inr [7, 8], w2)"
proof -
  have "\<not> isl (fst demo_saved)" by code_simp
  then obtain m w1 where wr: "svc_write demo_service 5 ''/f'' [7, 8] (Some 1) (DeviceId ''n.a'') demo_file = (Inr m, w1)"
    unfolding demo_saved_def by (metis prod.collapse sum.collapse(2))
  have "w_metadata demo_file = sole (shared_view (w_metadata demo_file))"
  proof -
    have "shm_others (w_metadata demo_file) = [] \<and> \<not> imm_poisoned (shm_store (w_metadata demo_file))" by code_simp
    then show ?thesis by (simp add: sole_def shared_view_def)
  qed
  moreover have "w_registry demo_file = demo_registry"
  proof -
    have "\<not> Option.is_none (svc_create demo_service (\<lambda>_ _. 3) (FileId 2) ''/f''
        (demo_world\<lparr>w_metadata := sole metadata_snapshot_default\<rparr>))" by code_simp
    then obtain r where "svc_create demo_service (\<lambda>_ _. 3) (FileId 2) ''/f''
        (demo_world\<lparr>w_metadata := sole metadata_snapshot_default\<rparr>) = Some (r, demo_file)"
      unfolding demo_file_def by (auto simp: Option.is_none_def)
    from svc_create_registry [OF this] show ?thesis by (simp add: demo_world_def)
  qed
  then have "memory_registry (\<lambda>bs. bs) (\<lambda>_. 0) (w_registry demo_file)"
    by (simp add: memory_registry_def demo_registry_def registry_register_def registry_new_def)
  ultimately show ?thesis
    using read_after_write [OF demo_service_ops _ _ wr] wr by blast
qed

end
