(* ===== verification/Disk.thy ===== *)
theory Disk
  imports BTree_Map
begin

section \<open>Files on a disk that may fail\<close>

text \<open>
  The calls of \<open>std::fs\<close> the persistent stores make. A disk holds the bytes of each file by
  path and a script of outcomes: every call takes the next outcome, and fails with it if it says so; an
  empty script means that nothing fails any more. The \<open>stat\<close> behind \<open>Path::exists\<close> has a
  script of its own, since its failures are not reported. A failing \<open>write_all\<close> leaves a prefix of the
  data behind, as a full disk or a process that is killed does; \<open>rename\<close> is atomic, as POSIX has it. Since a
  failing call ends every operation modelled here without further effect on files, a process that
  stops at a call leaves the same files as a failure of it; what a power failure does to completed calls that were
  not flushed is outside the model. Directories are implicit, and the advisory locks are calls
  without an effect on files: an operation under an exclusive lock is one step.
\<close>

datatype io_kind = NotFoundKind | ConnectionRefusedKind | TimedOutKind | ConnectionAbortedKind | UnexpectedEofKind | OtherKind

record io_error =
  io_kind :: io_kind
  io_message :: string

datatype io_outcome = Works | Fails string nat

type_synonym path_buf = "string list"

record disk =
  dk_files :: "(path_buf, bytes) btree_map"
  dk_faults :: "io_outcome list"
  dk_stat_faults :: "bool list"

type_synonym 'a io = "(disk, io_error, 'a) op"

subsection \<open>Calls\<close>

definition next_outcome :: "disk \<Rightarrow> io_outcome \<times> disk" where
  "next_outcome d = (case dk_faults d of [] \<Rightarrow> (Works, d) | out # outs \<Rightarrow> (out, d\<lparr>dk_faults := outs\<rparr>))"

definition other_error :: "string \<Rightarrow> io_error" where
  "other_error message = \<lparr>io_kind = OtherKind, io_message = message\<rparr>"

definition not_found_error :: io_error where
  "not_found_error = \<lparr>io_kind = NotFoundKind, io_message = ''No such file or directory (os error 2)''\<rparr>"

text \<open>A call that has no effect when it fails, and may itself answer with an error.\<close>

definition io_call :: "(disk \<Rightarrow> (io_error + 'a) \<times> disk) \<Rightarrow> 'a io" where
  "io_call f d = (case next_outcome d of
     (Works, d1) \<Rightarrow> f d1
   | (Fails message n, d1) \<Rightarrow> (Inl (other_error message), d1))"

definition set_file :: "path_buf \<Rightarrow> bytes \<Rightarrow> disk \<Rightarrow> disk" where
  "set_file p bs d = d\<lparr>dk_files := bt_insert p bs (dk_files d)\<rparr>"

definition fs_create_dir_all :: "path_buf \<Rightarrow> unit io" where
  "fs_create_dir_all p = io_call (\<lambda>d. (Inr (), d))"

definition fs_read :: "path_buf \<Rightarrow> bytes io" where
  "fs_read p = io_call (\<lambda>d. (ok_or (map_of (dk_files d) p) not_found_error, d))"

definition file_create :: "path_buf \<Rightarrow> unit io" where
  "file_create p = io_call (\<lambda>d. (Inr (), set_file p [] d))"

definition file_write_all :: "path_buf \<Rightarrow> bytes \<Rightarrow> unit io" where
  "file_write_all p bs d = (case next_outcome d of
     (Works, d1) \<Rightarrow> (Inr (), set_file p bs d1)
   | (Fails message n, d1) \<Rightarrow> (Inl (other_error message), set_file p (take n bs) d1))"

definition file_sync_all :: "path_buf \<Rightarrow> unit io" where
  "file_sync_all p = io_call (\<lambda>d. (Inr (), d))"

definition fs_rename :: "path_buf \<Rightarrow> path_buf \<Rightarrow> unit io" where
  "fs_rename from_path to_path = io_call (\<lambda>d. case map_of (dk_files d) from_path of
     None \<Rightarrow> (Inl not_found_error, d)
   | Some bs \<Rightarrow> (Inr (), d\<lparr>dk_files := bt_insert to_path bs (bt_remove from_path (dk_files d))\<rparr>))"

definition fs_remove_file :: "path_buf \<Rightarrow> unit io" where
  "fs_remove_file p = io_call (\<lambda>d. case map_of (dk_files d) p of
     None \<Rightarrow> (Inl not_found_error, d)
   | Some bs \<Rightarrow> (Inr (), d\<lparr>dk_files := bt_remove p (dk_files d)\<rparr>))"

text \<open>\<open>create(true).truncate(false)\<close>: an existing file keeps its bytes.\<close>

definition open_lock_file :: "path_buf \<Rightarrow> unit io" where
  "open_lock_file p = io_call (\<lambda>d. (Inr (), case map_of (dk_files d) p of
     None \<Rightarrow> set_file p [] d | Some bs \<Rightarrow> d))"

definition flock :: "unit io" where
  "flock = io_call (\<lambda>d. (Inr (), d))"

definition set_permissions :: "path_buf \<Rightarrow> unit io" where
  "set_permissions p = io_call (\<lambda>d. (if map_of (dk_files d) p = None then Inl not_found_error else Inr (), d))"

text \<open>\<open>File::open\<close> and \<open>set_permissions\<close> on a directory.\<close>

definition dir_open :: "path_buf \<Rightarrow> unit io" where
  "dir_open p = io_call (\<lambda>d. (Inr (), d))"

definition dir_set_permissions :: "path_buf \<Rightarrow> unit io" where
  "dir_set_permissions p = io_call (\<lambda>d. (Inr (), d))"

text \<open>\<open>Path::exists\<close> answers \<open>false\<close> when the call fails.\<close>

definition path_exists :: "path_buf \<Rightarrow> disk \<Rightarrow> bool \<times> disk" where
  "path_exists p d = (case dk_stat_faults d of
     [] \<Rightarrow> (map_of (dk_files d) p \<noteq> None, d)
   | fails # rest \<Rightarrow> (\<not> fails \<and> map_of (dk_files d) p \<noteq> None, d\<lparr>dk_stat_faults := rest\<rparr>))"

text \<open>\<open>read_dir\<close> lists the files of a directory; each entry's \<open>metadata\<close> is a call of its own.\<close>

definition dir_files :: "path_buf \<Rightarrow> disk \<Rightarrow> bytes list" where
  "dir_files root d = map snd (filter (\<lambda>(p, bs). p \<noteq> [] \<and> butlast p = root) (dk_files d))"

definition fs_read_dir :: "path_buf \<Rightarrow> bytes list io" where
  "fs_read_dir root = io_call (\<lambda>d. (Inr (dir_files root d), d))"

definition entry_len :: "bytes \<Rightarrow> u64 io" where
  "entry_len bs = io_call (\<lambda>d. (Inr (of_nat (length bs)), d))"

subsection \<open>Paths\<close>

definition path_join :: "path_buf \<Rightarrow> string \<Rightarrow> path_buf" where
  "path_join p name = p @ [name]"

text \<open>The part of a file name before its last dot, which is all of it if the only dot is the first byte.\<close>

definition file_stem :: "string \<Rightarrow> string" where
  "file_stem name = (case position (\<lambda>c. c = CHR ''.'') (rev name) of
     None \<Rightarrow> name
   | Some i \<Rightarrow> if i + 1 = length name then name else take (length name - i - 1) name)"

definition with_extension :: "path_buf \<Rightarrow> string \<Rightarrow> path_buf" where
  "with_extension p ext = (if p = [] then [] else butlast p @ [file_stem (last p) @ ''.'' @ ext])"

definition path_parent :: "path_buf \<Rightarrow> path_buf" where
  "path_parent p = butlast p"

subsection \<open>What calls leave alone\<close>

abbreviation file_at :: "disk \<Rightarrow> path_buf \<Rightarrow> bytes option" where
  "file_at d \<equiv> map_of (dk_files d)"

definition healthy :: "disk \<Rightarrow> bool" where
  "healthy d \<longleftrightarrow> dk_faults d = [] \<and> dk_stat_faults d = []"

text \<open>Every \<open>stat\<close> works; other calls may fail.\<close>

definition stat_reliable :: "disk \<Rightarrow> bool" where
  "stat_reliable d \<longleftrightarrow> dk_stat_faults d = []"

lemma next_outcome_files: "next_outcome d = (out, d1) \<Longrightarrow> dk_files d1 = dk_files d"
  by (auto simp: next_outcome_def split: list.splits)

lemma next_outcome_stat: "next_outcome d = (out, d1) \<Longrightarrow> dk_stat_faults d1 = dk_stat_faults d"
  by (auto simp: next_outcome_def split: list.splits)

lemma next_outcome_healthy: "healthy d \<Longrightarrow> next_outcome d = (Works, d)"
  by (simp add: healthy_def next_outcome_def)

lemma healthy_set_file [simp]: "healthy (set_file p bs d) = healthy d"
  by (simp add: healthy_def set_file_def)

lemma healthy_files [simp]: "healthy (d\<lparr>dk_files := m\<rparr>) = healthy d"
  by (simp add: healthy_def)

lemma dk_set_file [simp]: "dk_stat_faults (set_file p bs d) = dk_stat_faults d"
  by (simp add: set_file_def)

lemma file_at_set_file [simp]: "file_at (set_file p bs d) = (file_at d)(p \<mapsto> bs)"
  by (simp add: set_file_def)

lemma io_call_cases:
  assumes "io_call f d = (r, d')"
  obtains (works) d1 where "dk_files d1 = dk_files d" "dk_stat_faults d1 = dk_stat_faults d" "f d1 = (r, d')"
    | (fails) message where "r = Inl (other_error message)" "dk_files d' = dk_files d"
        "dk_stat_faults d' = dk_stat_faults d"
proof (cases "next_outcome d")
  case (Pair out d1)
  note kept = next_outcome_files [OF Pair] next_outcome_stat [OF Pair]
  show thesis
  proof (cases out)
    case Works
    with Pair assms works [OF kept] show thesis by (simp add: io_call_def)
  next
    case (Fails message n)
    with Pair assms kept fails [of message] show thesis by (simp add: io_call_def)
  qed
qed

lemma io_call_healthy: "healthy d \<Longrightarrow> io_call f d = f d"
  by (simp add: io_call_def next_outcome_healthy)

lemmas healthy_calls =
  io_call_healthy next_outcome_healthy fs_create_dir_all_def fs_read_def file_create_def file_write_all_def
  file_sync_all_def fs_rename_def fs_remove_file_def open_lock_file_def flock_def set_permissions_def
  fs_read_dir_def entry_len_def dir_open_def dir_set_permissions_def

lemma path_exists_healthy: "healthy d \<Longrightarrow> path_exists p d = (file_at d p \<noteq> None, d)"
  by (simp add: path_exists_def healthy_def)

text \<open>Calls without an effect on files.\<close>

lemma quiet_calls:
  "fs_create_dir_all p d = (r1, d') \<Longrightarrow> dk_files d' = dk_files d"
  "fs_read p d = (r2, d') \<Longrightarrow> dk_files d' = dk_files d"
  "file_sync_all p d = (r1, d') \<Longrightarrow> dk_files d' = dk_files d"
  "flock d = (r1, d') \<Longrightarrow> dk_files d' = dk_files d"
  "set_permissions p d = (r1, d') \<Longrightarrow> dk_files d' = dk_files d"
  "path_exists p d = (b, d') \<Longrightarrow> dk_files d' = dk_files d"
  "fs_read_dir p d = (r3, d') \<Longrightarrow> dk_files d' = dk_files d"
  "entry_len bs d = (r4, d') \<Longrightarrow> dk_files d' = dk_files d"
  "dir_open p d = (r1, d') \<Longrightarrow> dk_files d' = dk_files d"
  "dir_set_permissions p d = (r1, d') \<Longrightarrow> dk_files d' = dk_files d"
  by (auto simp: dir_open_def dir_set_permissions_def fs_create_dir_all_def fs_read_def file_sync_all_def flock_def set_permissions_def path_exists_def
      fs_read_dir_def entry_len_def elim!: io_call_cases split: list.splits)

text \<open>Calls that touch one file only.\<close>

lemma open_lock_file_at: "open_lock_file p d = (r, d') \<Longrightarrow> q \<noteq> p \<Longrightarrow> file_at d' q = file_at d q"
  by (auto simp: open_lock_file_def elim!: io_call_cases split: option.splits)

lemma file_create_at: "file_create p d = (r, d') \<Longrightarrow> q \<noteq> p \<Longrightarrow> file_at d' q = file_at d q"
  by (auto simp: file_create_def elim!: io_call_cases)

lemma file_write_all_at: "file_write_all p bs d = (r, d') \<Longrightarrow> q \<noteq> p \<Longrightarrow> file_at d' q = file_at d q"
  by (auto dest: next_outcome_files simp: file_write_all_def split: prod.splits io_outcome.splits)

lemma file_write_all_ok: "file_write_all p bs d = (Inr u, d') \<Longrightarrow> file_at d' p = Some bs"
  by (auto simp: file_write_all_def split: prod.splits io_outcome.splits)

lemma fs_remove_file_at: "fs_remove_file p d = (r, d') \<Longrightarrow> q \<noteq> p \<Longrightarrow> file_at d' q = file_at d q"
  by (auto simp: fs_remove_file_def elim!: io_call_cases split: option.splits)

lemma fs_rename_cases:
  assumes "fs_rename p q d = (r, d')"
  obtains (moved) bs where "r = Inr ()" "file_at d p = Some bs" "file_at d' = (file_at d)(p := None, q \<mapsto> bs)"
    | (kept) e where "r = Inl e" "dk_files d' = dk_files d"
  using assms by (auto simp: fs_rename_def elim!: io_call_cases split: option.splits)

lemma fs_read_ok: "fs_read p d = (Inr bs, d') \<Longrightarrow> file_at d p = Some bs"
  by (auto simp: fs_read_def elim!: io_call_cases)

lemma path_exists_true: "path_exists p d = (True, d') \<Longrightarrow> file_at d p \<noteq> None"
  by (auto simp: path_exists_def split: list.splits)

lemma path_exists_reliable: "stat_reliable d \<Longrightarrow> path_exists p d = (file_at d p \<noteq> None, d)"
  by (simp add: path_exists_def stat_reliable_def)

text \<open>No call but \<open>exists\<close> uses up the script of \<open>stat\<close>.\<close>

lemma stat_calls:
  "fs_create_dir_all p d = (r1, d') \<Longrightarrow> dk_stat_faults d' = dk_stat_faults d"
  "fs_read p d = (r2, d') \<Longrightarrow> dk_stat_faults d' = dk_stat_faults d"
  "file_sync_all p d = (r1, d') \<Longrightarrow> dk_stat_faults d' = dk_stat_faults d"
  "flock d = (r1, d') \<Longrightarrow> dk_stat_faults d' = dk_stat_faults d"
  "set_permissions p d = (r1, d') \<Longrightarrow> dk_stat_faults d' = dk_stat_faults d"
  "fs_read_dir p d = (r3, d') \<Longrightarrow> dk_stat_faults d' = dk_stat_faults d"
  "entry_len bs d = (r4, d') \<Longrightarrow> dk_stat_faults d' = dk_stat_faults d"
  "open_lock_file p d = (r1, d') \<Longrightarrow> dk_stat_faults d' = dk_stat_faults d"
  "file_create p d = (r1, d') \<Longrightarrow> dk_stat_faults d' = dk_stat_faults d"
  "file_write_all p bs d = (r1, d') \<Longrightarrow> dk_stat_faults d' = dk_stat_faults d"
  "fs_rename p q d = (r1, d') \<Longrightarrow> dk_stat_faults d' = dk_stat_faults d"
  "fs_remove_file p d = (r1, d') \<Longrightarrow> dk_stat_faults d' = dk_stat_faults d"
  by (auto dest: next_outcome_stat simp: fs_create_dir_all_def fs_read_def file_sync_all_def flock_def set_permissions_def fs_read_dir_def
      entry_len_def open_lock_file_def file_create_def file_write_all_def fs_rename_def fs_remove_file_def
      elim!: io_call_cases split: option.splits prod.splits io_outcome.splits)

subsection \<open>Atomic replacement\<close>

text \<open>
  Write a temporary file beside the target, prepare it and move it over: the idiom of all persistent
  stores. Only the rename touches the target.
\<close>

definition replace_file :: "unit io \<Rightarrow> path_buf \<Rightarrow> bytes \<Rightarrow> path_buf \<Rightarrow> unit io" where
  "replace_file prepare temporary bs p =
     op_bind (file_create temporary) (\<lambda>_.
     op_bind (file_write_all temporary bs) (\<lambda>_.
     op_bind (file_sync_all temporary) (\<lambda>_.
     op_bind prepare (\<lambda>_.
     fs_rename temporary p))))"

definition quiet :: "'a io \<Rightarrow> bool" where
  "quiet m \<longleftrightarrow> (\<forall>d r d'. m d = (r, d') \<longrightarrow> dk_files d' = dk_files d \<and> dk_stat_faults d' = dk_stat_faults d)"

lemma quietI [intro]:
  "quiet (op_lift q)" "quiet (set_permissions p)" "quiet flock"
  by (auto simp: quiet_def dest: quiet_calls stat_calls)

lemma replace_file_cases:
  assumes "replace_file prepare temporary bs p d = (r, d')" "temporary \<noteq> p" "quiet prepare"
  obtains (replaced) "r = Inr ()" "file_at d' = (file_at d)(temporary := None, p \<mapsto> bs)"
      "dk_stat_faults d' = dk_stat_faults d"
    | (kept) e where "r = Inl e" "\<And>q. q \<noteq> temporary \<Longrightarrow> file_at d' q = file_at d q"
      "dk_stat_faults d' = dk_stat_faults d"
proof -
  obtain r1 d1 where 1: "file_create temporary d = (r1, d1)" by fastforce
  obtain r2 d2 where 2: "file_write_all temporary bs d1 = (r2, d2)" by fastforce
  obtain r3 d3 where 3: "file_sync_all temporary d2 = (r3, d3)" by fastforce
  obtain r4 d4 where 4: "prepare d3 = (r4, d4)" by fastforce
  obtain r5 d5 where 5: "fs_rename temporary p d4 = (r5, d5)" by fastforce
  have stat: "dk_stat_faults d1 = dk_stat_faults d" "dk_stat_faults d2 = dk_stat_faults d1"
    "dk_stat_faults d3 = dk_stat_faults d2" "dk_stat_faults d4 = dk_stat_faults d3" "dk_stat_faults d5 = dk_stat_faults d4"
    using stat_calls(9) [OF 1] stat_calls(10) [OF 2] stat_calls(3) [OF 3] stat_calls(11) [OF 5] 4 assms(3)
    by (auto simp: quiet_def)
  have files: "dk_files d3 = dk_files d2" "dk_files d4 = dk_files d3"
    using quiet_calls(3) [OF 3] 4 assms(3) by (auto simp: quiet_def)
  have at: "file_at d1 q = file_at d q" "file_at d2 q = file_at d q" if "q \<noteq> temporary" for q
    using file_create_at [OF 1 that] file_write_all_at [OF 2 that] by simp_all
  show thesis
  proof (cases "\<exists>u1 u2 u3 u4 u5. r1 = Inr u1 \<and> r2 = Inr u2 \<and> r3 = Inr u3 \<and> r4 = Inr u4 \<and> r5 = Inr u5")
    case True
    with assms(1) 1 2 3 4 5 have r: "r = r5" "d' = d5" by (auto simp: replace_file_def)
    from 5 show thesis
    proof (cases rule: fs_rename_cases)
      case (moved bs')
      have "file_at d2 temporary = Some bs" using True 2 file_write_all_ok by blast
      with moved files have "file_at d' = (file_at d2)(temporary := None, p \<mapsto> bs)" by (simp add: r)
      also have "\<dots> = (file_at d)(temporary := None, p \<mapsto> bs)" using at(2) by (intro ext) auto
      finally show thesis using moved(1) stat replaced by (simp add: r)
    next
      case (kept e)
      with True show thesis by simp
    qed
  next
    case False
    from assms(1) 1 2 3 4 5 consider (1) e where "r = Inl e" "d' = d1" | (2) e where "r = Inl e" "d' = d2"
      | (3) e where "r = Inl e" "d' = d3" | (4) e where "r = Inl e" "d' = d4" | (5) e where "r = Inl e" "d' = d5" "r5 = Inl e"
      using False by (cases r5) (auto simp: replace_file_def elim!: op_bind_cases)
    then show thesis
    proof cases
      case 5
      from \<open>fs_rename temporary p d4 = (r5, d5)\<close> 5(3) have "dk_files d5 = dk_files d4"
        by (cases rule: fs_rename_cases) auto
      with 5 files at stat kept [of e] show thesis by simp
    qed (use files at stat kept in auto)
  qed
qed

lemma replace_file_healthy:
  assumes "healthy d" "temporary \<noteq> p" "\<And>d. healthy d \<Longrightarrow> prepare (set_file temporary bs d) = (Inr (), set_file temporary bs d)"
  shows "\<exists>d'. replace_file prepare temporary bs p d = (Inr (), d') \<and> healthy d' \<and>
    file_at d' = (file_at d)(temporary := None, p \<mapsto> bs)"
  using assms by (simp add: replace_file_def healthy_calls fun_upd_twist)

subsection \<open>Errors of calls as errors of a store\<close>

definition io_err :: "('e \<Rightarrow> 'f) \<Rightarrow> ('w, 'e, 'a) op \<Rightarrow> ('w, 'f, 'a) op" where
  "io_err f m w = (let (r, w') = m w in (map_err f r, w'))"

lemma io_err_eq_Inr [simp]: "io_err f m w = (Inr x, w') \<longleftrightarrow> m w = (Inr x, w')"
  by (auto simp: io_err_def split: prod.splits)

lemma io_err_cases:
  assumes "io_err f m w = (r, w')"
  obtains r1 where "m w = (r1, w')" "r = map_err f r1"
  using assms by (auto simp: io_err_def split: prod.splits)

lemma io_err_Inl: "m w = (Inl e, w') \<Longrightarrow> io_err f m w = (Inl (f e), w')"
  by (simp add: io_err_def)

text \<open>
  The results \<open>serde_json\<close> gives, and what the stores rely on: a value that was printed is read
  back.
\<close>

record 'a json_codec =
  to_json :: "'a \<Rightarrow> string + bytes"
  from_json :: "bytes \<Rightarrow> string + 'a"

definition json_ok :: "'a json_codec \<Rightarrow> bool" where
  "json_ok J \<longleftrightarrow> (\<forall>x bs. to_json J x = Inr bs \<longrightarrow> from_json J bs = Inr x)"

end
