(* ===== verification/Local_Metadata.thy ===== *)
theory Local_Metadata
  imports Metadata Disk
begin

section \<open>The persistent metadata store\<close>

text \<open>
  \<open>LocalMetadataStore\<close> of \<open>metadata.rs\<close>: the whole snapshot in one file, replaced
  atomically under an advisory lock. It keeps the contract \<open>metadata_store\<close> on a disk whose
  calls fail in any way but that \<open>stat\<close> tells the truth, so everything proved in that locale
  holds for it.
\<close>

record local_metadata =
  lm_path :: path_buf
  lm_lock_path :: path_buf
  lm_poisoned :: bool

definition meta_err :: "'a io \<Rightarrow> (disk, filesystem_error, 'a) op" where
  "meta_err = io_err (\<lambda>e. MetadataUnavailable (io_message e))"

definition metadata_poisoned :: filesystem_error where
  "metadata_poisoned = MetadataUnavailable ''metadata lock poisoned''"

definition read_snapshot ::
    "metadata_snapshot json_codec \<Rightarrow> path_buf \<Rightarrow> (disk, filesystem_error, metadata_snapshot) op" where
  "read_snapshot J p d = (let (there, d1) = path_exists p d in
     if \<not> there then (Inr metadata_snapshot_default, d1)
     else op_bind (meta_err (fs_read p)) (\<lambda>bs. op_lift (map_err MetadataUnavailable (from_json J bs))) d1)"

text \<open>The directory is created if the path names one.\<close>

definition create_parent :: "path_buf \<Rightarrow> (disk, filesystem_error, unit) op" where
  "create_parent p = (if path_parent p = [] then op_lift (Inr ()) else meta_err (fs_create_dir_all (path_parent p)))"

definition local_metadata_open ::
    "metadata_snapshot json_codec \<Rightarrow> path_buf \<Rightarrow> (disk, filesystem_error, local_metadata) op" where
  "local_metadata_open J p =
     op_bind (create_parent p) (\<lambda>_ d. let (there, d1) = path_exists p d in
       op_bind (if there then read_snapshot J p else op_lift (Inr metadata_snapshot_default)) (\<lambda>_.
         op_lift (Inr \<lparr>lm_path = p, lm_lock_path = with_extension p ''lock'', lm_poisoned = False\<rparr>)) d1)"

definition persist ::
    "metadata_snapshot json_codec \<Rightarrow> local_metadata \<Rightarrow> metadata_snapshot \<Rightarrow> (disk, filesystem_error, unit) op" where
  "persist J st state =
     op_bind (create_parent (lm_path st)) (\<lambda>_.
     op_bind (op_lift (map_err MetadataUnavailable (to_json J state))) (\<lambda>bs.
     meta_err (replace_file (op_lift (Inr ())) (with_extension (lm_path st) ''tmp'') bs (lm_path st))))"

text \<open>The lock is released before the result is looked at; failing to release it is an error.\<close>

definition unlock_then :: "(disk, filesystem_error, 'a) op \<Rightarrow> (disk, filesystem_error, 'a) op" where
  "unlock_then m d = (let (result, d1) = m d in op_bind (meta_err flock) (\<lambda>_. op_lift result) d1)"

definition local_metadata_load ::
    "metadata_snapshot json_codec \<Rightarrow> local_metadata \<Rightarrow> (disk, filesystem_error, metadata_snapshot) op" where
  "local_metadata_load J st =
     (if lm_poisoned st then op_lift (Inl metadata_poisoned)
      else op_bind (meta_err (open_lock_file (lm_lock_path st))) (\<lambda>_.
        op_bind (meta_err flock) (\<lambda>_.
        unlock_then (read_snapshot J (lm_path st)))))"

definition local_metadata_cas ::
    "metadata_snapshot json_codec \<Rightarrow> local_metadata \<Rightarrow> metadata_snapshot \<Rightarrow> (disk, filesystem_error, unit) op" where
  "local_metadata_cas J st replacement =
     (if lm_poisoned st then op_lift (Inl metadata_poisoned)
      else op_bind (meta_err (open_lock_file (lm_lock_path st))) (\<lambda>_.
        op_bind (meta_err flock) (\<lambda>_.
        op_bind (read_snapshot J (lm_path st)) (\<lambda>current.
          if ms_revision current \<noteq> ms_revision replacement
          then op_bind (meta_err flock) (\<lambda>_. op_lift (Inl Conflict))
          else unlock_then (persist J st (replacement\<lparr>ms_revision := ms_revision replacement + 1\<rparr>))))))"

definition local_metadata_ops :: "metadata_snapshot json_codec \<Rightarrow> local_metadata \<Rightarrow> disk metadata_ops" where
  "local_metadata_ops J st = \<lparr>md_load = local_metadata_load J st, md_cas = local_metadata_cas J st\<rparr>"

subsection \<open>What the disk says\<close>

definition local_view :: "metadata_snapshot json_codec \<Rightarrow> local_metadata \<Rightarrow> disk \<Rightarrow> metadata_snapshot" where
  "local_view J st d = (case file_at d (lm_path st) of
     None \<Rightarrow> metadata_snapshot_default
   | Some bs \<Rightarrow> (case from_json J bs of Inl e \<Rightarrow> metadata_snapshot_default | Inr x \<Rightarrow> x))"

definition paths_apart :: "local_metadata \<Rightarrow> bool" where
  "paths_apart st \<longleftrightarrow> lm_lock_path st \<noteq> lm_path st \<and> with_extension (lm_path st) ''tmp'' \<noteq> lm_path st"

definition readable :: "metadata_snapshot json_codec \<Rightarrow> local_metadata \<Rightarrow> disk \<Rightarrow> bool" where
  "readable J st d \<longleftrightarrow> (\<forall>bs. file_at d (lm_path st) = Some bs \<longrightarrow> (\<exists>x. from_json J bs = Inr x))"

definition local_ok :: "metadata_snapshot json_codec \<Rightarrow> local_metadata \<Rightarrow> disk \<Rightarrow> bool" where
  "local_ok J st d \<longleftrightarrow> json_ok J \<and> paths_apart st \<and> readable J st d \<and> stat_reliable d"

text \<open>Two disks that show the same snapshot.\<close>

definition same_file :: "local_metadata \<Rightarrow> disk \<Rightarrow> disk \<Rightarrow> bool" where
  "same_file st d d' \<longleftrightarrow> file_at d' (lm_path st) = file_at d (lm_path st) \<and> dk_stat_faults d' = dk_stat_faults d"

lemma same_file_refl [simp]: "same_file st d d"
  by (simp add: same_file_def)

lemma same_file_trans: "same_file st d d1 \<Longrightarrow> same_file st d1 d2 \<Longrightarrow> same_file st d d2"
  by (simp add: same_file_def)

lemma same_file_ok: "same_file st d d' \<Longrightarrow> local_ok J st d' = local_ok J st d"
  by (simp add: same_file_def local_ok_def readable_def stat_reliable_def)

lemma same_file_view: "same_file st d d' \<Longrightarrow> local_view J st d' = local_view J st d"
  by (simp add: same_file_def local_view_def)

lemma meta_err_cases:
  assumes "meta_err m d = (r, d')"
  obtains (ok) x where "m d = (Inr x, d')" "r = Inr x"
    | (err) e where "m d = (Inl e, d')" "r = Inl (MetadataUnavailable (io_message e))"
  using assms unfolding meta_err_def
  by (elim io_err_cases) (metis map_err_simps sum.exhaust)

lemma quiet_same_file: "quiet m \<Longrightarrow> meta_err m d = (r, d') \<Longrightarrow> same_file st d d'"
  by (elim meta_err_cases) (auto simp: quiet_def same_file_def)

lemma lock_same_file:
  assumes "paths_apart st" "meta_err (open_lock_file (lm_lock_path st)) d = (r, d')"
  shows "same_file st d d'"
proof -
  obtain r1 where "open_lock_file (lm_lock_path st) d = (r1, d')" using assms(2) by (elim meta_err_cases)
  with open_lock_file_at [OF this, of "lm_path st"] stat_calls(8) [OF this] assms(1) show ?thesis
    by (auto simp: same_file_def paths_apart_def)
qed

lemma flock_same_file: "meta_err flock d = (r, d') \<Longrightarrow> same_file st d d'"
  by (rule quiet_same_file) auto

lemma quiet_read [intro]: "quiet (fs_read p)" "quiet (fs_create_dir_all p)"
  by (auto simp: quiet_def dest: quiet_calls stat_calls)

text \<open>Reading answers with what the disk says, or fails.\<close>

lemma read_snapshot_cases:
  assumes "local_ok J st d" "read_snapshot J (lm_path st) d = (r, d')"
  shows "same_file st d d' \<and> (r = Inr (local_view J st d) \<or> r \<in> range (\<lambda>m. Inl (MetadataUnavailable m)))"
proof (cases "file_at d (lm_path st)")
  case None
  with assms show ?thesis
    by (simp add: read_snapshot_def path_exists_reliable local_ok_def local_view_def)
next
  case (Some bs)
  then obtain x where x: "from_json J bs = Inr x" using assms(1) by (auto simp: local_ok_def readable_def)
  with Some have view: "local_view J st d = x" by (simp add: local_view_def)
  from assms Some have "op_bind (meta_err (fs_read (lm_path st)))
      (\<lambda>bs. op_lift (map_err MetadataUnavailable (from_json J bs))) d = (r, d')"
    by (simp add: read_snapshot_def path_exists_reliable local_ok_def)
  then show ?thesis
  proof (cases rule: op_bind_cases)
    case (err e)
    then show ?thesis using quiet_same_file [OF quiet_read(1) err(1)] by (auto elim!: meta_err_cases)
  next
    case (ok bs' d1)
    from ok(1) have "fs_read (lm_path st) d = (Inr bs', d1)" by (simp add: meta_err_def)
    with fs_read_ok Some have "bs' = bs" by fastforce
    with ok x view quiet_same_file [OF quiet_read(1) ok(1)] show ?thesis by simp
  qed
qed

lemma create_parent_same_file:
  "create_parent p d = (r, d') \<Longrightarrow> same_file st d d' \<and> (r = Inr () \<or> r \<in> range (\<lambda>m. Inl (MetadataUnavailable m)))"
  using quiet_same_file [OF quiet_read(2)]
  by (auto simp: create_parent_def elim!: meta_err_cases split: if_splits)


abbreviation unavailable :: "filesystem_error set" where
  "unavailable \<equiv> range MetadataUnavailable"

lemma persist_cases:
  assumes "local_ok J st d" "persist J st x d = (r, d')"
  obtains (stored) "r = Inr ()" "local_ok J st d'" "local_view J st d' = x"
    | (kept) e where "r = Inl e" "e \<in> unavailable" "same_file st d d'"
  using assms(2) unfolding persist_def
proof (cases rule: op_bind_cases)
  case (err e)
  with create_parent_same_file kept show thesis by blast
next
  case (ok u d1)
  note d1 = create_parent_same_file [OF ok(1), of st]
  show thesis
  proof (cases "to_json J x")
    case (Inl m)
    with ok d1 kept show thesis by auto
  next
    case (Inr bs)
    let ?tmp = "with_extension (lm_path st) ''tmp''"
    from assms(1) have apart: "?tmp \<noteq> lm_path st" by (simp add: local_ok_def paths_apart_def)
    from ok(2) Inr obtain r1 where rep: "replace_file (op_lift (Inr ())) ?tmp bs (lm_path st) d1 = (r1, d')"
      "r = map_err (\<lambda>e. MetadataUnavailable (io_message e)) r1" by (auto simp: meta_err_def elim: io_err_cases)
    have "quiet (op_lift (Inr ()) :: unit io)" by (rule quietI)
    from rep(1) apart this show thesis
    proof (cases rule: replace_file_cases)
      case replaced
      have "from_json J bs = Inr x" using assms(1) Inr by (auto simp: local_ok_def json_ok_def)
      with replaced have "readable J st d'" "local_view J st d' = x" by (simp_all add: readable_def local_view_def)
      with replaced rep(2) d1 assms(1) stored show thesis
        by (simp add: local_ok_def stat_reliable_def same_file_def)
    next
      case (kept e)
      then have "same_file st d1 d'" using apart by (auto simp: same_file_def)
      with kept rep(2) d1 that(2) show thesis by (auto intro: same_file_trans)
    qed
  qed
qed

lemma unlock_then_cases:
  assumes "unlock_then m d = (r, d')"
  obtains r1 d1 where "m d = (r1, d1)" "same_file st d1 d'" "r = r1 \<or> r \<in> Inl ` unavailable"
proof -
  obtain r1 d1 where m: "m d = (r1, d1)" by fastforce
  with assms have "op_bind (meta_err flock) (\<lambda>_. op_lift r1) d1 = (r, d')" by (simp add: unlock_then_def)
  then show thesis
  proof (cases rule: op_bind_cases)
    case (err e)
    then show thesis using that [OF m flock_same_file [OF err(1)]] by (auto elim!: meta_err_cases)
  next
    case (ok u d2)
    then show thesis using that [OF m] flock_same_file [OF ok(1)] by auto
  qed
qed

text \<open>Taking the lock and reading, the common start of both methods.\<close>

lemma locked_cases:
  assumes "paths_apart st" "op_bind (meta_err (open_lock_file (lm_lock_path st))) (\<lambda>_. op_bind (meta_err flock) (\<lambda>_. m)) d = (r, d')"
  obtains (failed) "r \<in> Inl ` unavailable" "same_file st d d'"
    | (locked) d1 where "same_file st d d1" "m d1 = (r, d')"
  using assms(2)
proof (cases rule: op_bind_cases)
  case (err e)
  then show thesis using failed lock_same_file [OF assms(1) err(1)] by (auto elim!: meta_err_cases)
next
  case (ok u d1)
  note d1 = lock_same_file [OF assms(1) ok(1)]
  from ok(2) show thesis
  proof (cases rule: op_bind_cases)
    case (err e)
    then show thesis
      using failed same_file_trans [OF d1 flock_same_file [OF err(1)]] by (auto elim!: meta_err_cases)
  next
    case (ok u2 d2)
    then show thesis using locked same_file_trans [OF d1 flock_same_file [OF ok(1)]] by blast
  qed
qed

lemma local_load_cases:
  assumes "local_ok J st d" "local_metadata_load J st d = (r, d')"
  shows "same_file st d d' \<and> (r = Inr (local_view J st d) \<or> r \<in> Inl ` unavailable)"
proof (cases "lm_poisoned st")
  case True
  with assms show ?thesis by (auto simp: local_metadata_load_def metadata_poisoned_def)
next
  case False
  have apart: "paths_apart st" using assms(1) by (simp add: local_ok_def)
  from assms(2) False have "op_bind (meta_err (open_lock_file (lm_lock_path st))) (\<lambda>_. op_bind (meta_err flock)
      (\<lambda>_. unlock_then (read_snapshot J (lm_path st)))) d = (r, d')" by (simp add: local_metadata_load_def)
  with apart show ?thesis
  proof (cases rule: locked_cases)
    case (locked d1)
    note ok1 = assms(1) [folded same_file_ok [OF locked(1), of J]]
    from locked(2) obtain r1 d2 where u: "read_snapshot J (lm_path st) d1 = (r1, d2)" "same_file st d2 d'"
      "r = r1 \<or> r \<in> Inl ` unavailable" by (rule unlock_then_cases)
    from read_snapshot_cases [OF ok1 u(1)] u(2,3) same_file_view [OF locked(1)] locked(1) show ?thesis
      by (auto intro: same_file_trans)
  qed auto
qed

text \<open>A swap either replaces the snapshot it was based on or leaves the file as it was.\<close>

lemma local_cas_cases:
  assumes "local_ok J st d" "local_metadata_cas J st x d = (r, d')"
  obtains (committed) "ms_revision (local_view J st d) = ms_revision x" "local_ok J st d'"
      "local_view J st d' = x\<lparr>ms_revision := ms_revision x + 1\<rparr>" "r = Inr () \<or> r \<in> Inl ` unavailable"
    | (lost) "r = Inl Conflict" "same_file st d d'" "ms_revision (local_view J st d) \<noteq> ms_revision x"
    | (failed) "r \<in> Inl ` unavailable" "same_file st d d'"
proof (cases "lm_poisoned st")
  case True
  with assms failed show thesis by (auto simp: local_metadata_cas_def metadata_poisoned_def)
next
  case False
  have apart: "paths_apart st" using assms(1) by (simp add: local_ok_def)
  let ?new = "x\<lparr>ms_revision := ms_revision x + 1\<rparr>"
  let ?swap = "\<lambda>current. if ms_revision current \<noteq> ms_revision x
          then op_bind (meta_err flock) (\<lambda>_. op_lift (Inl Conflict)) else unlock_then (persist J st ?new)"
  from assms(2) False have "op_bind (meta_err (open_lock_file (lm_lock_path st))) (\<lambda>_. op_bind (meta_err flock)
      (\<lambda>_. op_bind (read_snapshot J (lm_path st)) ?swap)) d = (r, d')" by (simp add: local_metadata_cas_def)
  with apart show thesis
  proof (cases rule: locked_cases)
    case (locked d1)
    note view1 = same_file_view [OF locked(1), of J] and ok1 = assms(1) [folded same_file_ok [OF locked(1), of J]]
    from locked(2) show thesis
    proof (cases rule: op_bind_cases)
      case (err e)
      with read_snapshot_cases [OF ok1 err(1)] failed same_file_trans [OF locked(1)] show thesis by auto
    next
      case (ok current d2)
      from read_snapshot_cases [OF ok1 ok(1)] view1
      have cur: "current = local_view J st d" "same_file st d d2" using same_file_trans [OF locked(1)] by auto
      note ok2 = assms(1) [folded same_file_ok [OF cur(2), of J]]
      show thesis
      proof (cases "ms_revision current = ms_revision x")
        case True
        with ok(2) have "unlock_then (persist J st ?new) d2 = (r, d')" by simp
        then obtain r1 d3 where u: "persist J st ?new d2 = (r1, d3)" "same_file st d3 d'" "r = r1 \<or> r \<in> Inl ` unavailable"
          by (rule unlock_then_cases)
        from ok2 u(1) show thesis
        proof (cases rule: persist_cases)
          case stored
          with u(2,3) True cur(1) committed show thesis using same_file_ok same_file_view by auto
        next
          case (kept e)
          with u(2,3) cur(2) failed show thesis by (auto intro: same_file_trans)
        qed
      next
        case False
        with ok(2) have "op_bind (meta_err flock) (\<lambda>_. op_lift (Inl Conflict)) d2 = (r, d')" by simp
        then show thesis
        proof (cases rule: op_bind_cases)
          case (err e)
          then show thesis using failed same_file_trans [OF cur(2) flock_same_file [OF err(1)]]
            by (auto elim!: meta_err_cases)
        next
          case (ok u d3)
          then show thesis using lost False cur same_file_trans [OF cur(2) flock_same_file [OF ok(1)]] by auto
        qed
      qed
    qed
  qed (use failed in blast)
qed

subsection \<open>The contract\<close>

interpretation lm: metadata_store "local_metadata_load J st" "local_metadata_cas J st" "local_view J st"
  "local_ok J st" "same_file st" "\<lambda>_. 0"
  "\<lambda>x u t. local_view J st t = x\<lparr>ms_revision := ms_revision (local_view J st u) + 1\<rparr>" for J st
proof (unfold_locales, goal_cases)
  case (2 s t u)
  then show ?case by (rule same_file_trans)
next
  case (3 s t)
  then show ?case using same_file_ok by blast
next
  case (4 s r t)
  then show ?case using local_load_cases by blast
next
  case (5 s x t)
  from local_load_cases [OF this] have "same_file st s t" "x = local_view J st s" by auto
  then show ?case using same_file_view [of st s t J] by simp
next
  case (6 s x t)
  then show ?case
  proof (cases rule: local_cas_cases)
    case committed
    then show ?thesis by (intro conjI exI [of _ s]) simp_all
  qed auto
next
  case (8 s x t)
  then show ?case
  proof (cases rule: local_cas_cases)
    case lost
    with same_file_view [OF lost(2), of J] show ?thesis by simp
  qed auto
next
  case (9 s t)
  then show ?case using same_file_view by blast
next
  case (10 s e t)
  from local_load_cases [OF this] show ?case by auto
next
  case (11 s x e t)
  then show ?case by (cases rule: local_cas_cases) auto
next
  case (13 s t)
  then show ?case using same_file_view by blast
qed simp_all


lemma local_ops [simp]: "lm.ops J st = local_metadata_ops J st"
  by (simp add: lm.ops_def local_metadata_ops_def)

subsection \<open>Properties\<close>

text \<open>
  A codec for the snapshots of empty filesystems, a file at revision 5, and a disk whose calls fail from
  some point on.
\<close>

definition demo_codec :: "metadata_snapshot json_codec" where
  "demo_codec = \<lparr>to_json = (\<lambda>x. if x = metadata_snapshot_default\<lparr>ms_revision := ms_revision x\<rparr> \<and> ms_revision x < 256
       then Inr [ucast (ms_revision x)] else Inl ''unsupported''),
     from_json = (\<lambda>bs. case bs of [b] \<Rightarrow> Inr (metadata_snapshot_default\<lparr>ms_revision := ucast b\<rparr>) | _ \<Rightarrow> Inl ''EOF'')\<rparr>"

definition demo_local :: local_metadata where
  "demo_local = \<lparr>lm_path = [''d'', ''metadata.json''], lm_lock_path = [''d'', ''metadata.lock''], lm_poisoned = False\<rparr>"

definition demo_disk :: "io_outcome list \<Rightarrow> disk" where
  "demo_disk faults = \<lparr>dk_files = [([''d'', ''metadata.json''], [5])], dk_faults = faults, dk_stat_faults = []\<rparr>"

definition demo_snapshot :: "u64 \<Rightarrow> metadata_snapshot" where
  "demo_snapshot n = metadata_snapshot_default\<lparr>ms_revision := n\<rparr>"

lemma demo_codec_ok: "json_ok demo_codec"
proof -
  have "ucast (ucast n :: byte) = n" if "n < 256" for n :: u64
  proof -
    have "unat n < 256" using that by (simp add: word_less_nat_alt)
    then show ?thesis
      by (simp add: word_unat_eq_iff unsigned_ucast_eq unsigned_take_bit_eq take_bit_nat_eq_self)
  qed
  then show ?thesis by (auto simp: json_ok_def demo_codec_def)
qed

lemma demo_local_ok: "local_ok demo_codec demo_local (demo_disk faults)"
proof -
  have "paths_apart demo_local" by code_simp
  then show ?thesis
    using demo_codec_ok
    by (auto simp: local_ok_def readable_def stat_reliable_def demo_disk_def demo_local_def demo_codec_def)
qed

text \<open>
  C7: compare-and-swap on disk is crash safe: whatever calls fail but the \<open>stat\<close> behind \<open>Path::exists\<close>, and wherever
  the process stops, the file afterwards holds either the snapshot it held before or the complete replacement, and the
  latter only if the revisions agreed. Success means the replacement is in place, \<open>Conflict\<close> means
  that nothing changed; the store stays readable. (What a failing \<open>stat\<close> does is \<open>stat_failure_overwrites\<close>.)
\<close>

theorem local_cas_crash_safe:
  assumes "local_ok J st d" "local_metadata_cas J st x d = (r, d')"
  shows "local_ok J st d' \<and>
    (local_view J st d' = local_view J st d \<or>
     ms_revision (local_view J st d) = ms_revision x \<and> local_view J st d' = x\<lparr>ms_revision := ms_revision x + 1\<rparr>) \<and>
    (r = Inr () \<longrightarrow> ms_revision (local_view J st d) = ms_revision x \<and>
       local_view J st d' = x\<lparr>ms_revision := ms_revision x + 1\<rparr>) \<and>
    (r = Inl Conflict \<longrightarrow> ms_revision (local_view J st d) \<noteq> ms_revision x \<and> local_view J st d' = local_view J st d)"
  using assms
proof (cases rule: local_cas_cases)
  case committed
  then show ?thesis by auto
next
  case lost
  with assms(1) same_file_ok [OF lost(2), of J] same_file_view [OF lost(2), of J] show ?thesis by simp
next
  case failed
  with assms(1) same_file_ok [OF failed(2), of J] same_file_view [OF failed(2), of J] show ?thesis by auto
qed

theorem local_cas_crash_safe_witness:
  "local_view demo_codec demo_local (snd (local_metadata_cas demo_codec demo_local (demo_snapshot 5)
      (demo_disk [Works, Works, Works, Works, Works, Fails ''no space'' 0]))) = demo_snapshot 5 \<and>
   local_view demo_codec demo_local (snd (local_metadata_cas demo_codec demo_local (demo_snapshot 5) (demo_disk []))) =
     demo_snapshot 6"
proof -
  let ?d = "demo_disk [Works, Works, Works, Works, Works, Fails ''no space'' 0]"
  obtain r d' where run: "local_metadata_cas demo_codec demo_local (demo_snapshot 5) ?d = (r, d')" by fastforce
  have old: "local_view demo_codec demo_local (demo_disk faults) = demo_snapshot 5" for faults
    by (simp add: local_view_def demo_disk_def demo_local_def demo_codec_def demo_snapshot_def)
  have "ms_revision (local_view demo_codec demo_local (snd (local_metadata_cas demo_codec demo_local (demo_snapshot 5) ?d))) = 5"
    by code_simp
  with run local_cas_crash_safe [OF demo_local_ok run]
  have "local_view demo_codec demo_local d' = demo_snapshot 5"
    by (auto simp: old demo_snapshot_def)
  moreover have "fst (local_metadata_cas demo_codec demo_local (demo_snapshot 5) (demo_disk [])) = Inr ()" by code_simp
  then obtain d2 where run2: "local_metadata_cas demo_codec demo_local (demo_snapshot 5) (demo_disk []) = (Inr (), d2)"
    by (metis prod.collapse)
  ultimately show ?thesis
    using run local_cas_crash_safe [OF demo_local_ok run2] run2 by (simp add: demo_snapshot_def)
qed

text \<open>
  An optimistic mutation of the persistent store that returns a result is on disk: it was
  computed from the snapshot the disk held, and reading the disk gives the edited snapshot with the
  revision counted up by one, whatever calls failed on the way.
\<close>

theorem local_mutation_durable:
  assumes "local_ok J st d" "retry_mutation (local_metadata_ops J st) operation d = Some (Inr r, d')"
    and "\<And>k x q y. operation k x = Some (Inr (q, y)) \<Longrightarrow> ms_revision y = ms_revision x"
  shows "\<exists>k y. operation k (local_view J st d) = Some (Inr (r, y)) \<and>
    local_view J st d' = y\<lparr>ms_revision := ms_revision (local_view J st d) + 1\<rparr>"
proof -
  from lm.retry_from_commit [OF assms(1), of 0 8 operation r d'] assms(2,3) obtain k u y
    where "same_file st d u" "operation k (local_view J st u) = Some (Inr (r, y))"
      "local_view J st d' = y\<lparr>ms_revision := ms_revision (local_view J st u) + 1\<rparr>"
    by (auto simp: retry_mutation_def)
  then show ?thesis using same_file_view [of st d u J] by auto
qed

theorem local_mutation_durable_witness:
  "\<exists>d' k y. retry_mutation (local_metadata_ops demo_codec demo_local) (\<lambda>k x. Some (Inr (k, x))) (demo_disk [Works]) =
      Some (Inr 0, d') \<and> Some (Inr (k, demo_snapshot 5)) = Some (Inr (0 :: nat, y)) \<and>
    local_view demo_codec demo_local d' = y\<lparr>ms_revision := ms_revision (demo_snapshot 5) + 1\<rparr>"
proof -
  have "returns (retry_mutation (local_metadata_ops demo_codec demo_local) (\<lambda>k x. Some (Inr (k, x))) (demo_disk [Works])) (Inr 0)"
    by code_simp
  then obtain d' where run: "retry_mutation (local_metadata_ops demo_codec demo_local) (\<lambda>k x. Some (Inr (k, x)))
      (demo_disk [Works]) = Some (Inr 0, d')" by (rule returnsE)
  have old: "local_view demo_codec demo_local (demo_disk [Works]) = demo_snapshot 5"
    by (simp add: local_view_def demo_disk_def demo_local_def demo_codec_def demo_snapshot_def)
  from local_mutation_durable [OF demo_local_ok run] run show ?thesis by (auto simp: old)
qed

text \<open>
  A failing \<open>stat\<close> is taken for a missing file: then a swap based on revision 0 replaces
  whatever the file holds, instead of reporting the conflict or the failure.
\<close>

lemma stat_failure_overwrites:
  assumes "json_ok J" "paths_apart st" "\<not> lm_poisoned st" "lm_path st \<noteq> []" "dk_faults d = []" "dk_stat_faults d = [True]"
    and "ms_revision x = 0" "to_json J (x\<lparr>ms_revision := 1\<rparr>) = Inr bs"
  shows "\<exists>d'. local_metadata_cas J st x d = (Inr (), d') \<and> local_view J st d' = x\<lparr>ms_revision := 1\<rparr>"
proof -
  have calls: "open_lock_file p e = (Inr (), case file_at e p of None \<Rightarrow> set_file p [] e | Some b \<Rightarrow> e)"
    "flock e = (Inr (), e)" "fs_create_dir_all p e = (Inr (), e)" if "dk_faults e = []" for e p
    using that by (simp_all add: open_lock_file_def flock_def fs_create_dir_all_def io_call_def next_outcome_def)
  define d1 where "d1 = (case file_at d (lm_lock_path st) of None \<Rightarrow> set_file (lm_lock_path st) [] d | Some b \<Rightarrow> d)"
  have d1: "dk_faults d1 = []" "dk_stat_faults d1 = [True]"
    using assms(5,6) by (simp_all add: d1_def set_file_def split: option.splits)
  define d2 where "d2 = d1\<lparr>dk_stat_faults := []\<rparr>"
  have d2: "healthy d2" using d1 by (simp add: d2_def healthy_def)
  have snap: "read_snapshot J (lm_path st) d1 = (Inr metadata_snapshot_default, d2)"
    using d1 by (simp add: read_snapshot_def path_exists_def d2_def)
  let ?tmp = "with_extension (lm_path st) ''tmp''"
  obtain d3 where rep: "replace_file (op_lift (Inr ())) ?tmp bs (lm_path st) d2 = (Inr (), d3)" "healthy d3"
    "file_at d3 = (file_at d2)(?tmp := None, lm_path st \<mapsto> bs)"
    using replace_file_healthy [OF d2, of ?tmp "lm_path st" "op_lift (Inr ())" bs] assms(2)
    by (auto simp: paths_apart_def)
  have "persist J st (x\<lparr>ms_revision := 1\<rparr>) d2 = (Inr (), d3)"
    using rep(1) assms(8) d2 by (simp add: persist_def create_parent_def meta_err_def calls(3) healthy_def)
  then have "local_metadata_cas J st x d = (Inr (), d3)"
    using assms(3,5,7) d1 snap rep(2)
    by (simp add: local_metadata_cas_def meta_err_def calls unlock_then_def healthy_def metadata_snapshot_default_def
        d1_def [symmetric])
  moreover have "local_view J st d3 = x\<lparr>ms_revision := 1\<rparr>"
    using rep(3) assms(1,8) by (auto simp: local_view_def json_ok_def)
  ultimately show ?thesis by blast
qed

end
