(* ===== verification/Disk_Frame.thy ===== *)
theory Disk_Frame
  imports Disk
begin

section \<open>Which files an operation touches\<close>

text \<open>
  A predicate on operations of the disk, with a rule for every call and every way to combine calls. The rules are in
  \<open>touching\<close>, and \<open>intro touching\<close> computes the files an operation touches.
\<close>

text \<open>An operation that touches no files but those of a set, and makes no call fail that would not.\<close>

definition touches :: "path_buf set \<Rightarrow> (disk, 'e, 'a) op \<Rightarrow> bool" where
  "touches T m \<longleftrightarrow> (\<forall>d r d'. m d = (r, d') \<longrightarrow> (\<forall>p. p \<notin> T \<longrightarrow> file_at d' p = file_at d p) \<and>
     (stat_reliable d \<longrightarrow> stat_reliable d') \<and> (healthy d \<longrightarrow> healthy d'))"

named_theorems touching

lemma touchesD:
  assumes "touches T m" "m d = (r, d')"
  shows "p \<notin> T \<Longrightarrow> file_at d' p = file_at d p" "stat_reliable d \<Longrightarrow> stat_reliable d'" "healthy d \<Longrightarrow> healthy d'"
  using assms by (auto simp: touches_def)

lemma touches_bind [touching]:
  assumes "touches T m" "\<And>x. touches T (k x)"
  shows "touches T (op_bind m k)"
  unfolding touches_def
proof (intro allI impI)
  fix d r d'
  assume run: "op_bind m k d = (r, d')"
  obtain x d1 where 1: "m d = (x, d1)" by fastforce
  show "(\<forall>p. p \<notin> T \<longrightarrow> file_at d' p = file_at d p) \<and> (stat_reliable d \<longrightarrow> stat_reliable d') \<and> (healthy d \<longrightarrow> healthy d')"
  proof (cases x)
    case (Inl e)
    with run 1 touchesD [OF assms(1) 1] show ?thesis by (simp add: op_bind_def)
  next
    case (Inr y)
    with run 1 have "k y d1 = (r, d')" by (simp add: op_bind_def)
    from touchesD [OF assms(1) 1] touchesD [OF assms(2) this] show ?thesis by simp
  qed
qed

lemma touches_lift [touching]: "touches T (op_lift x)"
  by (simp add: touches_def op_lift_def)

lemma touches_io_err [touching]: "touches T m \<Longrightarrow> touches T (io_err f m)"
  unfolding touches_def io_err_def by (auto split: prod.splits)

lemma touches_if [touching]: "touches T a \<Longrightarrow> touches T b \<Longrightarrow> touches T (if c then a else b)"
  by simp

lemma touches_io_call:
  assumes "\<And>d r d'. f d = (r, d') \<Longrightarrow> (\<forall>p. p \<notin> T \<longrightarrow> file_at d' p = file_at d p) \<and> dk_faults d' = dk_faults d \<and> dk_stat_faults d' = dk_stat_faults d"
  shows "touches T (io_call f)"
  unfolding touches_def io_call_def next_outcome_def healthy_def stat_reliable_def
  by (auto split: list.splits io_outcome.splits dest!: assms)

lemma touches_calls [touching]:
  "touches T (fs_create_dir_all p)" "touches T (fs_read p)" "touches T (file_sync_all p)" "touches T flock"
  "touches T (set_permissions p)" "touches T (dir_open p)" "touches T (dir_set_permissions p)"
  "touches T (fs_read_dir p)" "touches T (entry_len bs)" "p \<in> T \<Longrightarrow> touches T (fs_remove_file p)"
  "p \<in> T \<Longrightarrow> touches T (open_lock_file p)" "p \<in> T \<Longrightarrow> touches T (file_create p)"
  "p \<in> T \<Longrightarrow> q \<in> T \<Longrightarrow> touches T (fs_rename p q)"
  unfolding fs_create_dir_all_def fs_read_def file_sync_all_def flock_def set_permissions_def dir_open_def dir_set_permissions_def
    open_lock_file_def file_create_def fs_rename_def fs_read_dir_def entry_len_def fs_remove_file_def
  by (rule touches_io_call; auto simp: set_file_def split: option.splits)+

lemma touches_write_all [touching]: "p \<in> T \<Longrightarrow> touches T (file_write_all p bs)"
  by (auto simp: touches_def file_write_all_def next_outcome_def healthy_def stat_reliable_def set_file_def
      split: list.splits io_outcome.splits)

lemma touches_exists [touching]:
  assumes "\<And>there. touches T (k there)"
  shows "touches T (\<lambda>d. let (there, d1) = path_exists p d in k there d1)"
  unfolding touches_def
proof (intro allI impI)
  fix d r d'
  assume run: "(let (there, d1) = path_exists p d in k there d1) = (r, d')"
  obtain b d1 where 1: "path_exists p d = (b, d1)" by fastforce
  then have "dk_files d1 = dk_files d" "stat_reliable d \<Longrightarrow> stat_reliable d1" "healthy d \<Longrightarrow> healthy d1"
    by (auto simp: path_exists_def healthy_def stat_reliable_def split: list.splits)
  moreover from run 1 have "k b d1 = (r, d')" by simp
  ultimately show "(\<forall>p. p \<notin> T \<longrightarrow> file_at d' p = file_at d p) \<and> (stat_reliable d \<longrightarrow> stat_reliable d') \<and> (healthy d \<longrightarrow> healthy d')"
    using touchesD [OF assms] by metis
qed

lemma touches_prod [touching]: "(\<And>a b. touches T (f a b)) \<Longrightarrow> touches T (case x of (a, b) \<Rightarrow> f a b)"
  by (cases x) simp

lemma touches_replace [touching]:
  "touches T prepare \<Longrightarrow> temporary \<in> T \<Longrightarrow> p \<in> T \<Longrightarrow> touches T (replace_file prepare temporary bs p)"
  unfolding replace_file_def by (intro touching)

text \<open>Removing a file that need not be there.\<close>

lemma touches_remove_if_there:
  assumes "p \<in> T"
  shows "touches T (\<lambda>d. case fs_remove_file p d of (Inr _, d1) \<Rightarrow> (Inr (), d1)
    | (Inl e, d1) \<Rightarrow> (if io_kind e = NotFoundKind then Inr () else Inl (f e), d1))"
  using touches_calls(10) [OF assms] unfolding touches_def by (auto split: prod.splits sum.splits)

end
