(* ===== verification/Local_Content.thy ===== *)
theory Local_Content
  imports Content Disk_Frame
begin

section \<open>The persistent content store\<close>

text \<open>
  \<open>LocalContentStore\<close> of \<open>content.rs\<close>: one file per blob, named by the digest. It
  keeps the contract \<open>content_store\<close> on a disk that may fail in any way, for all identifiers
  \<open>for_bytes\<close> can make, and never holds more bytes than its capacity.
\<close>

record local_content =
  lc_root :: path_buf
  lc_capacity :: u64
  lc_poisoned :: bool

definition storage_err :: "'a io \<Rightarrow> (disk, filesystem_error, 'a) op" where
  "storage_err = io_err (\<lambda>e. Storage (io_message e))"

definition local_content_open :: "path_buf \<Rightarrow> u64 \<Rightarrow> (disk, filesystem_error, local_content) op" where
  "local_content_open root capacity =
     op_bind (storage_err (fs_create_dir_all root)) (\<lambda>_.
       op_lift (Inr \<lparr>lc_root = root, lc_capacity = capacity, lc_poisoned = False\<rparr>))"

definition path_for :: "local_content \<Rightarrow> content_id \<Rightarrow> path_buf" where
  "path_for st cid = path_join (lc_root st)
     (case strip_prefix ''sha256:'' (content_id_str cid) of Some hash \<Rightarrow> hash | None \<Rightarrow> content_id_str cid)"

definition content_lock_path :: "local_content \<Rightarrow> path_buf" where
  "content_lock_path st = path_join (lc_root st) ''.lock''"

fun add_lengths :: "bytes list \<Rightarrow> u64 \<Rightarrow> u64 io" where
  "add_lengths [] acc = op_lift (Inr acc)"
| "add_lengths (bs # rest) acc =
     op_bind (entry_len bs) (\<lambda>n. add_lengths rest (saturating_add_u64 acc n))"

definition used_space :: "local_content \<Rightarrow> (disk, filesystem_error, u64) op" where
  "used_space st = storage_err (op_bind (fs_read_dir (lc_root st)) (\<lambda>entries. add_lengths entries 0))"

text \<open>Take the lock, or fail.\<close>

definition with_content_lock :: "local_content \<Rightarrow> (disk, filesystem_error, 'a) op \<Rightarrow> (disk, filesystem_error, 'a) op" where
  "with_content_lock st m =
     (if lc_poisoned st then op_lift (Inl content_lock_poisoned)
      else op_bind (storage_err (open_lock_file (content_lock_path st))) (\<lambda>_.
        op_bind (storage_err flock) (\<lambda>_. m)))"

text \<open>Is a valid copy there? A corrupted one is removed.\<close>

definition check_existing ::
    "hash_function \<Rightarrow> content_id \<Rightarrow> path_buf \<Rightarrow> (disk, filesystem_error, bool) op" where
  "check_existing sha256 cid destination d = (let (there, d1) = path_exists destination d in
     if \<not> there then (Inr False, d1)
     else op_bind (storage_err (fs_read destination)) (\<lambda>existing.
       if matches sha256 cid existing then op_lift (Inr True)
       else op_bind (storage_err (fs_remove_file destination)) (\<lambda>_. op_lift (Inr False))) d1)"

definition store_blob :: "local_content \<Rightarrow> path_buf \<Rightarrow> bytes \<Rightarrow> (disk, filesystem_error, unit) op" where
  "store_blob st destination data =
     op_bind (op_lift (ok_or (u64_try_from (length data)) NoSpace)) (\<lambda>sz.
     op_bind (used_space st) (\<lambda>used.
       if saturating_add_u64 used sz > lc_capacity st then op_lift (Inl NoSpace)
       else storage_err (replace_file (op_lift (Inr ())) (with_extension destination ''tmp'') data destination)))"

definition local_put :: "hash_function \<Rightarrow> local_content \<Rightarrow> bytes \<Rightarrow> (disk, filesystem_error, content_id) op" where
  "local_put sha256 st data =
     (let cid = for_bytes sha256 data; destination = path_for st cid in
      with_content_lock st
        (op_bind (check_existing sha256 cid destination) (\<lambda>valid.
           if valid then op_lift (Inr cid)
           else op_bind (store_blob st destination data) (\<lambda>_. op_lift (Inr cid)))))"

definition local_get :: "local_content \<Rightarrow> content_id \<Rightarrow> (disk, filesystem_error, bytes) op" where
  "local_get st cid = io_err (\<lambda>e. if io_kind e = NotFoundKind then ContentUnavailable else Storage (io_message e))
     (fs_read (path_for st cid))"

definition local_exists :: "local_content \<Rightarrow> content_id \<Rightarrow> (disk, filesystem_error, bool) op" where
  "local_exists st cid d = (let (there, d1) = path_exists (path_for st cid) d in (Inr there, d1))"

definition local_delete :: "local_content \<Rightarrow> content_id \<Rightarrow> (disk, filesystem_error, unit) op" where
  "local_delete st cid =
     with_content_lock st (\<lambda>d. case fs_remove_file (path_for st cid) d of
         (Inr _, d1) \<Rightarrow> (Inr (), d1)
       | (Inl e, d1) \<Rightarrow> (if io_kind e = NotFoundKind then Inr () else Inl (Storage (io_message e)), d1))"

definition local_content_store :: "hash_function \<Rightarrow> local_content \<Rightarrow> disk content_store" where
  "local_content_store sha256 st = \<lparr>cs_put = local_put sha256 st, cs_get = local_get st,
     cs_exists = local_exists st, cs_delete = local_delete st\<rparr>"

subsection \<open>Names of blobs\<close>

definition digest_id :: "content_id \<Rightarrow> bool" where
  "digest_id x \<longleftrightarrow> (\<exists>bs. x = ContentId (''sha256:'' @ hex_bytes bs))"

definition local_blob :: "local_content \<Rightarrow> disk \<Rightarrow> content_id \<Rightarrow> bytes option" where
  "local_blob st d x = (if digest_id x then file_at d (path_for st x) else None)"

lemma digest_for_bytes [simp]: "digest_id (for_bytes sha256 data)"
  by (auto simp: digest_id_def for_bytes_def)

lemma path_for_digest: "path_for st (ContentId (''sha256:'' @ hex_bytes bs)) = lc_root st @ [hex_bytes bs]"
  by (simp add: path_for_def path_join_def del: append.simps append_Cons)

lemma hex_no_dot: "CHR ''.'' \<notin> set (hex_bytes bs)"
proof
  assume "CHR ''.'' \<in> set (hex_bytes bs)"
  then have "CHR ''.'' \<in> set hex_digits" by (rule hex_bytes_digits)
  then show False by (simp add: hex_digits_def)
qed

lemma file_stem_no_dot: "CHR ''.'' \<notin> set name \<Longrightarrow> file_stem name = name"
proof -
  assume "CHR ''.'' \<notin> set name"
  then have "position (\<lambda>c. c = CHR ''.'') (rev name) = None" by auto
  then show ?thesis unfolding file_stem_def by (simp del: position_eq_None)
qed

lemma tmp_path: "with_extension (lc_root st @ [hex_bytes bs]) ''tmp'' = lc_root st @ [hex_bytes bs @ ''.tmp'']"
  by (simp add: with_extension_def file_stem_no_dot [OF hex_no_dot])

lemma digest_paths:
  assumes "digest_id x" "digest_id y"
  shows "path_for st x = path_for st y \<longleftrightarrow> x = y" "path_for st x \<noteq> content_lock_path st"
    "with_extension (path_for st y) ''tmp'' \<noteq> path_for st x"
proof -
  obtain bs cs where xy: "x = ContentId (''sha256:'' @ hex_bytes bs)" "y = ContentId (''sha256:'' @ hex_bytes cs)"
    using assms by (auto simp: digest_id_def)
  have dot: "hex_bytes bs \<noteq> s" if "CHR ''.'' \<in> set s" for s using hex_no_dot that by metis
  show "path_for st x = path_for st y \<longleftrightarrow> x = y" unfolding xy path_for_digest by simp
  show "path_for st x \<noteq> content_lock_path st"
    unfolding xy path_for_digest using dot [of "''.lock''"] by (simp add: content_lock_path_def path_join_def)
  show "with_extension (path_for st y) ''tmp'' \<noteq> path_for st x"
    unfolding xy path_for_digest tmp_path using dot [of "hex_bytes cs @ ''.tmp''"] by auto
qed

subsection \<open>Which files a call may touch\<close>

lemma touches_add_lengths [touching]: "touches T (add_lengths bss acc)"
  by (induction bss arbitrary: acc) (auto intro!: touching)

lemma touches_lock [touching]:
  "content_lock_path st \<in> T \<Longrightarrow> touches T m \<Longrightarrow> touches T (with_content_lock st m)"
  unfolding with_content_lock_def storage_err_def by (intro touching)

lemma touches_check [touching]: "p \<in> T \<Longrightarrow> touches T (check_existing sha256 cid p)"
proof -
  assume p: "p \<in> T"
  let ?check = "op_bind (storage_err (fs_read p)) (\<lambda>existing.
       if matches sha256 cid existing then op_lift (Inr True)
       else op_bind (storage_err (fs_remove_file p)) (\<lambda>_. op_lift (Inr False)))"
  have "check_existing sha256 cid p = (\<lambda>d. let (there, d1) = path_exists p d in (if there then ?check else op_lift (Inr False)) d1)"
    by (rule ext) (simp add: check_existing_def op_lift_def split: prod.split)
  then show ?thesis by (simp only:) (unfold storage_err_def, intro touching p)
qed

lemma touches_store [touching]:
  "p \<in> T \<Longrightarrow> with_extension p ''tmp'' \<in> T \<Longrightarrow> touches T (store_blob st p data)"
  unfolding store_blob_def used_space_def storage_err_def by (intro touching)

lemma local_put_touches:
  fixes data :: bytes and st :: local_content
  shows "touches {path_for st (for_bytes sha256 data), with_extension (path_for st (for_bytes sha256 data)) ''tmp'',
    content_lock_path st} (local_put sha256 st data)"
  unfolding local_put_def Let_def by (intro touching) simp_all

lemma local_delete_touches: "touches {path_for st cid, content_lock_path st} (local_delete st cid)"
  unfolding local_delete_def by (intro touching touches_remove_if_there) simp_all

subsection \<open>The contract\<close>

lemma storage_err_ok: "storage_err m d = (Inr x, d') \<longleftrightarrow> m d = (Inr x, d')"
  by (simp add: storage_err_def)

lemma with_lock_ok:
  assumes "with_content_lock st m d = (Inr x, d')"
  obtains d1 where "m d1 = (Inr x, d')" "\<And>q. q \<noteq> content_lock_path st \<Longrightarrow> file_at d1 q = file_at d q"
proof -
  from assms obtain u v e d1 where "open_lock_file (content_lock_path st) d = (Inr u, e)" "flock e = (Inr v, d1)"
    "m d1 = (Inr x, d')"
    by (auto simp: with_content_lock_def op_bind_eq_Inr storage_err_ok split: if_splits)
  with that [of d1] open_lock_file_at quiet_calls(4) show thesis by metis
qed

text \<open>Failing or not, taking the lock leaves every other file alone.\<close>

lemma with_lock_at:
  assumes "with_content_lock st m d = (r, d')" "p \<noteq> content_lock_path st"
  obtains e where "file_at e p = file_at d p" "d' = e \<or> m e = (r, d')"
proof -
  obtain r1 d1 where l: "open_lock_file (content_lock_path st) d = (r1, d1)" by fastforce
  obtain r2 d2 where f: "flock d1 = (r2, d2)" by fastforce
  have at: "file_at d1 p = file_at d p" "file_at d2 p = file_at d p"
    using open_lock_file_at [OF l assms(2)] quiet_calls(4) [OF f] by simp_all
  from assms(1) l f consider "d' = d" | "d' = d1" | "d' = d2" | "m d2 = (r, d')"
    by (cases r1; cases r2) (auto simp: with_content_lock_def storage_err_def io_err_Inl split: if_splits)
  then show thesis using that at by cases auto
qed

lemma check_existing_valid:
  assumes "check_existing sha256 cid p d = (Inr True, d')"
  shows "\<exists>b. file_at d' p = Some b \<and> matches sha256 cid b"
proof -
  obtain there d1 where pe: "path_exists p d = (there, d1)" by fastforce
  with assms obtain b d2 where "fs_read p d1 = (Inr b, d2)" "matches sha256 cid b" "d' = d2"
    by (auto simp: check_existing_def op_bind_eq_Inr storage_err_ok split: if_splits)
  with fs_read_ok quiet_calls(2) show ?thesis by metis
qed

lemma store_blob_ok:
  assumes "store_blob st p data d = (Inr u, d')" "with_extension p ''tmp'' \<noteq> p"
  shows "file_at d' p = Some data"
proof -
  from assms(1) obtain d1 where "replace_file (op_lift (Inr ())) (with_extension p ''tmp'') data p d1 = (Inr u, d')"
    by (auto simp: store_blob_def op_bind_eq_Inr storage_err_ok split: if_splits)
  moreover have "quiet (op_lift (Inr ()) :: unit io)" by (rule quietI)
  ultimately show ?thesis by (cases rule: replace_file_cases [OF _ assms(2)]) auto
qed

lemma local_put_ok:
  assumes "local_put sha256 st data d = (Inr cid, d')"
  shows "cid = for_bytes sha256 data \<and> (\<exists>b. file_at d' (path_for st cid) = Some b \<and> matches sha256 cid b)"
proof -
  let ?cid = "for_bytes sha256 data"
  let ?p = "path_for st ?cid"
  from assms obtain d1 where "op_bind (check_existing sha256 ?cid ?p) (\<lambda>valid.
           if valid then op_lift (Inr ?cid)
           else op_bind (store_blob st ?p data) (\<lambda>_. op_lift (Inr ?cid))) d1 = (Inr cid, d')"
    unfolding local_put_def Let_def by (rule with_lock_ok)
  then obtain valid d2 where chk: "check_existing sha256 ?cid ?p d1 = (Inr valid, d2)"
    and rest: "(if valid then op_lift (Inr ?cid) else op_bind (store_blob st ?p data) (\<lambda>_. op_lift (Inr ?cid))) d2 = (Inr cid, d')"
    by (auto simp: op_bind_eq_Inr)
  show ?thesis
  proof (cases valid)
    case True
    with rest have "cid = ?cid" "d' = d2" by simp_all
    with chk True check_existing_valid [of sha256 ?cid ?p d1 d2] show ?thesis by simp
  next
    case False
    with rest have "op_bind (store_blob st ?p data) (\<lambda>_. op_lift (Inr ?cid)) d2 = (Inr cid, d')" by (simp only: if_False)
    then obtain u where "store_blob st ?p data d2 = (Inr u, d')" "cid = ?cid"
      unfolding op_bind_eq_Inr op_lift_simps by blast
    moreover have "with_extension ?p ''tmp'' \<noteq> ?p" by (intro digest_paths) simp_all
    ultimately have "file_at d' ?p = Some data" using store_blob_ok by blast
    with \<open>cid = ?cid\<close> show ?thesis by simp
  qed
qed

lemma local_put_frame:
  assumes "local_put sha256 st data d = (r, d')" "x \<noteq> for_bytes sha256 data"
  shows "local_blob st d' x = local_blob st d x"
proof (cases "digest_id x")
  case True
  note apart = digest_paths [OF True digest_for_bytes [of sha256 data], of st]
  from touchesD(1) [OF local_put_touches assms(1), of "path_for st x"] assms(2) apart True show ?thesis
    by (auto simp: local_blob_def)
qed (simp add: local_blob_def)

lemma local_delete_ok:
  assumes "digest_id cid" "local_delete st cid d = (Inr u, d')"
  shows "file_at d' (path_for st cid) = None"
proof -
  from assms(2) obtain d1 where "(case fs_remove_file (path_for st cid) d1 of
         (Inr _, d1) \<Rightarrow> (Inr (), d1)
       | (Inl e, d1) \<Rightarrow> (if io_kind e = NotFoundKind then Inr () else Inl (Storage (io_message e)), d1)) = (Inr u, d')"
    unfolding local_delete_def by (rule with_lock_ok)
  then show ?thesis
    by (auto simp: fs_remove_file_def other_error_def elim!: io_call_cases
        split: prod.splits sum.splits if_splits option.splits)
qed

lemma local_delete_frame:
  assumes "digest_id cid" "local_delete st cid d = (r, d')" "x \<noteq> cid"
  shows "local_blob st d' x = local_blob st d x"
proof (cases "digest_id x")
  case True
  from touchesD(1) [OF local_delete_touches assms(2), of "path_for st x"] assms(3) digest_paths(1,2) [OF True assms(1)] True
  show ?thesis by (auto simp: local_blob_def)
qed (simp add: local_blob_def)

interpretation lc: content_store sha256 "local_content_store sha256 st" digest_id "local_blob st" for sha256 st
proof (unfold_locales, goal_cases)
  case (2 data c cid c')
  then have put: "local_put sha256 st data c = (Inr cid, c')" by (simp add: local_content_store_def)
  from local_put_ok [OF put] obtain b where b: "cid = for_bytes sha256 data" "file_at c' (path_for st cid) = Some b"
    "matches sha256 cid b" by blast
  have "local_blob st c' = (local_blob st c)(cid \<mapsto> b)"
  proof
    fix x show "local_blob st c' x = ((local_blob st c)(cid \<mapsto> b)) x"
      using local_put_frame [OF put, of x] b by (cases "x = cid") (simp_all add: local_blob_def)
  qed
  with b show ?case by blast
next
  case (3 data c e c' x)
  then show ?case using local_put_frame by (simp add: local_content_store_def)
next
  case (4 cid c b c')
  then show ?case using fs_read_ok by (simp add: local_content_store_def local_get_def local_blob_def)
next
  case (5 cid c r c')
  then have "dk_files c' = dk_files c"
    using quiet_calls(2) by (auto simp: local_content_store_def local_get_def elim!: io_err_cases)
  then show ?case by (auto simp: local_blob_def)
next
  case (6 cid c c')
  then show ?case
    using path_exists_true by (auto simp: local_content_store_def local_exists_def local_blob_def split: prod.splits)
next
  case (7 cid c q c')
  then have "dk_files c' = dk_files c"
    using quiet_calls(6) by (auto simp: local_content_store_def local_exists_def split: prod.splits)
  then show ?case by (auto simp: local_blob_def)
next
  case (8 cid c c')
  then have del: "local_delete st cid c = (Inr (), c')" by (simp add: local_content_store_def)
  show ?case
  proof
    fix x show "local_blob st c' x = ((local_blob st c)(cid := None)) x"
      using local_delete_frame [OF 8(1) del, of x] local_delete_ok [OF 8(1) del]
      by (cases "x = cid") (simp_all add: local_blob_def)
  qed
next
  case (9 cid c e c' x)
  then show ?case using local_delete_frame by (simp add: local_content_store_def)
qed simp


subsection \<open>Capacity\<close>

text \<open>The bytes the files of the store's directory take.\<close>

definition dir_weight :: "path_buf \<Rightarrow> path_buf \<times> bytes \<Rightarrow> nat" where
  "dir_weight root e = (if fst e \<noteq> [] \<and> butlast (fst e) = root then length (snd e) else 0)"

definition dir_bytes :: "path_buf \<Rightarrow> disk \<Rightarrow> nat" where
  "dir_bytes root d = sum_list (map (dir_weight root) (dk_files d))"

lemma dir_bytes_files: "dk_files d' = dk_files d \<Longrightarrow> dir_bytes root d' = dir_bytes root d"
  by (simp add: dir_bytes_def)

lemma sum_insert_le:
  "sum_list (map (dir_weight root) (bt_insert p bs m)) \<le> sum_list (map (dir_weight root) m) + dir_weight root (p, bs)"
  by (induction p bs m rule: bt_insert.induct) auto

lemma sum_remove_le:
  "sum_list (map (dir_weight root) (bt_remove p m)) \<le> sum_list (map (dir_weight root) m)"
  unfolding bt_remove_def by (induction m) auto

lemma sum_remove_add:
  "map_of m p = Some bs \<Longrightarrow>
     sum_list (map (dir_weight root) (bt_remove p m)) + dir_weight root (p, bs) \<le> sum_list (map (dir_weight root) m)"
proof (induction m)
  case (Cons e m)
  show ?case
  proof (cases "fst e = p")
    case True
    with Cons.prems have "e = (p, bs)" by (cases e) simp
    with sum_remove_le [of root p m] show ?thesis by (simp add: bt_remove_def)
  next
    case False
    with Cons show ?thesis by (cases e) (simp add: bt_remove_def)
  qed
qed simp

lemma dir_bytes_set_file: "dir_bytes root (set_file p bs d) \<le> dir_bytes root d + length bs"
  using sum_insert_le [of root p bs "dk_files d"]
  by (simp add: dir_bytes_def set_file_def dir_weight_def split: if_splits)

lemma dir_bytes_entries: "sum_list (map length (dir_files root d)) = dir_bytes root d"
proof -
  have "sum_list (map length (map snd (filter (\<lambda>(p, bs). p \<noteq> [] \<and> butlast p = root) m))) =
      sum_list (map (dir_weight root) m)" for m :: "(path_buf, bytes) btree_map"
    by (induction m) (auto simp: dir_weight_def)
  then show ?thesis by (simp only: dir_files_def dir_bytes_def)
qed

lemma add_lengths_exact:
  assumes "add_lengths bss acc d = (Inr v, d')" "unat acc + sum_list (map length bss) < 2 ^ 64"
  shows "unat v = unat acc + sum_list (map length bss)"
  using assms
proof (induction bss arbitrary: acc d)
  case (Cons bs bss)
  from Cons.prems(1) obtain n d1 where n: "entry_len bs d = (Inr n, d1)"
    and rest: "add_lengths bss (saturating_add_u64 acc n) d1 = (Inr v, d')" by (auto simp: op_bind_eq_Inr)
  have "n = of_nat (length bs)" using n by (auto simp: entry_len_def elim!: io_call_cases)
  with Cons.prems(2) have len: "unat n = length bs" by (simp add: unat_of_nat)
  with Cons.prems(2) have "unat (saturating_add_u64 acc n) = unat acc + length bs"
    by (simp add: unat_saturating_add_u64)
  with Cons.IH [OF rest] Cons.prems(2) show ?case by simp
qed simp

lemma add_lengths_quiet: "add_lengths bss acc d = (r, d') \<Longrightarrow> dk_files d' = dk_files d"
proof (induction bss arbitrary: acc d)
  case (Cons bs bss)
  from Cons.prems have "op_bind (entry_len bs) (\<lambda>n. add_lengths bss (saturating_add_u64 acc n)) d = (r, d')" by simp
  then show ?case
  proof (cases rule: op_bind_cases)
    case (ok n d1)
    with Cons.IH [OF ok(2)] quiet_calls(8) [OF ok(1)] show ?thesis by simp
  qed (simp add: quiet_calls(8))
qed simp

lemma used_space_quiet: "used_space st d = (r, d') \<Longrightarrow> dk_files d' = dk_files d"
  unfolding used_space_def storage_err_def
  by (elim io_err_cases op_bind_cases) (metis quiet_calls(7) add_lengths_quiet)+

lemma used_space_exact:
  assumes "used_space st d = (Inr v, d')" "dir_bytes (lc_root st) d < 2 ^ 64"
  shows "unat v = dir_bytes (lc_root st) d"
proof -
  from assms(1) obtain es d1 where es: "fs_read_dir (lc_root st) d = (Inr es, d1)" "add_lengths es 0 d1 = (Inr v, d')"
    by (auto simp: used_space_def storage_err_ok op_bind_eq_Inr)
  have "es = dir_files (lc_root st) d"
    using es(1) by (auto simp: fs_read_dir_def dir_files_def elim!: io_call_cases)
  then have "sum_list (map length es) = dir_bytes (lc_root st) d" by (simp only: dir_bytes_entries)
  with add_lengths_exact [OF es(2)] assms(2) show ?thesis by simp
qed

lemma replace_file_bytes:
  assumes "replace_file (op_lift (Inr ())) (root @ [a]) bs p d = (r, d')"
  shows "dir_bytes root d' \<le> dir_bytes root d + length bs"
proof -
  let ?t = "root @ [a]"
  obtain r1 d1 where 1: "file_create ?t d = (r1, d1)" by fastforce
  obtain r2 d2 where 2: "file_write_all ?t bs d1 = (r2, d2)" by fastforce
  obtain r3 d3 where 3: "file_sync_all ?t d2 = (r3, d3)" by fastforce
  obtain r5 d5 where 5: "fs_rename ?t p d3 = (r5, d5)" by fastforce
  have b1: "dir_bytes root d1 \<le> dir_bytes root d"
  proof -
    from 1 consider e where "dk_files e = dk_files d" "d1 = set_file ?t [] e" | "dk_files d1 = dk_files d"
      by (auto simp: file_create_def elim!: io_call_cases)
    then show ?thesis
    proof cases
      case (1 e)
      with dir_bytes_set_file [of root ?t "[]" e] dir_bytes_files [OF 1(1), of root] show ?thesis by simp
    next
      case 2
      then show ?thesis using dir_bytes_files by (metis order_refl)
    qed
  qed
  have b2: "dir_bytes root d2 \<le> dir_bytes root d1 + length bs"
  proof -
    obtain out e where e: "next_outcome d1 = (out, e)" by fastforce
    from 2 e have "d2 = set_file ?t bs e \<or> (\<exists>n. d2 = set_file ?t (take n bs) e)"
      by (auto simp: file_write_all_def split: io_outcome.splits)
    then obtain cs where "d2 = set_file ?t cs e" "length cs \<le> length bs" by fastforce
    with dir_bytes_set_file [of root ?t cs e] dir_bytes_files [OF next_outcome_files [OF e]] show ?thesis by simp
  qed
  have b3: "dir_bytes root d3 = dir_bytes root d2" using dir_bytes_files quiet_calls(3) 3 by blast
  have b5: "dir_bytes root d5 \<le> dir_bytes root d3"
  proof -
    from 5 consider "dk_files d5 = dk_files d3" | cs where "map_of (dk_files d3) ?t = Some cs"
      "dk_files d5 = bt_insert p cs (bt_remove ?t (dk_files d3))"
      by (auto simp: fs_rename_def elim!: io_call_cases split: option.splits)
    then show ?thesis
    proof cases
      case (2 cs)
      have "dir_weight root (p, cs) \<le> dir_weight root (?t, cs)" by (simp add: dir_weight_def)
      with sum_insert_le [of root p cs "bt_remove ?t (dk_files d3)"] sum_remove_add [OF 2(1), of root] 2
      show ?thesis by (simp add: dir_bytes_def)
    qed (simp add: dir_bytes_def)
  qed
  from assms 1 2 3 5 consider "d' = d1" | "d' = d2" | "d' = d3" | "d' = d5"
    by (auto simp: replace_file_def elim!: op_bind_cases)
  then show ?thesis using b1 b2 b3 b5 by cases simp_all
qed

lemma store_blob_bounded:
  assumes "store_blob st (path_for st (for_bytes sha256 data)) data d = (r, d')"
    and "dir_bytes (lc_root st) d \<le> unat (lc_capacity st)" "lc_capacity st \<noteq> u64_max"
  shows "dir_bytes (lc_root st) d' \<le> unat (lc_capacity st)"
proof -
  let ?p = "path_for st (for_bytes sha256 data)"
  have p: "?p = lc_root st @ [hex_bytes (sha256 data)]"
    unfolding for_bytes_def by (rule path_for_digest)
  have cap: "unat (lc_capacity st) < 2 ^ 64 - 1"
  proof -
    have "unat (lc_capacity st) \<noteq> 2 ^ 64 - 1"
      using assms(3) unat_u64_max by (metis word_unat_eq_iff)
    with unat_u64_bound [of "lc_capacity st"] show ?thesis by linarith
  qed
  show ?thesis
  proof (cases "u64_try_from (length data)")
    case None
    with assms(1,2) show ?thesis by (simp add: store_blob_def)
  next
    case (Some sz)
    note sz = u64_try_from_Some [OF Some]
    obtain ur d1 where us: "used_space st d = (ur, d1)" by fastforce
    have b1: "dir_bytes (lc_root st) d1 = dir_bytes (lc_root st) d" using dir_bytes_files used_space_quiet us by blast
    show ?thesis
    proof (cases ur)
      case (Inl e)
      with assms(1,2) Some us b1 show ?thesis by (simp add: store_blob_def)
    next
      case (Inr used)
      have used: "unat used = dir_bytes (lc_root st) d"
        by (rule used_space_exact) (use us Inr assms(2) unat_u64_bound [of "lc_capacity st"] in auto)
      show ?thesis
      proof (cases "saturating_add_u64 used sz > lc_capacity st")
        case True
        with assms(1,2) Some us Inr b1 show ?thesis by (simp add: store_blob_def)
      next
        case False
        then have "unat (saturating_add_u64 used sz) \<le> unat (lc_capacity st)" by (simp add: word_le_nat_alt not_less)
        with cap have fits: "unat used + unat sz \<le> unat (lc_capacity st)" by (simp add: unat_saturating_add_u64)
        from assms(1) Some us Inr False obtain r1
          where "replace_file (op_lift (Inr ())) (lc_root st @ [hex_bytes (sha256 data) @ ''.tmp'']) data ?p d1 = (r1, d')"
          by (auto simp: store_blob_def storage_err_def p tmp_path elim: io_err_cases)
        from replace_file_bytes [OF this] b1 used sz fits show ?thesis by simp
      qed
    qed
  qed
qed


text \<open>What happens before the blob is stored never takes more space.\<close>

lemma lock_bytes:
  assumes "open_lock_file (root @ [a]) d = (r, d')"
  shows "dir_bytes root d' \<le> dir_bytes root d"
proof -
  from assms consider "dk_files d' = dk_files d" | e where "dk_files e = dk_files d" "d' = set_file (root @ [a]) [] e"
    by (auto simp: open_lock_file_def elim!: io_call_cases split: option.splits)
  then show ?thesis
  proof cases
    case (2 e)
    with dir_bytes_set_file [of root "root @ [a]" "[]" e] dir_bytes_files [OF 2(1), of root] show ?thesis by simp
  qed (simp add: dir_bytes_def)
qed

lemma remove_bytes: "fs_remove_file p d = (r, d') \<Longrightarrow> dir_bytes root d' \<le> dir_bytes root d"
  using sum_remove_le [of root p "dk_files d"]
  by (auto simp: fs_remove_file_def dir_bytes_def elim!: io_call_cases split: option.splits)

lemma with_lock_bytes:
  assumes "with_content_lock st m d = (r, d')"
    and "\<And>e. dir_bytes (lc_root st) e \<le> dir_bytes (lc_root st) d \<Longrightarrow> m e = (r, d') \<Longrightarrow> P"
    and "dir_bytes (lc_root st) d' \<le> dir_bytes (lc_root st) d \<Longrightarrow> P"
  shows P
proof (cases "lc_poisoned st")
  case True
  with assms(1,3) show P by (simp add: with_content_lock_def)
next
  case False
  obtain r1 d1 where l: "open_lock_file (content_lock_path st) d = (r1, d1)" by fastforce
  obtain r2 d2 where f: "flock d1 = (r2, d2)" by fastforce
  have b1: "dir_bytes (lc_root st) d1 \<le> dir_bytes (lc_root st) d"
    using lock_bytes l unfolding content_lock_path_def path_join_def by blast
  have b2: "dir_bytes (lc_root st) d2 = dir_bytes (lc_root st) d1" by (rule dir_bytes_files [OF quiet_calls(4) [OF f]])
  from assms(1) False l f consider "d' = d1" | "d' = d2" | "m d2 = (r, d')"
    by (cases r1; cases r2) (simp_all add: with_content_lock_def storage_err_def io_err_Inl)
  then show P
  proof cases
    case 3
    with b1 b2 show P by (intro assms(2)) simp_all
  qed (use assms(3) b1 b2 in simp_all)
qed

lemma check_existing_bytes:
  assumes "check_existing sha256 cid p d = (r, d')"
  shows "dir_bytes root d' \<le> dir_bytes root d"
proof -
  obtain there d1 where pe: "path_exists p d = (there, d1)" by fastforce
  have d1: "dir_bytes root d1 = dir_bytes root d" using dir_bytes_files quiet_calls(6) pe by blast
  from assms pe consider "d' = d1" | r2 d2 where "fs_read p d1 = (r2, d2)"
      "d' = d2 \<or> (\<exists>r3. fs_remove_file p d2 = (r3, d'))"
    by (auto simp: check_existing_def storage_err_def elim!: op_bind_cases io_err_cases split: if_splits)
  then show ?thesis
  proof cases
    case (2 r2 d2)
    with dir_bytes_files [OF quiet_calls(2) [OF 2(1)], of root] remove_bytes [of p d2 _ d' root] d1 show ?thesis by auto
  qed (simp add: d1)
qed

lemma local_put_bounded:
  assumes "local_put sha256 st data d = (r, d')"
    and "dir_bytes (lc_root st) d \<le> unat (lc_capacity st)" "lc_capacity st \<noteq> u64_max"
  shows "dir_bytes (lc_root st) d' \<le> unat (lc_capacity st)"
  using assms(1) unfolding local_put_def Let_def
proof (rule with_lock_bytes)
  let ?cid = "for_bytes sha256 data"
  fix e assume e: "dir_bytes (lc_root st) e \<le> dir_bytes (lc_root st) d"
    and run: "op_bind (check_existing sha256 ?cid (path_for st ?cid)) (\<lambda>valid.
           if valid then op_lift (Inr ?cid)
           else op_bind (store_blob st (path_for st ?cid) data) (\<lambda>_. op_lift (Inr ?cid))) e = (r, d')"
  obtain vr e1 where chk: "check_existing sha256 ?cid (path_for st ?cid) e = (vr, e1)" by fastforce
  have e1: "dir_bytes (lc_root st) e1 \<le> unat (lc_capacity st)"
    using check_existing_bytes [OF chk, of "lc_root st"] e assms(2) by simp
  from run chk have "d' = e1 \<or> (\<exists>q. store_blob st (path_for st ?cid) data e1 = (q, d'))"
    by (auto elim!: op_bind_cases split: if_splits)
  with e1 store_blob_bounded [OF _ e1 assms(3)] show ?thesis by blast
qed (use assms(2) in simp)


subsection \<open>The blob a put is about\<close>

lemma check_existing_at:
  assumes "check_existing sha256 cid p d = (r, d')"
  shows "file_at d' p = file_at d p \<or> (\<exists>b. file_at d p = Some b \<and> \<not> matches sha256 cid b \<and> file_at d' p = None)"
proof -
  obtain there d1 where pe: "path_exists p d = (there, d1)" by fastforce
  obtain r2 d2 where rd: "fs_read p d1 = (r2, d2)" by fastforce
  obtain r3 d3 where rm: "fs_remove_file p d2 = (r3, d3)" by fastforce
  note files = quiet_calls(6) [OF pe] quiet_calls(2) [OF rd]
  have kept: "file_at d3 p = file_at d2 p \<or> file_at d3 p = None"
    using rm by (auto simp: fs_remove_file_def elim!: io_call_cases split: option.splits)
  from assms pe rd rm consider "d' = d1" | "d' = d2" | b where "r2 = Inr b" "\<not> matches sha256 cid b" "d' = d3"
    by (cases r2; cases r3) (auto simp: check_existing_def storage_err_def io_err_Inl split: if_splits)
  then show ?thesis
  proof cases
    case (3 b)
    with fs_read_ok rd have "file_at d1 p = Some b" by blast
    with 3 kept files show ?thesis by auto
  qed (use files in simp_all)
qed

lemma store_blob_at:
  assumes "store_blob st p data d = (r, d')" "with_extension p ''tmp'' \<noteq> p"
  shows "file_at d' p = file_at d p \<or> file_at d' p = Some data"
proof -
  obtain ur d1 where us: "used_space st d = (ur, d1)" by fastforce
  obtain r2 d2 where rep: "replace_file (op_lift (Inr ())) (with_extension p ''tmp'') data p d1 = (r2, d2)" by fastforce
  have "quiet (op_lift (Inr ()) :: unit io)" by (rule quietI)
  with rep assms(2) have at: "file_at d2 p = file_at d1 p \<or> file_at d2 p = Some data"
    by (elim replace_file_cases) auto
  from assms(1) us rep consider "d' = d" | "d' = d1" | "d' = d2"
    by (cases "u64_try_from (length data)"; cases ur; cases r2)
       (auto simp: store_blob_def storage_err_def io_err_def split: if_splits)
  then show ?thesis using at used_space_quiet [OF us] by cases auto
qed

subsection \<open>Properties\<close>

definition demo_content :: local_content where
  "demo_content = \<lparr>lc_root = [''blobs''], lc_capacity = 4, lc_poisoned = False\<rparr>"

definition demo_blobs :: "io_outcome list \<Rightarrow> disk" where
  "demo_blobs faults = \<lparr>dk_files = [([''blobs'', ''07''], [7])], dk_faults = faults, dk_stat_faults = []\<rparr>"

lemma local_put_each_blob:
  assumes "local_put sha256 st data d = (r, d')" "digest_id x"
  shows "local_blob st d' x = local_blob st d x \<or>
    x = for_bytes sha256 data \<and> (\<forall>b. local_blob st d' x = Some b \<longrightarrow> matches sha256 x b) \<and>
    (\<forall>b. local_blob st d x = Some b \<longrightarrow> matches sha256 x b \<longrightarrow> local_blob st d' x \<noteq> None)"
proof (cases "x = for_bytes sha256 data")
  case False
  with local_put_frame [OF assms(1)] show ?thesis by blast
next
  case True
  let ?cid = "for_bytes sha256 data"
  let ?p = "path_for st ?cid"
  let ?m = "op_bind (check_existing sha256 ?cid ?p) (\<lambda>valid. if valid then op_lift (Inr ?cid)
           else op_bind (store_blob st ?p data) (\<lambda>_. op_lift (Inr ?cid)))"
  have tmp: "with_extension ?p ''tmp'' \<noteq> ?p" and lock: "?p \<noteq> content_lock_path st"
    using digest_paths(2,3) [of ?cid ?cid st] by simp_all
  from assms(1) have "with_content_lock st ?m d = (r, d')" by (simp add: local_put_def Let_def)
  then obtain e where e: "file_at e ?p = file_at d ?p" "d' = e \<or> ?m e = (r, d')"
    by (rule with_lock_at [OF _ lock])
  obtain vr e1 where chk: "check_existing sha256 ?cid ?p e = (vr, e1)" by fastforce
  obtain sr e2 where sto: "store_blob st ?p data e1 = (sr, e2)" by fastforce
  from e(2) chk sto have "d' = e \<or> d' = e1 \<or> d' = e2" by (cases vr; cases sr) (auto split: if_splits)
  then have "file_at d' ?p = file_at d ?p \<or> file_at d' ?p = Some data \<or>
      (\<exists>b. file_at d ?p = Some b \<and> \<not> matches sha256 ?cid b \<and> file_at d' ?p = None)"
    using check_existing_at [OF chk] store_blob_at [OF sto tmp] e(1) by auto
  with True show ?thesis by (auto simp: local_blob_def)
qed

text \<open>
  C12: storing a blob on disk is crash safe: whatever calls fail, and wherever the process stops, every
  other blob is untouched, and the blob itself is either what it was, or gone because it was corrupted,
  or complete and matching its identifier. If the call succeeds, it returns the identifier of the data, and
  the disk holds a blob that matches it.
\<close>

theorem local_put_crash_safe:
  assumes "local_put sha256 st data d = (r, d')"
  shows "(\<forall>x. digest_id x \<longrightarrow> local_blob st d' x = local_blob st d x \<or>
      x = for_bytes sha256 data \<and> (\<forall>b. local_blob st d' x = Some b \<longrightarrow> matches sha256 x b) \<and>
      (\<forall>b. local_blob st d x = Some b \<longrightarrow> matches sha256 x b \<longrightarrow> local_blob st d' x \<noteq> None)) \<and>
    (\<forall>cid. r = Inr cid \<longrightarrow> cid = for_bytes sha256 data \<and> (\<exists>b. local_blob st d' cid = Some b \<and> matches sha256 cid b))"
proof (intro conjI allI impI)
  fix cid assume "r = Inr cid"
  with assms local_put_ok show "cid = for_bytes sha256 data" "\<exists>b. local_blob st d' cid = Some b \<and> matches sha256 cid b"
    by (fastforce simp: local_blob_def)+
qed (rule local_put_each_blob [OF assms])

theorem local_put_crash_safe_witness:
  "local_blob demo_content (snd (local_put (\<lambda>bs. bs) demo_content [1, 2]
      (demo_blobs [Works, Works, Works, Works, Works, Works, Fails ''power'' 1]))) (for_bytes (\<lambda>bs. bs) [1, 2]) = None \<and>
   local_blob demo_content (snd (local_put (\<lambda>bs. bs) demo_content [1, 2]
      (demo_blobs [Works, Works, Works, Works, Works, Works, Fails ''power'' 1]))) (for_bytes (\<lambda>bs. bs) [7]) = Some [7]"
proof -
  let ?d = "demo_blobs [Works, Works, Works, Works, Works, Works, Fails ''power'' 1]"
  obtain r d' where run: "local_put (\<lambda>bs. bs) demo_content [1, 2] ?d = (r, d')" by fastforce
  have blobs: "local_blob demo_content ?d (for_bytes (\<lambda>bs. bs) [7]) = Some [7]"
    "local_blob demo_content ?d (for_bytes (\<lambda>bs. bs) [1, 2]) = None"
    unfolding local_blob_def by (simp_all only: digest_for_bytes if_True) code_simp+
  have "file_at (snd (local_put (\<lambda>bs. bs) demo_content [1, 2] ?d)) (path_for demo_content (for_bytes (\<lambda>bs. bs) [1, 2])) = None"
    by code_simp
  then have "local_blob demo_content d' (for_bytes (\<lambda>bs. bs) [1, 2]) = None" using run by (simp add: local_blob_def)
  moreover have "local_blob demo_content d' (for_bytes (\<lambda>bs. bs) [7]) = Some [7]"
    using local_put_crash_safe [OF run, THEN conjunct1, rule_format, of "for_bytes (\<lambda>bs. bs) [7]"] blobs by simp
  ultimately show ?thesis using run by simp
qed

text \<open>
  C29: the files of a persistent content store never take more than its capacity: every call keeps the
  bound, whatever fails, including the temporary files an interrupted call leaves behind; the saturating
  64-bit sum does not hide an excess.
\<close>

theorem local_content_bounded:
  assumes "dir_bytes (lc_root st) d \<le> unat (lc_capacity st)" "lc_capacity st \<noteq> u64_max"
  shows "dir_bytes (lc_root st) (snd (local_put sha256 st data d)) \<le> unat (lc_capacity st) \<and>
    dir_bytes (lc_root st) (snd (local_delete st cid d)) \<le> unat (lc_capacity st)"
proof
  show "dir_bytes (lc_root st) (snd (local_put sha256 st data d)) \<le> unat (lc_capacity st)"
    by (rule local_put_bounded [OF prod.collapse [symmetric] assms])
  obtain r d' where del: "local_delete st cid d = (r, d')" by fastforce
  then have "dir_bytes (lc_root st) d' \<le> unat (lc_capacity st)"
    unfolding local_delete_def
  proof (rule with_lock_bytes)
    fix e assume e: "dir_bytes (lc_root st) e \<le> dir_bytes (lc_root st) d"
      and run: "(case fs_remove_file (path_for st cid) e of
         (Inr _, d1) \<Rightarrow> (Inr (), d1)
       | (Inl e, d1) \<Rightarrow> (if io_kind e = NotFoundKind then Inr () else Inl (Storage (io_message e)), d1)) = (r, d')"
    obtain q d1 where rem: "fs_remove_file (path_for st cid) e = (q, d1)" by fastforce
    with run have "d' = d1" by (cases q) simp_all
    with remove_bytes [OF rem, of "lc_root st"] e assms(1)
    show "dir_bytes (lc_root st) d' \<le> unat (lc_capacity st)" by simp
  qed (use assms(1) in simp)
  with del show "dir_bytes (lc_root st) (snd (local_delete st cid d)) \<le> unat (lc_capacity st)" by simp
qed

theorem local_content_bounded_witness:
  "dir_bytes [''blobs''] (snd (local_put (\<lambda>bs. bs) demo_content [1, 2] (demo_blobs []))) \<le> 4 \<and>
   fst (local_put (\<lambda>bs. bs) demo_content [1, 2] (demo_blobs [])) = Inr (for_bytes (\<lambda>bs. bs) [1, 2]) \<and>
   fst (local_put (\<lambda>bs. bs) demo_content [1, 2, 3, 4] (demo_blobs [])) = Inl NoSpace"
proof -
  have "dir_bytes (lc_root demo_content) (demo_blobs []) \<le> unat (lc_capacity demo_content)"
    "lc_capacity demo_content \<noteq> u64_max"
    by (simp_all add: dir_bytes_def dir_weight_def demo_blobs_def demo_content_def u64_max_def)
  from local_content_bounded [OF this, of "\<lambda>bs. bs" "[1, 2]"]
  have "dir_bytes [''blobs''] (snd (local_put (\<lambda>bs. bs) demo_content [1, 2] (demo_blobs []))) \<le> 4"
    by (simp add: demo_content_def)
  moreover have "fst (local_put (\<lambda>bs. bs) demo_content [1, 2] (demo_blobs [])) = Inr (for_bytes (\<lambda>bs. bs) [1, 2])"
    "fst (local_put (\<lambda>bs. bs) demo_content [1, 2, 3, 4] (demo_blobs [])) = Inl NoSpace" by code_simp+
  ultimately show ?thesis by blast
qed

end
