(* ===== verification/Transport_Domain.thy ===== *)
theory Transport_Domain
  imports Disk Identifier
begin

section \<open>Cluster membership: data\<close>

text \<open>
  \<open>kubeweft-transport\<close>: the errors (\<open>error.rs\<close>), the persistent membership state and
  the pairing invitation (\<open>domain.rs\<close>). Clocks, random identifiers, JSON and base64 are arguments
  of the operations that use them. Where a constructor or field would clash with one of the filesystem
  it carries a prefix.
\<close>

subsection \<open>Errors\<close>

datatype transport_error =
    Io io_error
  | InvalidMessage string
  | Remote string string
  | AgentUnavailable
  | AgentAlreadyRunning
  | InvalidIdentity string
  | SecureChannel string
  | PeerIdentityMismatch device_id device_id
  | NotCoordinator
  | AlreadyInCluster
  | NotInCluster
  | InvalidInvite
  | Unauthorized
  | PeerContentUnavailable
  | ContentIntegrity
  | ContentTooLarge
  | PeerNoSpace
  | PeerContentDisabled
  | StateConflict

definition transport_error_display :: "transport_error \<Rightarrow> string" where
  "transport_error_display error = (case error of
     Io e \<Rightarrow> io_message e
   | InvalidMessage message \<Rightarrow> ''invalid transport message: '' @ message
   | Remote code message \<Rightarrow> ''remote error '' @ code @ '': '' @ message
   | AgentUnavailable \<Rightarrow> ''local agent is not running''
   | AgentAlreadyRunning \<Rightarrow> ''another agent is already using this data directory''
   | InvalidIdentity message \<Rightarrow> ''invalid device identity: '' @ message
   | SecureChannel message \<Rightarrow> ''secure peer channel failed: '' @ message
   | PeerIdentityMismatch expected actual \<Rightarrow>
       ''peer identity mismatch: expected '' @ device_id_str expected @ '', received '' @ device_id_str actual
   | NotCoordinator \<Rightarrow> ''this device is not the cluster coordinator''
   | AlreadyInCluster \<Rightarrow> ''device already belongs to a cluster''
   | NotInCluster \<Rightarrow> ''device does not belong to a cluster''
   | InvalidInvite \<Rightarrow> ''invalid or expired cluster invite''
   | Unauthorized \<Rightarrow> ''peer identity or cluster membership credential is invalid''
   | PeerContentUnavailable \<Rightarrow> ''peer content is unavailable''
   | ContentIntegrity \<Rightarrow> ''peer content failed integrity validation''
   | ContentTooLarge \<Rightarrow> ''peer content exceeds the transfer limit''
   | PeerNoSpace \<Rightarrow> ''peer content store has insufficient space''
   | PeerContentDisabled \<Rightarrow> ''peer content service is disabled''
   | StateConflict \<Rightarrow> ''cluster state changed concurrently'')"

type_synonym 'a tr_result = "transport_error + 'a"

subsection \<open>Addresses\<close>

datatype ip_addr = Ipv4 u32 | Ipv6 "128 word"

record socket_addr =
  sa_ip :: ip_addr
  sa_port :: u16

definition is_unspecified :: "ip_addr \<Rightarrow> bool" where
  "is_unspecified ip = (case ip of Ipv4 w \<Rightarrow> w = 0 | Ipv6 w \<Rightarrow> w = 0)"

definition ipv4_localhost :: ip_addr where
  "ipv4_localhost = Ipv4 0x7F000001"

definition ipv6_localhost :: ip_addr where
  "ipv6_localhost = Ipv6 1"

subsection \<open>Membership\<close>

datatype cluster_id = ClusterId uuid

datatype join_request_id = JoinRequestId uuid

datatype cluster_role = Coordinator | Member

record cluster_member =
  mb_device_id :: device_id
  mb_device_name :: string
  mb_endpoint :: socket_addr
  mb_joined_at_millis :: u64

datatype presence_state = PresenceUnknown | PresenceOnline | PresenceOffline

record presence_record =
  prs_member :: cluster_member
  prs_state :: presence_state
  prs_observed_at_millis :: "u64 option"

record cluster_summary =
  su_id :: cluster_id
  su_name :: string
  su_coordinator :: socket_addr
  su_coordinator_device_id :: device_id

record membership_status =
  mst_device_id :: device_id
  mst_device_name :: string
  mst_cluster :: "cluster_summary option"
  mst_role :: "cluster_role option"

record stored_member =
  stm_member :: cluster_member
  stm_credential :: string
  stm_credential_digest :: string

record authorized_member =
  aum_member :: cluster_member
  aum_credential_digest :: string

record pending_join =
  pj_coordinator :: socket_addr
  pj_invite_token :: string
  pj_request_id :: join_request_id
  pj_cluster_id :: cluster_id
  pj_coordinator_device_id :: device_id

record accepted_join =
  aj_request_id :: join_request_id
  aj_device_id :: device_id
  aj_credential :: string

record stored_cluster =
  scl_id :: cluster_id
  scl_name :: string
  scl_coordinator :: socket_addr
  scl_coordinator_device_id :: device_id
  scl_role :: cluster_role
  scl_credential :: string
  scl_invite_token :: "string option"
  scl_members :: "stored_member list"
  scl_accepted_joins :: "accepted_join list"

record agent_state =
  ags_revision :: u64
  ags_device_id :: device_id
  ags_device_name :: string
  ags_cluster :: "stored_cluster option"
  ags_pending_join :: "pending_join option"

definition cluster_summary_of :: "stored_cluster \<Rightarrow> cluster_summary" where
  "cluster_summary_of c = \<lparr>su_id = scl_id c, su_name = scl_name c, su_coordinator = scl_coordinator c,
     su_coordinator_device_id = scl_coordinator_device_id c\<rparr>"

definition agent_status :: "agent_state \<Rightarrow> membership_status" where
  "agent_status st = \<lparr>mst_device_id = ags_device_id st, mst_device_name = ags_device_name st,
     mst_cluster = map_option cluster_summary_of (ags_cluster st), mst_role = map_option scl_role (ags_cluster st)\<rparr>"

definition public_members :: "stored_cluster \<Rightarrow> cluster_member list" where
  "public_members c = map stm_member (scl_members c)"

subsection \<open>Credentials\<close>

definition credential_digest :: "hash_function \<Rightarrow> string \<Rightarrow> string" where
  "credential_digest sha256 credential = ''sha256:'' @
     hex_bytes (sha256 (string_bytes ''kubeweft-membership-credential-v1'' @ [0] @ string_bytes credential))"

text \<open>The digest a member must present; rosters of older versions only have the credential.\<close>

definition expected_digest :: "hash_function \<Rightarrow> stored_member \<Rightarrow> string" where
  "expected_digest sha256 member = (if stm_credential_digest member = []
     then credential_digest sha256 (stm_credential member) else stm_credential_digest member)"

definition authorized_members :: "hash_function \<Rightarrow> stored_cluster \<Rightarrow> authorized_member list" where
  "authorized_members sha256 c = map (\<lambda>member. \<lparr>aum_member = stm_member member,
     aum_credential_digest = expected_digest sha256 member\<rparr>) (scl_members c)"

definition uuid_simple :: "uuid \<Rightarrow> string" where
  "uuid_simple u = hex_bytes (map (\<lambda>i. ucast (drop_bit (8 * (15 - i)) u)) [0..<16])"

definition new_secret :: "uuid \<Rightarrow> uuid \<Rightarrow> string" where
  "new_secret a b = uuid_simple a @ uuid_simple b"

lemma length_uuid_simple [simp]: "length (uuid_simple u) = 32"
  by (simp add: uuid_simple_def)

lemma length_new_secret [simp]: "length (new_secret a b) = 64"
  by (simp add: new_secret_def)

lemma credential_digest_not_Nil [simp]: "credential_digest sha256 c \<noteq> []"
  by (simp add: credential_digest_def)

subsection \<open>The pairing invitation\<close>

record pairing_invitation =
  pin_version :: byte
  pin_cluster_id :: cluster_id
  pin_coordinator_device_id :: device_id
  pin_secret :: string

definition invitation_new :: "cluster_id \<Rightarrow> device_id \<Rightarrow> string \<Rightarrow> pairing_invitation" where
  "invitation_new cluster coordinator secret = \<lparr>pin_version = 1, pin_cluster_id = cluster,
     pin_coordinator_device_id = coordinator, pin_secret = secret\<rparr>"

definition invitation_prefix :: string where
  "invitation_prefix = ''kwpair1.''"

text \<open>\<open>serde_json\<close> and the URL-safe base64 engine.\<close>

record token_codec =
  tk_json :: "pairing_invitation json_codec"
  tk_b64_encode :: "bytes \<Rightarrow> string"
  tk_b64_decode :: "string \<Rightarrow> bytes option"

definition token_codec_ok :: "token_codec \<Rightarrow> bool" where
  "token_codec_ok K \<longleftrightarrow> json_ok (tk_json K) \<and> (\<forall>bs. tk_b64_decode K (tk_b64_encode K bs) = Some bs)"

definition invitation_encode :: "token_codec \<Rightarrow> pairing_invitation \<Rightarrow> string tr_result" where
  "invitation_encode K invite =
     res_bind (map_err InvalidMessage (to_json (tk_json K) invite)) (\<lambda>payload.
       Inr (invitation_prefix @ tk_b64_encode K payload))"

definition invitation_decode :: "token_codec \<Rightarrow> string \<Rightarrow> pairing_invitation tr_result" where
  "invitation_decode K encoded =
     res_bind (ok_or (strip_prefix invitation_prefix encoded) InvalidInvite) (\<lambda>payload.
     res_bind (ok_or (tk_b64_decode K payload) InvalidInvite) (\<lambda>bs.
     res_bind (map_err (\<lambda>_. InvalidInvite) (from_json (tk_json K) bs)) (\<lambda>invite.
       if pin_version invite \<noteq> 1 \<or> length (pin_secret invite) < 32 then Inl InvalidInvite else Inr invite)))"

lemma invitation_roundtrip:
  assumes "token_codec_ok K" "invitation_encode K invite = Inr token" "pin_version invite = 1" "32 \<le> length (pin_secret invite)"
  shows "invitation_decode K token = Inr invite"
proof -
  from assms(2) obtain payload where p: "to_json (tk_json K) invite = Inr payload"
    "token = invitation_prefix @ tk_b64_encode K payload" by (auto simp: invitation_encode_def)
  then show ?thesis using assms by (auto simp: invitation_decode_def token_codec_ok_def json_ok_def)
qed

subsection \<open>Names\<close>

text \<open>
  \<open>str::trim\<close> and \<open>char::is_control\<close> on UTF-8: the encodings of the characters with the
  property White_Space, and the bytes of the general category Cc.
\<close>

definition ws_char :: "nat list \<Rightarrow> bool" where
  "ws_char bs \<longleftrightarrow> bs \<in> set ([[9], [10], [11], [12], [13], [32], [194, 133], [194, 160], [225, 154, 128],
      [226, 128, 168], [226, 128, 169], [226, 128, 175], [226, 129, 159], [227, 128, 128]]
      @ map (\<lambda>n. [226, 128, n]) [128..<139])"

definition ws_prefix :: "nat list \<Rightarrow> nat" where
  "ws_prefix bs = (case find (\<lambda>k. k \<le> length bs \<and> ws_char (take k bs)) [1, 2, 3] of None \<Rightarrow> 0 | Some k \<Rightarrow> k)"

definition ws_suffix :: "nat list \<Rightarrow> nat" where
  "ws_suffix bs = (case find (\<lambda>k. k \<le> length bs \<and> ws_char (drop (length bs - k) bs)) [1, 2, 3] of None \<Rightarrow> 0 | Some k \<Rightarrow> k)"

function trim_start :: "string \<Rightarrow> string" where
  "trim_start s = (if ws_prefix (map of_char s) = 0 \<or> s = [] then s else trim_start (drop (ws_prefix (map of_char s)) s))"
  by pat_completeness auto
termination by (relation "measure length") auto

function trim_end :: "string \<Rightarrow> string" where
  "trim_end s = (if ws_suffix (map of_char s) = 0 \<or> s = [] then s
     else trim_end (take (length s - ws_suffix (map of_char s)) s))"
  by pat_completeness auto
termination by (relation "measure length") auto

definition str_trim :: "string \<Rightarrow> string" where
  "str_trim s = trim_end (trim_start s)"

fun has_control :: "nat list \<Rightarrow> bool" where
  "has_control [] = False"
| "has_control [b] = (b < 32 \<or> b = 127)"
| "has_control (a # b # bs) = (a < 32 \<or> a = 127 \<or> a = 194 \<and> 128 \<le> b \<and> b < 160 \<or> has_control (b # bs))"

definition any_control :: "string \<Rightarrow> bool" where
  "any_control s = has_control (map of_char s)"

declare trim_start.simps [simp del] trim_end.simps [simp del]

text \<open>The test \<open>normalize_device_name\<close> and \<open>validate_cluster_name\<close> share.\<close>

definition bad_name :: "string \<Rightarrow> bool" where
  "bad_name name \<longleftrightarrow> name = [] \<or> length name > 128 \<or> any_control name"

end
