(* ===== verification/Device_Identity.thy ===== *)
theory Device_Identity
  imports Transport_Domain
begin

section \<open>The device identity on disk\<close>

text \<open>
  \<open>identity.rs\<close>: a device makes its key pair once and keeps it in \<open>identity.json\<close>. The curve's
  base-point multiplication, base64 and JSON are arguments (\<open>identity_env\<close>), and so is, for each call
  that may make a key pair, what the generator of \<open>snow\<close> draws in it (\<open>keypair_draw\<close>): two calls draw
  different pairs.
\<close>

record stored_identity =
  sid_version :: byte
  sid_suite :: string
  sid_private_key :: string
  sid_public_key :: string

record device_identity =
  did_private_key :: bytes
  did_public_key :: device_public_key

record identity_env =
  ie_json :: "stored_identity json_codec"
  ie_b64_encode :: "bytes \<Rightarrow> string"
  ie_b64_decode :: "string \<Rightarrow> bytes option"
  ie_mul_base_clamped :: "bytes \<Rightarrow> bytes"

type_synonym keypair_draw = "string + bytes \<times> bytes"

definition identity_version :: byte where
  "identity_version = 1"

definition noise_pattern :: string where
  "noise_pattern = ''Noise_XX_25519_ChaChaPoly_BLAKE2s''"

definition tr_err :: "'a io \<Rightarrow> (disk, transport_error, 'a) op" where
  "tr_err = io_err Io"

text \<open>\<open>try_into::<[u8; 32]>\<close>.\<close>

definition array32 :: "bytes \<Rightarrow> transport_error \<Rightarrow> bytes tr_result" where
  "array32 bs e = (if length bs = 32 then Inr bs else Inl e)"

definition from_parts :: "identity_env \<Rightarrow> bytes \<Rightarrow> bytes \<Rightarrow> device_identity tr_result" where
  "from_parts E private public =
     (if list_all (\<lambda>b. b = 0) private \<or> list_all (\<lambda>b. b = 0) public
      then Inl (InvalidIdentity ''device identity contains an invalid zero key'')
      else if ie_mul_base_clamped E private \<noteq> public
      then Inl (InvalidIdentity ''stored public and private keys do not match'')
      else Inr \<lparr>did_private_key = private, did_public_key = \<lparr>pk_bytes = public\<rparr>\<rparr>)"

definition decode_key :: "identity_env \<Rightarrow> string \<Rightarrow> string \<Rightarrow> bytes tr_result" where
  "decode_key E encoded name =
     res_bind (ok_or (ie_b64_decode E encoded) (InvalidIdentity (''invalid base64 '' @ name @ '' identity key''))) (\<lambda>decoded.
       array32 decoded (InvalidIdentity (name @ '' identity key must contain 32 bytes'')))"

definition identity_load :: "identity_env \<Rightarrow> path_buf \<Rightarrow> (disk, transport_error, device_identity) op" where
  "identity_load E p =
     op_bind (tr_err (set_permissions p)) (\<lambda>_.
     op_bind (tr_err (fs_read p)) (\<lambda>bs.
     op_bind (op_lift (map_err InvalidMessage (from_json (ie_json E) bs))) (\<lambda>stored.
       if sid_version stored \<noteq> identity_version \<or> sid_suite stored \<noteq> noise_pattern
       then op_lift (Inl (InvalidIdentity ''unsupported device identity version or suite''))
       else op_lift (
         res_bind (decode_key E (sid_private_key stored) ''private'') (\<lambda>private.
         res_bind (decode_key E (sid_public_key stored) ''public'') (\<lambda>public.
         from_parts E private public))))))"

definition sync_parent_directory :: "path_buf \<Rightarrow> (disk, transport_error, unit) op" where
  "sync_parent_directory p = op_bind (tr_err (dir_open (path_parent p))) (\<lambda>_. tr_err (file_sync_all (path_parent p)))"

definition identity_path :: "path_buf \<Rightarrow> path_buf" where
  "identity_path data_directory = path_join data_directory ''identity.json''"

definition generate_identity :: "keypair_draw \<Rightarrow> (bytes \<times> bytes) tr_result" where
  "generate_identity draw =
     res_bind (map_err SecureChannel draw) (\<lambda>(private, public).
     res_bind (array32 private (InvalidIdentity ''invalid generated private key'')) (\<lambda>private.
     res_bind (array32 public (InvalidIdentity ''invalid generated public key'')) (\<lambda>public.
       Inr (private, public))))"

text \<open>The temporary file is opened before the identity is serialised into it.\<close>

definition store_identity :: "identity_env \<Rightarrow> path_buf \<Rightarrow> stored_identity \<Rightarrow> (disk, transport_error, unit) op" where
  "store_identity E p stored = (let temporary = with_extension p ''tmp'' in
     op_bind (tr_err (file_create temporary)) (\<lambda>_.
     op_bind (op_lift (map_err InvalidMessage (to_json (ie_json E) stored))) (\<lambda>bs.
     op_bind (tr_err (file_write_all temporary bs)) (\<lambda>_.
     op_bind (tr_err (file_sync_all temporary)) (\<lambda>_.
     op_bind (tr_err (set_permissions temporary)) (\<lambda>_.
     tr_err (fs_rename temporary p)))))))"

definition load_or_create :: "identity_env \<Rightarrow> keypair_draw \<Rightarrow> path_buf \<Rightarrow> (disk, transport_error, device_identity) op" where
  "load_or_create E draw data_directory d =
     (let p = identity_path data_directory; (there, d1) = path_exists p d in
      if there then identity_load E p d1
      else op_bind (op_lift (generate_identity draw)) (\<lambda>(private, public).
        op_bind (store_identity E p \<lparr>sid_version = identity_version, sid_suite = noise_pattern,
             sid_private_key = ie_b64_encode E private, sid_public_key = ie_b64_encode E public\<rparr>) (\<lambda>_.
        op_bind (sync_parent_directory p) (\<lambda>_.
        op_lift (from_parts E private public)))) d1)"

text \<open>The fingerprint of the key; deriving it never panics.\<close>

definition identity_device_id :: "hash_function \<Rightarrow> device_identity \<Rightarrow> device_id" where
  "identity_device_id sha256 identity = the (public_key_device_id sha256 (did_public_key identity))"

subsection \<open>What a loaded identity is\<close>

definition identity_env_ok :: "identity_env \<Rightarrow> bool" where
  "identity_env_ok E \<longleftrightarrow> json_ok (ie_json E) \<and> (\<forall>bs. ie_b64_decode E (ie_b64_encode E bs) = Some bs)"

definition identity_ok :: "identity_env \<Rightarrow> device_identity \<Rightarrow> bool" where
  "identity_ok E i \<longleftrightarrow> length (did_private_key i) = 32 \<and> length (pk_bytes (did_public_key i)) = 32 \<and>
     (\<exists>b \<in> set (did_private_key i). b \<noteq> 0) \<and> (\<exists>b \<in> set (pk_bytes (did_public_key i)). b \<noteq> 0) \<and>
     ie_mul_base_clamped E (did_private_key i) = pk_bytes (did_public_key i)"

lemma array32_ok [simp]: "array32 bs e = Inr cs \<longleftrightarrow> length bs = 32 \<and> cs = bs"
  by (auto simp: array32_def)

lemma from_parts_ok: "from_parts E a b = Inr i \<Longrightarrow> length a = 32 \<Longrightarrow> length b = 32 \<Longrightarrow> identity_ok E i"
  by (auto simp: from_parts_def identity_ok_def list_all_iff split: if_splits)

lemma tr_err_ok [simp]: "tr_err m d = (Inr x, d') \<longleftrightarrow> m d = (Inr x, d')"
  by (simp add: tr_err_def)

lemma identity_load_ok:
  assumes "identity_load E p d = (Inr i, d')"
  shows "identity_ok E i"
  using assms by (auto simp: identity_load_def op_bind_eq_Inr decode_key_def split: if_splits intro: from_parts_ok)

lemma load_or_create_ok:
  assumes "load_or_create E draw dir d = (Inr i, d')"
  shows "identity_ok E i"
proof -
  obtain there d1 where pe: "path_exists (identity_path dir) d = (there, d1)" by fastforce
  show ?thesis
  proof (cases there)
    case True
    with assms pe identity_load_ok show ?thesis by (simp add: load_or_create_def)
  next
    case False
    with assms pe obtain a b where "generate_identity draw = Inr (a, b)" "from_parts E a b = Inr i"
      by (auto simp: load_or_create_def op_bind_eq_Inr Let_def)
    then show ?thesis by (auto simp: generate_identity_def intro: from_parts_ok)
  qed
qed

text \<open>What was created is what is loaded from then on.\<close>

lemma identity_tmp: "with_extension (identity_path dir) ''tmp'' \<noteq> identity_path dir"
proof -
  have "file_stem ''identity.json'' @ ''.tmp'' \<noteq> ''identity.json''" by code_simp
  then show ?thesis by (simp add: with_extension_def identity_path_def path_join_def)
qed

definition holds_identity :: "identity_env \<Rightarrow> path_buf \<Rightarrow> device_identity \<Rightarrow> disk \<Rightarrow> bool" where
  "holds_identity E dir i d \<longleftrightarrow> (\<exists>bs stored. file_at d (identity_path dir) = Some bs \<and>
     from_json (ie_json E) bs = Inr stored \<and> sid_version stored = identity_version \<and> sid_suite stored = noise_pattern \<and>
     decode_key E (sid_private_key stored) ''private'' = Inr (did_private_key i) \<and>
     decode_key E (sid_public_key stored) ''public'' = Inr (pk_bytes (did_public_key i)) \<and> identity_ok E i)"

lemma holds_identity_load:
  assumes "holds_identity E dir i d" "load_or_create E draw dir d = (r, d')" "stat_reliable d"
  shows "dk_files d' = dk_files d \<and> (r = Inr i \<or> (\<exists>e. r = Inl (Io e)))"
proof -
  let ?p = "identity_path dir"
  from assms(1) obtain bs stored where s: "file_at d ?p = Some bs" "from_json (ie_json E) bs = Inr stored"
    "sid_version stored = identity_version" "sid_suite stored = noise_pattern"
    "decode_key E (sid_private_key stored) ''private'' = Inr (did_private_key i)"
    "decode_key E (sid_public_key stored) ''public'' = Inr (pk_bytes (did_public_key i))"
    and ok: "identity_ok E i" by (auto simp: holds_identity_def)
  have parts: "from_parts E (did_private_key i) (pk_bytes (did_public_key i)) = Inr i"
    using ok by (auto simp: from_parts_def identity_ok_def list_all_iff)
  obtain r1 d1 where p1: "set_permissions ?p d = (r1, d1)" by fastforce
  obtain r2 d2 where p2: "fs_read ?p d1 = (r2, d2)" by fastforce
  have files: "dk_files d1 = dk_files d" "dk_files d2 = dk_files d"
    using quiet_calls(5) [OF p1] quiet_calls(2) [OF p2] by simp_all
  have run: "identity_load E ?p d = (r, d')"
    using assms(2) s(1) by (simp add: load_or_create_def path_exists_reliable [OF assms(3)])
  show ?thesis
  proof (cases r1)
    case (Inl e)
    with run p1 files show ?thesis by (auto simp: identity_load_def tr_err_def io_err_Inl)
  next
    case (Inr u)
    show ?thesis
    proof (cases r2)
      case (Inl e)
      with Inr run p1 p2 files show ?thesis by (auto simp: identity_load_def tr_err_def io_err_Inl)
    next
      case (Inr bs')
      with p2 fs_read_ok files s(1) have "bs' = bs" by fastforce
      with Inr \<open>r1 = Inr u\<close> run p1 p2 s files parts show ?thesis by (simp add: identity_load_def)
    qed
  qed
qed

lemma holds_identity_healthy:
  assumes "holds_identity E dir i d" "healthy d"
  shows "load_or_create E draw dir d = (Inr i, d)"
  using assms
  by (auto simp: load_or_create_def path_exists_healthy holds_identity_def identity_load_def healthy_calls from_parts_def identity_ok_def
      list_all_iff)

text \<open>A device identity, once created, stays: creating it stores it, and loading returns it ever after.\<close>

lemma store_identity_ok:
  assumes "store_identity E p stored d = (Inr u, d')" "with_extension p ''tmp'' \<noteq> p"
  obtains bs where "to_json (ie_json E) stored = Inr bs" "file_at d' p = Some bs"
proof -
  let ?t = "with_extension p ''tmp''"
  from assms(1) obtain bs where bs: "to_json (ie_json E) stored = Inr bs"
    "replace_file (set_permissions ?t) ?t bs p d = (Inr u, d')"
    by (auto simp: store_identity_def replace_file_def op_bind_eq_Inr Let_def)
  have "quiet (set_permissions ?t)" by (rule quietI)
  from bs(2) assms(2) this have "file_at d' p = Some bs" by (cases rule: replace_file_cases) auto
  with bs(1) that show thesis by blast
qed

lemma create_holds:
  assumes "identity_env_ok E" "load_or_create E draw dir d = (Inr i, d')" "file_at d (identity_path dir) = None"
  shows "holds_identity E dir i d'"
proof -
  let ?p = "identity_path dir"
  obtain there d1 where pe: "path_exists ?p d = (there, d1)" by fastforce
  with assms(3) path_exists_true have nt: "\<not> there" by metis
  let ?st = "\<lambda>a b. \<lparr>sid_version = identity_version, sid_suite = noise_pattern,
     sid_private_key = ie_b64_encode E a, sid_public_key = ie_b64_encode E b\<rparr>"
  from assms(2) pe nt obtain a b d2 where g: "generate_identity draw = Inr (a, b)"
    "store_identity E ?p (?st a b) d1 = (Inr (), d2)"
    and sync: "sync_parent_directory ?p d2 = (Inr (), d')" and i: "from_parts E a b = Inr i"
    by (auto simp: load_or_create_def op_bind_eq_Inr Let_def)
  have len: "length a = 32" "length b = 32" using g(1) by (auto simp: generate_identity_def)
  obtain bs where bs: "to_json (ie_json E) (?st a b) = Inr bs" "file_at d2 ?p = Some bs"
    using store_identity_ok [OF g(2) identity_tmp] by blast
  moreover have "dk_files d' = dk_files d2"
    using sync by (auto simp: sync_parent_directory_def op_bind_eq_Inr dest!: quiet_calls(3,9))
  ultimately have "file_at d' ?p = Some bs" by simp
  moreover have "from_json (ie_json E) bs = Inr (?st a b)" using assms(1) bs(1) by (auto simp: identity_env_ok_def json_ok_def)
  moreover have "i = \<lparr>did_private_key = a, did_public_key = \<lparr>pk_bytes = b\<rparr>\<rparr>"
    using i by (auto simp: from_parts_def split: if_splits)
  ultimately show ?thesis
    using assms(1) len from_parts_ok [OF i len]
    by (auto simp: holds_identity_def decode_key_def identity_env_ok_def)
qed

text \<open>The identity that was loaded or made is on the disk.\<close>

lemma load_holds:
  assumes "identity_env_ok E" "load_or_create E draw dir d = (Inr i, d')" "stat_reliable d"
  shows "holds_identity E dir i d'"
proof (cases "file_at d (identity_path dir)")
  case None
  with create_holds [OF assms(1,2)] show ?thesis by blast
next
  case (Some bs)
  with assms(2) have run: "identity_load E (identity_path dir) d = (Inr i, d')"
    by (simp add: load_or_create_def path_exists_reliable [OF assms(3)])
  then obtain u d1 bs1 d2 stored where *: "set_permissions (identity_path dir) d = (Inr u, d1)" "fs_read (identity_path dir) d1 = (Inr bs1, d2)"
    "from_json (ie_json E) bs1 = Inr stored" "sid_version stored = identity_version" "sid_suite stored = noise_pattern" "d' = d2"
    and parts: "res_bind (decode_key E (sid_private_key stored) ''private'') (\<lambda>private.
         res_bind (decode_key E (sid_public_key stored) ''public'') (\<lambda>public. from_parts E private public)) = Inr i"
    by (auto simp: identity_load_def op_bind_eq_Inr split: if_splits)
  have "file_at d2 (identity_path dir) = Some bs1"
    using fs_read_ok [OF *(2)] quiet_calls(2) [OF *(2)] by simp
  with * parts identity_load_ok [OF run] show ?thesis by (auto simp: holds_identity_def from_parts_def split: if_splits)
qed

lemma load_twice:
  assumes "identity_env_ok E" "load_or_create E draw dir d = (Inr i, d1)" "stat_reliable d"
    and "file_at d2 (identity_path dir) = file_at d1 (identity_path dir)" "stat_reliable d2" "load_or_create E draw' dir d2 = (Inr j, d3)"
  shows "j = i"
proof -
  from load_holds [OF assms(1-3)] assms(4) have "holds_identity E dir i d2" by (simp add: holds_identity_def)
  from holds_identity_load [OF this assms(6,5)] show ?thesis by simp
qed

text \<open>
  C27: the identity of a device persists: once it was created in an empty directory, every later start whose \<open>stat\<close> of the
  identity file does not fail gets the same key pair or reports a failing disk and leaves the files as they are, whatever
  pair the generator would have drawn then. The pair has 32-byte keys, neither zero, and the public one belongs to the
  private one. (A \<open>stat\<close> that fails is taken for a missing file: \<open>stat_failure_renews\<close>.)
\<close>

theorem device_identity_persistent:
  assumes "identity_env_ok E" "load_or_create E draw dir d = (Inr i, d1)" "file_at d (identity_path dir) = None"
    and "dk_files d2 = dk_files d1" "stat_reliable d2" "load_or_create E draw' dir d2 = (r, d3)"
  shows "identity_ok E i \<and> dk_files d3 = dk_files d1 \<and> (r = Inr i \<or> (\<exists>e. r = Inl (Io e)))"
proof -
  have "holds_identity E dir i d1" by (rule create_holds [OF assms(1-3)])
  then have "holds_identity E dir i d2" using assms(4) by (simp add: holds_identity_def)
  from holds_identity_load [OF this assms(6,5)] load_or_create_ok [OF assms(2)] assms(4) show ?thesis by simp
qed

definition demo_stored :: stored_identity where
  "demo_stored = \<lparr>sid_version = 1, sid_suite = noise_pattern, sid_private_key = replicate 32 (CHR 0x01), sid_public_key = replicate 32 (CHR 0x02)\<rparr>"

definition demo_identity_env :: identity_env where
  "demo_identity_env = \<lparr>ie_json = \<lparr>to_json = (\<lambda>x. if x = demo_stored then Inr [0] else Inl ''unknown''),
       from_json = (\<lambda>bs. if bs = [0] then Inr demo_stored else Inl ''unknown'')\<rparr>,
     ie_b64_encode = map (char_of \<circ> unat), ie_b64_decode = (\<lambda>s. Some (map (word_of_nat \<circ> of_char) s)),
     ie_mul_base_clamped = map (\<lambda>b. b + 1)\<rparr>"

text \<open>Two draws of the generator.\<close>

definition demo_draw :: keypair_draw where
  "demo_draw = Inr (replicate 32 1, replicate 32 2)"

definition demo_draw_later :: keypair_draw where
  "demo_draw_later = Inr (replicate 32 5, replicate 32 6)"

lemma demo_identity_env_ok: "identity_env_ok demo_identity_env"
proof -
  have "(word_of_nat (of_char (char_of (unat b) :: char) :: nat) :: byte) = b" for b :: byte
  proof -
    have "unat b < 256" using unsigned_less [of b, where 'a = nat] by simp
    then show ?thesis by simp
  qed
  then show ?thesis
    by (auto simp: identity_env_ok_def demo_identity_env_def json_ok_def comp_def map_idI split: if_splits)
qed

definition demo_empty_disk :: "io_outcome list \<Rightarrow> disk" where
  "demo_empty_disk faults = \<lparr>dk_files = [], dk_faults = faults, dk_stat_faults = []\<rparr>"

theorem device_identity_persistent_witness:
  "\<exists>i d1 r d3. load_or_create demo_identity_env demo_draw [''data''] (demo_empty_disk []) = (Inr i, d1) \<and>
    load_or_create demo_identity_env demo_draw_later [''data''] d1 = (r, d3) \<and> identity_ok demo_identity_env i \<and>
    (r = Inr i \<or> (\<exists>e. r = Inl (Io e))) \<and> dk_files d3 = dk_files d1"
proof -
  let ?run = "load_or_create demo_identity_env demo_draw [''data''] (demo_empty_disk [])"
  have "fst ?run = Inr \<lparr>did_private_key = replicate 32 1, did_public_key = \<lparr>pk_bytes = replicate 32 2\<rparr>\<rparr> \<and> dk_stat_faults (snd ?run) = []"
    by code_simp
  then obtain i d1 where run: "?run = (Inr i, d1)" "stat_reliable d1" unfolding stat_reliable_def by (metis prod.collapse)
  obtain r d3 where again: "load_or_create demo_identity_env demo_draw_later [''data''] d1 = (r, d3)" by fastforce
  have "file_at (demo_empty_disk []) (identity_path [''data'']) = None" by (simp add: demo_empty_disk_def)
  from device_identity_persistent [OF demo_identity_env_ok run(1) this refl run(2) again] run again show ?thesis by blast
qed

text \<open>
  A failing \<open>stat\<close> is taken for a missing file: a start that meets one replaces the identity of the device by the pair it draws.
\<close>

lemma stat_failure_renews:
  "let made = snd (load_or_create demo_identity_env demo_draw [''data''] (demo_empty_disk []));
       renewed = load_or_create (demo_identity_env\<lparr>ie_json := \<lparr>to_json = (\<lambda>_. Inr [1]), from_json = (\<lambda>_. Inl ''unknown'')\<rparr>\<rparr>)
         demo_draw_later [''data''] (made\<lparr>dk_stat_faults := [True]\<rparr>)
   in file_at made (identity_path [''data'']) = Some [0] \<and>
     fst renewed = Inr \<lparr>did_private_key = replicate 32 5, did_public_key = \<lparr>pk_bytes = replicate 32 6\<rparr>\<rparr> \<and>
     file_at (snd renewed) (identity_path [''data'']) = Some [1]"
  by code_simp

end
