(* ===== verification/Cluster_Store.thy ===== *)
theory Cluster_Store
  imports Device_Identity
begin

section \<open>The persistent membership state\<close>

text \<open>
  \<open>store.rs\<close>: the agent's state is one JSON file, changed by read-modify-write under an
  exclusive lock and replaced by a rename. What its clients, the handlers of the agent, rely on is the
  locale \<open>state_store\<close>: an update happens entirely or not at all, whichever calls of the disk
  fail. \<open>HOSTNAME\<close> is an argument of \<open>open\<close>, and whether another process holds the
  agent's lock one of \<open>acquire_agent_lock\<close>.
\<close>

record cluster_store =
  cst_state_path :: path_buf
  cst_lock_path :: path_buf
  cst_poisoned :: bool

type_synonym 'a disk_op = "(disk, transport_error, 'a) op"

definition cluster_lock_file :: "cluster_store \<Rightarrow> unit disk_op" where
  "cluster_lock_file st = tr_err (open_lock_file (cst_lock_path st))"

definition read_state :: "agent_state json_codec \<Rightarrow> cluster_store \<Rightarrow> agent_state disk_op" where
  "read_state J st =
     op_bind (tr_err (fs_read (cst_state_path st))) (\<lambda>bs.
       op_lift (map_err InvalidMessage (from_json J bs)))"

definition write_state :: "agent_state json_codec \<Rightarrow> cluster_store \<Rightarrow> agent_state \<Rightarrow> unit disk_op" where
  "write_state J st state =
     op_bind (op_lift (map_err InvalidMessage (to_json J state))) (\<lambda>bs.
       let temporary = with_extension (cst_state_path st) ''tmp'' in
       tr_err (replace_file (set_permissions temporary) temporary bs (cst_state_path st)))"

definition process_guard :: "cluster_store \<Rightarrow> unit disk_op" where
  "process_guard st = op_lift (if cst_poisoned st then Inl StateConflict else Inr ())"

definition cluster_load :: "agent_state json_codec \<Rightarrow> cluster_store \<Rightarrow> agent_state disk_op" where
  "cluster_load J st =
     op_bind (process_guard st) (\<lambda>_.
     op_bind (cluster_lock_file st) (\<lambda>_.
     op_bind (tr_err flock) (\<lambda>_.
     read_state J st)))"

text \<open>An operation of \<open>update\<close> answers with an error, or a result and the changed state.\<close>

type_synonym 'a edit = "agent_state \<Rightarrow> transport_error + 'a \<times> agent_state"

definition next_revision :: "u64 \<Rightarrow> u64" where
  "next_revision r = (if r = - 1 then r else r + 1)"

definition bump :: "agent_state \<Rightarrow> agent_state" where
  "bump state = state\<lparr>ags_revision := next_revision (ags_revision state)\<rparr>"

definition cluster_update :: "agent_state json_codec \<Rightarrow> cluster_store \<Rightarrow> 'a edit \<Rightarrow> 'a disk_op" where
  "cluster_update J st operation =
     op_bind (process_guard st) (\<lambda>_.
     op_bind (cluster_lock_file st) (\<lambda>_.
     op_bind (tr_err flock) (\<lambda>_.
     op_bind (read_state J st) (\<lambda>state.
     op_bind (op_lift (operation state)) (\<lambda>(result, state).
     op_bind (write_state J st (bump state)) (\<lambda>_.
     op_lift (Inr result)))))))"

definition normalize_device_name :: "string \<Rightarrow> string tr_result" where
  "normalize_device_name name = (let name = str_trim name in
     if bad_name name then Inl (InvalidMessage ''device name must be 1-128 printable characters'') else Inr name)"

definition private_directory :: "path_buf \<Rightarrow> unit disk_op" where
  "private_directory dir = op_bind (tr_err (fs_create_dir_all dir)) (\<lambda>_. tr_err (dir_set_permissions dir))"

definition cluster_store_at :: "path_buf \<Rightarrow> cluster_store" where
  "cluster_store_at dir = \<lparr>cst_state_path = path_join dir ''cluster.json'',
     cst_lock_path = path_join dir ''cluster.lock'', cst_poisoned = False\<rparr>"

definition initial_name :: "string option \<Rightarrow> string option \<Rightarrow> string" where
  "initial_name device_name hostname = (case device_name of Some name \<Rightarrow> name
     | None \<Rightarrow> (case hostname of Some name \<Rightarrow> name | None \<Rightarrow> ''kubeweft-device''))"

definition initial_state :: "device_id \<Rightarrow> string \<Rightarrow> agent_state" where
  "initial_state device name = \<lparr>ags_revision = 0, ags_device_id = device, ags_device_name = name,
     ags_cluster = None, ags_pending_join = None\<rparr>"

definition cluster_store_open ::
    "identity_env \<Rightarrow> keypair_draw \<Rightarrow> hash_function \<Rightarrow> agent_state json_codec \<Rightarrow> path_buf \<Rightarrow> string option \<Rightarrow> string option
     \<Rightarrow> cluster_store disk_op" where
  "cluster_store_open E draw sha256 J dir device_name hostname =
     op_bind (private_directory dir) (\<lambda>_.
     op_bind (load_or_create E draw dir) (\<lambda>identity. let st = cluster_store_at dir in
     op_bind (cluster_lock_file st) (\<lambda>_.
     op_bind (tr_err flock) (\<lambda>_ d. let (there, d1) = path_exists (cst_state_path st) d in
       (if \<not> there
        then op_bind (op_lift (normalize_device_name (initial_name device_name hostname))) (\<lambda>name.
             op_bind (write_state J st (initial_state (identity_device_id sha256 identity) name)) (\<lambda>_.
             op_lift (Inr st)))
        else op_bind (read_state J st) (\<lambda>state.
             if ags_device_id state \<noteq> identity_device_id sha256 identity
             then op_lift (Inl (InvalidIdentity ''cluster state is bound to a different private key''))
             else op_lift (Inr st))) d1))))"

definition acquire_agent_lock :: "bool \<Rightarrow> path_buf \<Rightarrow> unit disk_op" where
  "acquire_agent_lock held dir =
     op_bind (private_directory dir) (\<lambda>_.
     op_bind (tr_err (open_lock_file (path_join dir ''agent.lock''))) (\<lambda>_.
     if held then op_lift (Inl AgentAlreadyRunning) else tr_err flock))"

subsection \<open>The contract\<close>

definition edit_keeps :: "(agent_state \<Rightarrow> bool) \<Rightarrow> 'a edit \<Rightarrow> bool" where
  "edit_keeps P f \<longleftrightarrow> (\<forall>s x s'. P s \<longrightarrow> f s = Inr (x, s') \<longrightarrow> P (bump s'))"

text \<open>
  A store shows one state; a load returns it or fails, and an update either commits the edited state,
  with the next revision, or fails and leaves the state as it was.
\<close>

locale state_store =
  fixes store_ok :: "'w \<Rightarrow> bool"
    and store_view :: "'w \<Rightarrow> agent_state"
    and load :: "('w, transport_error, agent_state) op"
    and update :: "'a edit \<Rightarrow> ('w, transport_error, 'a) op"
  assumes load_law: "store_ok w \<Longrightarrow> load w = (r, w') \<Longrightarrow>
      store_ok w' \<and> store_view w' = store_view w \<and> (r = Inr (store_view w) \<or> (\<exists>e. r = Inl e))"
    and update_law: "store_ok w \<Longrightarrow> update f w = (q, w') \<Longrightarrow>
      store_ok w' \<and> ((\<exists>x s. f (store_view w) = Inr (x, s) \<and> q = Inr x \<and> store_view w' = bump s) \<or>
        (\<exists>e. q = Inl e \<and> store_view w' = store_view w))"
begin

lemma load_ok: "store_ok w \<Longrightarrow> load w = (Inr s, w') \<Longrightarrow> store_ok w' \<and> s = store_view w \<and> store_view w' = store_view w"
  using load_law by blast

lemma load_keeps: "store_ok w \<Longrightarrow> load w = (r, w') \<Longrightarrow> store_ok w' \<and> store_view w' = store_view w"
  using load_law by blast

lemma update_ok:
  "store_ok w \<Longrightarrow> update f w = (Inr x, w') \<Longrightarrow> store_ok w' \<and> (\<exists>s. f (store_view w) = Inr (x, s) \<and> store_view w' = bump s)"
  using update_law by blast

lemma update_err: "store_ok w \<Longrightarrow> update f w = (Inl e, w') \<Longrightarrow> store_ok w' \<and> store_view w' = store_view w"
  using update_law by blast

lemma update_keeps:
  assumes "store_ok w" "update f w = (r, w')" "edit_keeps P f" "P (store_view w)"
  shows "store_ok w' \<and> P (store_view w')"
  using update_law [OF assms(1,2)] assms(3,4) by (auto simp: edit_keeps_def)

lemma update_refused:
  assumes "store_ok w" "update f w = (r, w')" "f (store_view w) = Inl e"
  shows "store_ok w' \<and> store_view w' = store_view w \<and> (\<exists>e. r = Inl e)"
  using update_law [OF assms(1,2)] assms(3) by auto

end

subsection \<open>The file store keeps it\<close>

definition cluster_view :: "agent_state json_codec \<Rightarrow> cluster_store \<Rightarrow> disk \<Rightarrow> agent_state" where
  "cluster_view J st d = projr (from_json J (the (file_at d (cst_state_path st))))"

definition state_paths_apart :: "cluster_store \<Rightarrow> bool" where
  "state_paths_apart st \<longleftrightarrow> cst_lock_path st \<noteq> cst_state_path st \<and>
     with_extension (cst_state_path st) ''tmp'' \<noteq> cst_state_path st"

definition cluster_ok :: "agent_state json_codec \<Rightarrow> cluster_store \<Rightarrow> disk \<Rightarrow> bool" where
  "cluster_ok J st d \<longleftrightarrow> json_ok J \<and> state_paths_apart st \<and>
     (\<exists>bs s. file_at d (cst_state_path st) = Some bs \<and> from_json J bs = Inr s)"

definition same_state :: "cluster_store \<Rightarrow> disk \<Rightarrow> disk \<Rightarrow> bool" where
  "same_state st d d' \<longleftrightarrow> file_at d' (cst_state_path st) = file_at d (cst_state_path st)"

lemma same_state_refl [simp]: "same_state st d d"
  by (simp add: same_state_def)

lemma same_state_trans: "same_state st d d1 \<Longrightarrow> same_state st d1 d2 \<Longrightarrow> same_state st d d2"
  by (simp add: same_state_def)

lemma same_state_kept:
  assumes "same_state st d d'"
  shows "cluster_ok J st d' = cluster_ok J st d" "cluster_view J st d' = cluster_view J st d"
  using assms by (simp_all add: same_state_def cluster_ok_def cluster_view_def)

lemma tr_err_cases:
  assumes "tr_err m d = (r, d')"
  obtains r1 where "m d = (r1, d')" "r = map_err Io r1"
  using assms unfolding tr_err_def by (rule io_err_cases)

lemma process_guard_same: "process_guard st d = (r, d') \<Longrightarrow> d' = d"
  by (simp add: process_guard_def)

lemma lock_same_state:
  assumes "state_paths_apart st" "cluster_lock_file st d = (r, d')"
  shows "same_state st d d'"
proof -
  obtain r1 where "open_lock_file (cst_lock_path st) d = (r1, d')"
    using assms(2) unfolding cluster_lock_file_def by (rule tr_err_cases)
  from open_lock_file_at [OF this, of "cst_state_path st"] assms(1) show ?thesis
    by (auto simp: same_state_def state_paths_apart_def)
qed

lemma flock_same_state: "tr_err flock d = (r, d') \<Longrightarrow> same_state st d d'"
  by (elim tr_err_cases) (simp add: same_state_def quiet_calls(4))

lemma read_state_law:
  assumes "cluster_ok J st d" "read_state J st d = (r, d')"
  shows "same_state st d d' \<and> (r = Inr (cluster_view J st d) \<or> (\<exists>e. r = Inl e))"
proof -
  obtain bs s where s: "file_at d (cst_state_path st) = Some bs" "from_json J bs = Inr s"
    using assms(1) by (auto simp: cluster_ok_def)
  obtain r1 d1 where run: "fs_read (cst_state_path st) d = (r1, d1)" by fastforce
  have same: "same_state st d d1" using quiet_calls(2) [OF run] by (simp add: same_state_def)
  show ?thesis
  proof (cases r1)
    case (Inl e)
    with run assms(2) same show ?thesis by (auto simp: read_state_def tr_err_def io_err_Inl)
  next
    case (Inr bs')
    with run fs_read_ok s(1) have "bs' = bs" by fastforce
    with Inr run assms(2) same s show ?thesis by (auto simp: read_state_def cluster_view_def)
  qed
qed

lemma write_state_law:
  assumes "json_ok J" "state_paths_apart st" "write_state J st s d = (r, d')"
  shows "(r = Inr () \<and> cluster_ok J st d' \<and> cluster_view J st d' = s) \<or> ((\<exists>e. r = Inl e) \<and> same_state st d d')"
proof (cases "to_json J s")
  case (Inl e)
  with assms(3) show ?thesis by (auto simp: write_state_def)
next
  case (Inr bs)
  let ?tmp = "with_extension (cst_state_path st) ''tmp''"
  from assms have ok: "?tmp \<noteq> cst_state_path st" "json_ok J" "state_paths_apart st"
    by (simp_all add: state_paths_apart_def)
  obtain r1 where rep: "replace_file (set_permissions ?tmp) ?tmp bs (cst_state_path st) d = (r1, d')" "r = map_err Io r1"
    using assms(3) Inr by (auto simp: write_state_def Let_def elim: tr_err_cases)
  from rep(1) ok(1) quietI(2) show ?thesis
  proof (cases rule: replace_file_cases)
    case replaced
    have "from_json J bs = Inr s" using ok(2) Inr by (simp add: json_ok_def)
    with replaced rep(2) ok show ?thesis by (simp add: cluster_ok_def cluster_view_def)
  next
    case (kept e)
    with rep(2) ok(1) show ?thesis by (simp add: same_state_def)
  qed
qed

text \<open>The common opening of \<open>load\<close> and \<open>update\<close>: whatever fails, the state file is untouched.\<close>

lemma cluster_locked_cases:
  assumes "op_bind (process_guard st) (\<lambda>_. op_bind (cluster_lock_file st) (\<lambda>_. op_bind (tr_err flock) (\<lambda>_. m))) d = (r, d')"
    "state_paths_apart st"
  obtains (run) d1 where "same_state st d d1" "m d1 = (r, d')"
    | (refused) e where "r = Inl e" "same_state st d d'"
proof -
  obtain r1 d1 where 1: "cluster_lock_file st d = (r1, d1)" by fastforce
  obtain r2 d2 where 2: "tr_err flock d1 = (r2, d2)" by fastforce
  have same: "same_state st d d1" "same_state st d d2"
    using lock_same_state [OF assms(2) 1] flock_same_state [OF 2] same_state_trans by blast+
  show thesis
  proof (cases "cst_poisoned st")
    case True
    with assms(1) refused show thesis by (auto simp: process_guard_def)
  next
    case False
    then have pg: "process_guard st d = (Inr (), d)" by (simp add: process_guard_def)
    show thesis
    proof (cases r1)
      case (Inl e)
      with 1 pg assms(1) same refused show thesis by auto
    next
      case (Inr u)
      with 1 2 pg assms(1) same refused run show thesis by (cases r2) auto
    qed
  qed
qed

lemma cluster_load_law:
  assumes "cluster_ok J st d" "cluster_load J st d = (r, d')"
  shows "same_state st d d' \<and> (r = Inr (cluster_view J st d) \<or> (\<exists>e. r = Inl e))"
proof -
  have "state_paths_apart st" using assms(1) by (simp add: cluster_ok_def)
  with assms(2) show ?thesis unfolding cluster_load_def
  proof (cases rule: cluster_locked_cases)
    case (run d1)
    with assms(1) read_state_law [of J st d1 r d'] show ?thesis
      by (metis same_state_kept same_state_trans)
  qed auto
qed

lemma cluster_update_law:
  assumes "cluster_ok J st d" "cluster_update J st f d = (r, d')"
  shows "cluster_ok J st d' \<and> ((\<exists>x s. f (cluster_view J st d) = Inr (x, s) \<and> r = Inr x \<and> cluster_view J st d' = bump s) \<or>
    (\<exists>e. r = Inl e \<and> same_state st d d'))"
proof -
  have "state_paths_apart st" using assms(1) by (simp add: cluster_ok_def)
  with assms(2) show ?thesis unfolding cluster_update_def
  proof (cases rule: cluster_locked_cases)
    case (run d1)
    note kept1 = same_state_kept [OF run(1), of J]
    obtain r2 d2 where 2: "read_state J st d1 = (r2, d2)" by fastforce
    have ok1: "cluster_ok J st d1" using kept1 assms(1) by simp
    note rd = read_state_law [OF ok1 2]
    have same2: "same_state st d d2" using rd run(1) same_state_trans by blast
    note kept2 = same_state_kept [OF same2, of J]
    show ?thesis
    proof (cases r2)
      case (Inl e)
      with run(2) 2 same2 kept2 assms(1) show ?thesis by auto
    next
      case (Inr s)
      with rd kept1 have s: "s = cluster_view J st d" by simp
      show ?thesis
      proof (cases "f s")
        case (Inl e)
        with Inr run(2) 2 same2 kept2 assms(1) show ?thesis by auto
      next
        case (Inr p)
        obtain x s' where p: "p = (x, s')" by fastforce
        obtain r3 d3 where 3: "write_state J st (bump s') d2 = (r3, d3)" by fastforce
        have ok2: "json_ok J" "state_paths_apart st" using assms(1) by (simp_all add: cluster_ok_def)
        have rd': "d' = d3" "r = (case r3 of Inl e \<Rightarrow> Inl e | Inr _ \<Rightarrow> Inr x)"
          using run(2) 2 3 \<open>r2 = Inr s\<close> Inr p by (cases r3; simp)+
        from write_state_law [OF ok2 3] rd' Inr p s same2 same_state_kept [of st d d3 J] assms(1)
        show ?thesis by (metis old.sum.simps(5,6) same_state_trans)
      qed
    qed
  next
    case (refused e)
    with same_state_kept [OF refused(2)] assms(1) show ?thesis by auto
  qed
qed

interpretation cs: state_store "cluster_ok J st" "cluster_view J st" "cluster_load J st" "cluster_update J st" for J st
proof (unfold_locales, goal_cases)
  case (1 w r w')
  with cluster_load_law [OF 1] same_state_kept show ?case by metis
next
  case (2 w f r w')
  with cluster_update_law [OF 2] same_state_kept show ?case by metis
qed

subsection \<open>On a disk that does not fail\<close>

definition json_total :: "'a json_codec \<Rightarrow> bool" where
  "json_total J \<longleftrightarrow> (\<forall>x. \<exists>bs. to_json J x = Inr bs)"

lemma cluster_lock_healthy:
  assumes "healthy d"
  shows "\<exists>d1. open_lock_file p d = (Inr (), d1) \<and> healthy d1"
  using assms by (auto simp: healthy_calls split: option.splits)

lemma cluster_locked_healthy:
  assumes "healthy d" "cluster_ok J st d" "\<not> cst_poisoned st"
  shows "\<exists>d1. healthy d1 \<and> same_state st d d1 \<and>
    op_bind (process_guard st) (\<lambda>_. op_bind (cluster_lock_file st) (\<lambda>_. op_bind (tr_err flock) (\<lambda>_. m))) d = m d1"
proof -
  obtain d1 where d1: "open_lock_file (cst_lock_path st) d = (Inr (), d1)" "healthy d1"
    using cluster_lock_healthy [OF assms(1)] by blast
  then have lock: "cluster_lock_file st d = (Inr (), d1)" by (simp add: cluster_lock_file_def)
  have "flock d1 = (Inr (), d1)" using d1(2) by (simp add: healthy_calls)
  with lock d1(2) assms(2,3) lock_same_state [OF _ lock] show ?thesis
    by (auto simp: process_guard_def cluster_ok_def)
qed

lemma read_state_healthy:
  assumes "healthy d" "cluster_ok J st d"
  shows "read_state J st d = (Inr (cluster_view J st d), d)"
proof -
  obtain bs s where s: "file_at d (cst_state_path st) = Some bs" "from_json J bs = Inr s"
    using assms(2) by (auto simp: cluster_ok_def)
  then have "fs_read (cst_state_path st) d = (Inr bs, d)" using assms(1) by (simp add: healthy_calls)
  then show ?thesis using s by (simp add: read_state_def cluster_view_def)
qed

lemma write_state_healthy:
  assumes "healthy d" "json_ok J" "json_total J" "state_paths_apart st"
  shows "\<exists>d'. write_state J st s d = (Inr (), d') \<and> healthy d' \<and> cluster_ok J st d' \<and> cluster_view J st d' = s"
proof -
  let ?tmp = "with_extension (cst_state_path st) ''tmp''"
  obtain bs where bs: "to_json J s = Inr bs" using assms(3) by (auto simp: json_total_def)
  have "set_permissions ?tmp (set_file ?tmp bs d) = (Inr (), set_file ?tmp bs d)" if "healthy d" for d
    using that by (simp add: healthy_calls)
  then obtain d' where "replace_file (set_permissions ?tmp) ?tmp bs (cst_state_path st) d = (Inr (), d')" "healthy d'"
    using replace_file_healthy [OF assms(1), of ?tmp "cst_state_path st" "set_permissions ?tmp" bs] assms(4)
    by (auto simp: state_paths_apart_def)
  then have run: "write_state J st s d = (Inr (), d')" "healthy d'" using bs by (simp_all add: write_state_def Let_def)
  from write_state_law [OF assms(2,4) run(1)] run show ?thesis by auto
qed

lemma cluster_load_healthy:
  assumes "healthy d" "cluster_ok J st d" "\<not> cst_poisoned st"
  shows "\<exists>d'. cluster_load J st d = (Inr (cluster_view J st d), d') \<and> healthy d' \<and> same_state st d d'"
proof -
  obtain d1 where d1: "healthy d1" "same_state st d d1" "cluster_load J st d = read_state J st d1"
    using cluster_locked_healthy [OF assms] unfolding cluster_load_def by blast
  with read_state_healthy [of d1 J st] same_state_kept [OF d1(2), of J] assms(2) show ?thesis by auto
qed

lemma cluster_update_healthy:
  assumes "healthy d" "cluster_ok J st d" "\<not> cst_poisoned st" "json_total J" "f (cluster_view J st d) = Inr (x, s)"
  shows "\<exists>d'. cluster_update J st f d = (Inr x, d') \<and> healthy d' \<and> cluster_ok J st d' \<and> cluster_view J st d' = bump s"
proof -
  obtain d1 where d1: "healthy d1" "same_state st d d1"
    "cluster_update J st f d = op_bind (read_state J st) (\<lambda>state. op_bind (op_lift (f state)) (\<lambda>(result, state).
       op_bind (write_state J st (bump state)) (\<lambda>_. op_lift (Inr result)))) d1"
    using cluster_locked_healthy [OF assms(1-3)] unfolding cluster_update_def by blast
  note kept = same_state_kept [OF d1(2), of J]
  have "json_ok J" "state_paths_apart st" using assms(2) by (simp_all add: cluster_ok_def)
  then obtain d2 where "write_state J st (bump s) d1 = (Inr (), d2)" "healthy d2" "cluster_ok J st d2" "cluster_view J st d2 = bump s"
    using write_state_healthy [OF d1(1) _ assms(4)] by blast
  with d1 read_state_healthy [OF d1(1), of J st] kept assms(2,5) show ?thesis by auto
qed

subsection \<open>Opening the store\<close>

lemma store_at_apart [simp]: "state_paths_apart (cluster_store_at dir)"
proof -
  have "file_stem ''cluster.json'' @ ''.tmp'' \<noteq> ''cluster.json''" by code_simp
  then show ?thesis by (simp add: state_paths_apart_def cluster_store_at_def with_extension_def path_join_def)
qed

text \<open>An opened store holds a state, and it is the state of the device whose key is in the directory.\<close>

lemma cluster_store_open_ok:
  assumes "json_ok J" "cluster_store_open E draw sha256 J dir device_name hostname d = (Inr st, d')"
  shows "st = cluster_store_at dir \<and> cluster_ok J st d' \<and>
    (\<exists>i. identity_ok E i \<and> ags_device_id (cluster_view J st d') = identity_device_id sha256 i)"
proof -
  let ?st = "cluster_store_at dir"
  let ?p = "cst_state_path ?st"
  from assms(2) obtain i d1 d2 d3 where i: "load_or_create E draw dir d1 = (Inr i, d2)"
    and rest: "(let (there, d4) = path_exists ?p d3 in
       (if \<not> there
        then op_bind (op_lift (normalize_device_name (initial_name device_name hostname))) (\<lambda>name.
             op_bind (write_state J ?st (initial_state (identity_device_id sha256 i) name)) (\<lambda>_. op_lift (Inr ?st)))
        else op_bind (read_state J ?st) (\<lambda>state.
             if ags_device_id state \<noteq> identity_device_id sha256 i
             then op_lift (Inl (InvalidIdentity ''cluster state is bound to a different private key''))
             else op_lift (Inr ?st))) d4) = (Inr st, d')"
    unfolding cluster_store_open_def Let_def by (auto simp only: op_bind_eq_Inr)
  note i_ok = load_or_create_ok [OF i]
  obtain there d4 where pe: "path_exists ?p d3 = (there, d4)" by fastforce
  show ?thesis
  proof (cases there)
    case False
    with rest pe obtain name where "write_state J ?st (initial_state (identity_device_id sha256 i) name) d4 = (Inr (), d')" "st = ?st"
      by (auto simp: op_bind_eq_Inr)
    with write_state_law [OF assms(1) store_at_apart] i_ok show ?thesis by (fastforce simp: initial_state_def)
  next
    case True
    from rest obtain s d5 where "read_state J ?st d4 = (Inr s, d5)"
      "(if ags_device_id s \<noteq> identity_device_id sha256 i
        then op_lift (Inl (InvalidIdentity ''cluster state is bound to a different private key''))
        else op_lift (Inr ?st)) d5 = (Inr st, d')"
      unfolding pe Let_def prod.case eqTrueI [OF True] not_True_eq_False if_False op_bind_eq_Inr by blast
    then have s: "read_state J ?st d4 = (Inr s, d')" "ags_device_id s = identity_device_id sha256 i" "st = ?st"
      by (simp_all split: if_splits)
    from s(1) obtain bs d5 where "fs_read ?p d4 = (Inr bs, d5)" "from_json J bs = Inr s" "d' = d5"
      by (auto simp: read_state_def op_bind_eq_Inr)
    with fs_read_ok quiet_calls(2) have "file_at d' ?p = Some bs" by metis
    with \<open>from_json J bs = Inr s\<close> s assms(1) i_ok show ?thesis by (auto simp: cluster_ok_def cluster_view_def)
  qed
qed

end
