(* ===== verification/Local_Filesystem.thy ===== *)
theory Local_Filesystem
  imports Service_Correct Local_Metadata Local_Content Cluster_Store
begin

section \<open>The filesystem of one device\<close>

text \<open>
  \<open>kubeweft-local\<close>: opening the persistent stores of a data directory, and creating directory trees. The
  two stores keep their files apart, so a world has the disk once for each.
\<close>

definition local_capacity :: u64 where
  "local_capacity = 107374182400"

record local_filesystem =
  lf_service :: "disk filesystem_service"
  lf_registry :: "disk content_registry"
  lf_device_id :: device_id

definition local_node :: "device_id \<Rightarrow> storage_node" where
  "local_node device = \<lparr>sn_device_id = device, sn_online = True, sn_free_space = local_capacity,
     sn_total_space = local_capacity, sn_power = Mains, sn_availability = Stable, sn_network = Lan\<rparr>"

definition cluster_device ::
    "identity_env \<Rightarrow> keypair_draw \<Rightarrow> hash_function \<Rightarrow> agent_state json_codec \<Rightarrow> path_buf \<Rightarrow> string option \<Rightarrow> (disk, filesystem_error, device_id) op" where
  "cluster_device E draw sha256 K dir hostname d =
     (case op_bind (cluster_store_open E draw sha256 K dir None hostname) (\<lambda>store. cluster_load K store) d of
       (Inr state, d1) \<Rightarrow> (Inr (ags_device_id state), d1)
     | (Inl error, d1) \<Rightarrow> (Inl (Storage (transport_error_display error)), d1))"

definition local_filesystem_open ::
    "identity_env \<Rightarrow> keypair_draw \<Rightarrow> hash_function \<Rightarrow> agent_state json_codec \<Rightarrow> metadata_snapshot json_codec \<Rightarrow> path_buf \<Rightarrow> string option
     \<Rightarrow> (disk, filesystem_error, local_filesystem) op" where
  "local_filesystem_open E draw sha256 K J dir hostname =
     op_bind (storage_err (fs_create_dir_all dir)) (\<lambda>_.
     op_bind (local_metadata_open J (path_join dir ''metadata.json'')) (\<lambda>metadata.
     op_bind (cluster_device E draw sha256 K dir hostname) (\<lambda>device.
     op_bind (local_content_open (path_join (path_join dir ''content'') ''blobs'') local_capacity) (\<lambda>content.
       let (registered, registry) = registry_register (local_node device) (local_content_store sha256 content) registry_new in
       op_bind (op_lift registered) (\<lambda>_.
       op_lift (Inr \<lparr>lf_service = filesystem_service_new (local_metadata_ops J metadata),
         lf_registry = registry, lf_device_id = device\<rparr>))))))"

subsection \<open>Directory trees\<close>

text \<open>
  The loop of \<open>ensure_directory_tree\<close>. The identifiers that \<open>mkdir\<close> draws and the times it reads are functions of
  the round.
\<close>

fun ensure_components ::
    "disk filesystem_service \<Rightarrow> (nat \<Rightarrow> clock) \<Rightarrow> (nat \<Rightarrow> directory_id) \<Rightarrow> nat \<Rightarrow> string \<Rightarrow> string list \<Rightarrow> (disk, 'c) world
     \<Rightarrow> (unit fs_result \<times> (disk, 'c) world) option" where
  "ensure_components svc clk ids i current [] w = Some (Inr (), w)"
| "ensure_components svc clk ids i current (component # rest) w =
     (if component = [] then Some (Inl InvalidPath, w)
      else (let current = current @ CHR ''/'' # component in
        case svc_stat svc current w of
          (Inr (DirEntry _), w1) \<Rightarrow> ensure_components svc clk ids (Suc i) current rest w1
        | (Inr (FileEntry _), w1) \<Rightarrow> Some (Inl NotDirectory, w1)
        | (Inl e, w1) \<Rightarrow>
            if e = NotFound
            then (case svc_mkdir svc (clk i) (ids i) current w1 of
                None \<Rightarrow> None
              | Some (Inl e, w2) \<Rightarrow> Some (Inl e, w2)
              | Some (Inr _, w2) \<Rightarrow> ensure_components svc clk ids (Suc i) current rest w2)
            else Some (Inl e, w1)))"

definition ensure_directory_tree ::
    "disk filesystem_service \<Rightarrow> (nat \<Rightarrow> clock) \<Rightarrow> (nat \<Rightarrow> directory_id) \<Rightarrow> string \<Rightarrow> (disk, 'c) world
     \<Rightarrow> (unit fs_result \<times> (disk, 'c) world) option" where
  "ensure_directory_tree svc clk ids path w =
     (if path = ''/'' then Some (Inr (), w)
      else (case strip_prefix ''/'' path of
          None \<Rightarrow> Some (Inl InvalidPath, w)
        | Some rest \<Rightarrow> ensure_components svc clk ids 0 [] (split_on CHR ''/'' rest) w))"

definition home_char :: "char \<Rightarrow> bool" where
  "home_char c \<longleftrightarrow> is_ascii_alphanumeric c \<or> c = CHR ''-'' \<or> c = CHR ''_''"

definition bootstrap_home ::
    "disk filesystem_service \<Rightarrow> (nat \<Rightarrow> clock) \<Rightarrow> (nat \<Rightarrow> directory_id) \<Rightarrow> string \<Rightarrow> (disk, 'c) world
     \<Rightarrow> (string fs_result \<times> (disk, 'c) world) option" where
  "bootstrap_home svc clk ids user w =
     (if user = [] \<or> \<not> list_all home_char user then Some (Inl InvalidPath, w)
      else (let home = ''/home/'' @ user in
        map_option (\<lambda>(r, w1). (res_bind r (\<lambda>_. Inr home), w1)) (ensure_directory_tree svc clk ids home w)))"

subsection \<open>The metadata on disk\<close>

lemma local_load_healthy:
  assumes "local_ok J st d" "healthy d" "\<not> lm_poisoned st"
  shows "\<exists>d'. local_metadata_load J st d = (Inr (local_view J st d), d') \<and> same_file st d d' \<and> healthy d'"
proof -
  obtain d1 where d1: "open_lock_file (lm_lock_path st) d = (Inr (), d1)" "healthy d1"
    using assms(2) by (auto simp: healthy_calls split: option.splits)
  then have same: "same_file st d d1"
    using assms(1) lock_same_file [of st d "Inr ()" d1] by (simp add: local_ok_def meta_err_def)
  have flock: "meta_err flock d1 = (Inr (), d1)" using d1(2) by (simp add: meta_err_def healthy_calls)
  have rd: "read_snapshot J (lm_path st) d1 = (Inr (local_view J st d1), d1)"
    using assms(1) same d1(2)
    by (auto simp: read_snapshot_def path_exists_healthy local_view_def local_ok_def readable_def meta_err_def healthy_calls same_file_def
        split: option.splits)
  have "local_metadata_load J st d = (Inr (local_view J st d1), d1)"
    using assms(3) d1 flock rd by (simp add: local_metadata_load_def meta_err_def unlock_then_def)
  with same d1(2) same_file_view [OF same, of J] show ?thesis by auto
qed

lemma local_cas_healthy:
  assumes "local_ok J st d" "healthy d" "\<not> lm_poisoned st" "json_total J" "ms_revision (local_view J st d) = ms_revision x"
  shows "\<exists>d'. local_metadata_cas J st x d = (Inr (), d') \<and> healthy d'"
proof -
  let ?tmp = "with_extension (lm_path st) ''tmp''" and ?new = "x\<lparr>ms_revision := ms_revision x + 1\<rparr>"
  obtain d1 where d1: "open_lock_file (lm_lock_path st) d = (Inr (), d1)" "healthy d1"
    using assms(2) by (auto simp: healthy_calls split: option.splits)
  then have same: "same_file st d d1"
    using assms(1) lock_same_file [of st d "Inr ()" d1] by (simp add: local_ok_def meta_err_def)
  have flock: "meta_err flock e = (Inr (), e)" if "healthy e" for e using that by (simp add: meta_err_def healthy_calls)
  have rd: "read_snapshot J (lm_path st) d1 = (Inr (local_view J st d1), d1)"
    using assms(1) same d1(2)
    by (auto simp: read_snapshot_def path_exists_healthy local_view_def local_ok_def readable_def meta_err_def healthy_calls same_file_def
        split: option.splits)
  obtain bs where bs: "to_json J ?new = Inr bs" using assms(4) by (auto simp: json_total_def)
  obtain d2 where d2: "replace_file (op_lift (Inr ())) ?tmp bs (lm_path st) d1 = (Inr (), d2)" "healthy d2"
    using replace_file_healthy [OF d1(2), of ?tmp "lm_path st" "op_lift (Inr ())" bs] assms(1) by (auto simp: local_ok_def paths_apart_def)
  have "persist J st ?new d1 = (Inr (), d2)"
    using bs d2 d1(2) by (simp add: persist_def create_parent_def meta_err_def healthy_calls)
  then have "local_metadata_cas J st x d = (Inr (), d2)"
    using assms(3,5) d1 rd flock d2(2) same_file_view [OF same, of J] by (simp add: local_metadata_cas_def unlock_then_def meta_err_def)
  with d2(2) show ?thesis by blast
qed

text \<open>
  A mutation of the store on disk: it fails before it changed anything, its closure refuses, or it is made, and then the
  caller may still be told that the store is unavailable. On a working disk that cannot happen.
\<close>

lemma local_mutation_cases:
  assumes "local_ok J st d" "operation 0 (local_view J st d) = Some a"
    and "\<And>q y. operation 0 (local_view J st d) = Some (Inr (q, y)) \<Longrightarrow> ms_revision y = ms_revision (local_view J st d)"
  obtains (failed) e d' where "retry_mutation (local_metadata_ops J st) operation d = Some (Inl e, d')" "e \<in> unavailable"
      "same_file st d d'" "healthy d \<Longrightarrow> json_total J \<Longrightarrow> lm_poisoned st"
    | (refused) e d' where "retry_mutation (local_metadata_ops J st) operation d = Some (Inl e, d')" "a = Inl e" "same_file st d d'"
    | (made) r q y d' where "retry_mutation (local_metadata_ops J st) operation d = Some (r, d')" "a = Inr (q, y)" "local_ok J st d'"
      "local_view J st d' = y\<lparr>ms_revision := ms_revision y + 1\<rparr>" "r = Inr q \<or> r \<in> Inl ` unavailable"
      "healthy d \<Longrightarrow> json_total J \<Longrightarrow> \<not> lm_poisoned st \<Longrightarrow> r = Inr q \<and> healthy d'"
proof -
  have eight: "(8 :: nat) = Suc 7" by simp
  have ops: "md_load (local_metadata_ops J st) = local_metadata_load J st" "md_cas (local_metadata_ops J st) = local_metadata_cas J st"
    by (simp_all add: local_metadata_ops_def)
  let ?v = "local_view J st d" and ?run = "retry_mutation (local_metadata_ops J st) operation d"
  obtain ld d1 where ld: "local_metadata_load J st d = (ld, d1)" by fastforce
  have same: "same_file st d d1" and ld_cases: "ld = Inr ?v \<or> ld \<in> Inl ` unavailable"
    using local_load_cases [OF assms(1) ld] by simp_all
  have lh: "ld = Inr ?v \<and> healthy d1" if "healthy d" "\<not> lm_poisoned st"
    using local_load_healthy [OF assms(1) that] ld by auto
  have run: "?run = (case ld of Inl e \<Rightarrow> Some (Inl e, d1)
     | Inr snapshot \<Rightarrow> (case operation 0 snapshot of None \<Rightarrow> None | Some (Inl e) \<Rightarrow> Some (Inl e, d1)
       | Some (Inr (result, replacement)) \<Rightarrow> (case local_metadata_cas J st replacement d1 of (Inr _, s2) \<Rightarrow> Some (Inr result, s2)
         | (Inl e, s2) \<Rightarrow> if e = Conflict then retry_from (local_metadata_ops J st) (Suc 0) 7 operation s2 else Some (Inl e, s2))))"
    unfolding retry_mutation_def eight retry_from.simps ops by (cases ld) (simp_all add: ld)
  show thesis
  proof (cases ld)
    case (Inl e)
    have "?run = Some (Inl e, d1)" using run Inl by simp
    moreover have "e \<in> unavailable" using ld_cases Inl by blast
    moreover have "lm_poisoned st" if "healthy d" using lh [OF that] Inl by blast
    ultimately show thesis using failed same by blast
  next
    case (Inr x)
    with ld_cases have x: "x = ?v" by auto
    show thesis
    proof (cases a)
      case (Inl e)
      have "?run = Some (Inl e, d1)" using run Inr x assms(2) Inl by simp
      with Inl same refused show thesis by blast
    next
      case a: (Inr p)
      obtain q y where p: "p = (q, y)" by fastforce
      have ok1: "local_ok J st d1" and view1: "local_view J st d1 = ?v"
        using assms(1) same_file_ok [OF same] same_file_view [OF same] by simp_all
      have rev: "ms_revision y = ms_revision ?v" using assms(2,3) a p by simp
      obtain c d2 where c: "local_metadata_cas J st y d1 = (c, d2)" by fastforce
      have ch: "c = Inr () \<and> healthy d2" if "healthy d" "json_total J" "\<not> lm_poisoned st"
        using local_cas_healthy [OF ok1 _ that(3,2), of y] lh [OF that(1,3)] c rev view1 by auto
      have res: "?run = (case c of Inr _ \<Rightarrow> Some (Inr q, d2)
          | Inl e \<Rightarrow> if e = Conflict then retry_from (local_metadata_ops J st) (Suc 0) 7 operation d2 else Some (Inl e, d2))"
        using run Inr x assms(2) a p c by simp
      from ok1 c show thesis
      proof (cases rule: local_cas_cases)
        case committed
        show thesis
        proof (cases c)
          case (Inl e)
          with committed(4) have e: "e \<in> unavailable" by auto
          then have "?run = Some (Inl e, d2)" using res Inl by auto
          moreover have "Inl e = Inr q \<and> healthy d2" if "healthy d" "json_total J" "\<not> lm_poisoned st" using ch [OF that] Inl by simp
          ultimately show thesis using made [OF _ a [unfolded p] committed(2,3)] e by blast
        next
          case c: (Inr u)
          then have "?run = Some (Inr q, d2)" using res by simp
          from made [OF this a [unfolded p] committed(2,3)] ch show thesis by blast
        qed
      next
        case lost
        with rev view1 show thesis by simp
      next
        case failed': failed
        then obtain e where e: "c = Inl e" "e \<in> unavailable" by auto
        then have "?run = Some (Inl e, d2)" using res by auto
        moreover have "lm_poisoned st" if "healthy d" "json_total J" using ch [OF that] e(1) by blast
        ultimately show thesis using failed e(2) same_file_trans [OF same failed'(2)] by blast
      qed
    qed
  qed
qed

subsection \<open>One component\<close>

text \<open>What the two calls of a round do, whatever calls of the disk fail but the \<open>stat\<close> of the metadata file.\<close>

lemma metadata_of_target:
  assumes "wf_namespace s" "paths s cs = Some t"
  shows "metadata_for s t = Inr (case t of FileTarget f \<Rightarrow> FileEntry (the (map_of (ms_files s) f))
    | DirTarget d \<Rightarrow> DirEntry (the (map_of (ms_directories s) d)))"
  using wf_paths_known [OF assms] by (cases t) (auto simp: metadata_for_def target_known_def)

lemma stat_local:
  assumes "local_ok J st d" "\<forall>c \<in> set cs. valid_component c"
  obtains r d' where "stat (local_metadata_ops J st) (render_path cs) d = (r, d')" "same_file st d d'"
    "r = res_bind (spec_resolve (paths (local_view J st d)) cs) (metadata_for (local_view J st d)) \<or>
      r \<in> Inl ` unavailable \<and> (healthy d \<longrightarrow> lm_poisoned st)" "healthy d \<Longrightarrow> \<not> lm_poisoned st \<Longrightarrow> healthy d'"
proof -
  obtain ld d1 where ld: "local_metadata_load J st d = (ld, d1)" by fastforce
  have lh: "ld = Inr (local_view J st d) \<and> healthy d1" if "healthy d" "\<not> lm_poisoned st"
    using local_load_healthy [OF assms(1) that] ld by auto
  have "stat (local_metadata_ops J st) (render_path cs) d = (res_bind ld (\<lambda>s. res_bind (spec_resolve (paths s) cs) (metadata_for s)), d1)"
    by (cases ld) (simp_all add: stat_def fs_path_parse_render [OF assms(2)] local_metadata_ops_def ld resolve_components_eq)
  note run = this
  have same: "same_file st d d1" and ld_cases: "ld = Inr (local_view J st d) \<or> ld \<in> Inl ` unavailable"
    using local_load_cases [OF assms(1) ld] by simp_all
  show thesis
  proof (cases ld)
    case (Inl e)
    with ld_cases lh that [OF run same] show thesis by auto
  next
    case (Inr x)
    with ld_cases have "x = local_view J st d" by auto
    with Inr lh that [OF run same] show thesis by simp
  qed
qed

lemma mkdir_local:
  assumes "local_ok J st d" "\<forall>c \<in> set (ps @ [n]). valid_component c" "wf_namespace (local_view J st d)"
    and "new \<notin> dom (map_of (ms_directories (local_view J st d)))"
    and "paths (local_view J st d) ps = Some (DirTarget e)" "paths (local_view J st d) (ps @ [n]) = None"
  obtains (made) r d' where "mkdir (local_metadata_ops J st) clk new (render_path (ps @ [n])) d = Some (r, d')" "local_ok J st d'"
      "wf_namespace (local_view J st d')" "paths (local_view J st d') = (paths (local_view J st d))(ps @ [n] \<mapsto> DirTarget new)"
      "dom (map_of (ms_directories (local_view J st d'))) = insert new (dom (map_of (ms_directories (local_view J st d))))"
      "r = Inr new \<or> r \<in> Inl ` unavailable" "healthy d \<Longrightarrow> json_total J \<Longrightarrow> \<not> lm_poisoned st \<Longrightarrow> r = Inr new \<and> healthy d'"
    | (failed) e d' where "mkdir (local_metadata_ops J st) clk new (render_path (ps @ [n])) d = Some (Inl e, d')" "e \<in> unavailable"
      "same_file st d d'" "healthy d \<Longrightarrow> json_total J \<Longrightarrow> lm_poisoned st"
proof -
  let ?v = "local_view J st d"
  let ?edit = "\<lambda>k s. Some (mkdir_edit new ps n (clk k 0) (clk k 1) s)"
  have "abs_result (mkdir_edit new ps n (clk 0 0) (clk 0 1) ?v) = Inr ((paths ?v)(ps @ [n] \<mapsto> DirTarget new))"
    using assms(5,6) by (simp add: mkdir_edit_refines [OF assms(3,4)] spec_add_def spec_insert_def)
  then obtain r y where y: "mkdir_edit new ps n (clk 0 0) (clk 0 1) ?v = Inr (r, y)" "paths y = (paths ?v)(ps @ [n] \<mapsto> DirTarget new)"
    by (auto simp: abs_result_def split: sum.splits)
  have r: "r = new" "dom (map_of (ms_directories y)) = insert new (dom (map_of (ms_directories ?v)))"
    using y(1) by (auto elim!: mkdir_edit_Inr simp: touch_directory_def split: if_splits)
  have wf: "wf_namespace y" using mkdir_edit_wf [OF assms(3) _ assms(4) y(1)] assms(2) by simp
  have mk: "mkdir (local_metadata_ops J st) clk new (render_path (ps @ [n])) d = retry_mutation (local_metadata_ops J st) ?edit d"
    unfolding mkdir_def fs_path_parse_render [OF assms(2)] by (simp add: split_parent_def)
  have edit: "?edit 0 ?v = Some (Inr (r, y))" using y(1) by simp
  have rev: "ms_revision y' = ms_revision ?v" if "?edit 0 ?v = Some (Inr (q, y'))" for q y' using that mkdir_edit_revision by simp
  show thesis
  proof (rule local_mutation_cases [where operation = ?edit, OF assms(1) edit rev])
    fix e d'
    assume "retry_mutation (local_metadata_ops J st) ?edit d = Some (Inl e, d')" "e \<in> unavailable" "same_file st d d'"
      "healthy d \<Longrightarrow> json_total J \<Longrightarrow> lm_poisoned st"
    with mk that(2) show thesis by simp
  next
    fix x q y' d'
    assume run: "retry_mutation (local_metadata_ops J st) ?edit d = Some (x, d')" "Inr (r, y) = Inr (q, y')" "local_ok J st d'"
      "local_view J st d' = y'\<lparr>ms_revision := ms_revision y' + 1\<rparr>" "x = Inr q \<or> x \<in> Inl ` unavailable"
      "healthy d \<Longrightarrow> json_total J \<Longrightarrow> \<not> lm_poisoned st \<Longrightarrow> x = Inr q \<and> healthy d'"
    from run(2) r(1) have eqs: "q = new" "y' = y" by simp_all
    show thesis
      using that(1) [of x d'] run(1,3-6) mk y(2) r(2) wf unfolding eqs by simp
  next
    fix e :: filesystem_error
    assume "Inr (r, y) = Inl e"
    then show thesis by simp
  qed
qed

subsection \<open>The whole tree\<close>

abbreviation spelled :: "string list \<Rightarrow> string" where
  "spelled cs \<equiv> concat (map (\<lambda>c. CHR ''/'' # c) cs)"

lemma render_path_spelled: "cs \<noteq> [] \<Longrightarrow> render_path cs = spelled cs"
  unfolding render_path_def by (induction cs rule: induct_list012) simp_all

lemma svc_stat_eq: "svc_stat svc path w = (let (r, s1) = stat (fs_metadata svc) path (w_metadata w) in (r, w\<lparr>w_metadata := s1\<rparr>))"
  by (simp add: svc_stat_def on_metadata_def)

text \<open>What the loop leaves behind when it started at a directory \<open>pre\<close> with the components \<open>cs\<close> to go.\<close>

definition tree_made :: "path_map \<Rightarrow> string list \<Rightarrow> string list \<Rightarrow> unit fs_result \<Rightarrow> path_map \<Rightarrow> bool" where
  "tree_made m pre cs r m' \<longleftrightarrow> m \<subseteq>\<^sub>m m' \<and> (\<forall>p. (\<forall>q. prefix q cs \<longrightarrow> p \<noteq> pre @ q) \<longrightarrow> m' p = m p) \<and>
     (case r of Inr _ \<Rightarrow> \<forall>q. prefix q cs \<longrightarrow> (\<exists>d. m' (pre @ q) = Some (DirTarget d))
      | Inl e \<Rightarrow> e \<in> unavailable \<or> e = NotDirectory \<and> (\<exists>q. prefix q cs \<and> is_file_target (m (pre @ q))))"

lemma tree_made_Nil: "m pre = Some (DirTarget d) \<Longrightarrow> tree_made m pre [] (Inr ()) m"
  by (simp add: tree_made_def)

lemma tree_made_file:
  "is_file_target (m (pre @ [c])) \<Longrightarrow> tree_made m pre (c # cs) (Inl NotDirectory) m"
  by (auto simp: tree_made_def intro!: exI [of _ "[c]"])

lemma tree_made_failed:
  "e \<in> unavailable \<Longrightarrow> tree_made m pre (c # cs) (Inl e) m"
  "e \<in> unavailable \<Longrightarrow> m (pre @ [c]) = None \<Longrightarrow> tree_made m pre (c # cs) (Inl e) (m(pre @ [c] \<mapsto> DirTarget d))"
  by (auto simp: tree_made_def map_le_def)

lemma tree_made_Cons:
  assumes "tree_made m1 (pre @ [c]) cs r m'" "m pre = Some (DirTarget d)" "m (pre @ [c]) = None \<or> m (pre @ [c]) = Some (DirTarget e)"
    and "m1 = m(pre @ [c] \<mapsto> DirTarget e)"
  shows "tree_made m pre (c # cs) r m'"
proof -
  have sub: "m \<subseteq>\<^sub>m m1" using assms(3,4) by (auto simp: map_le_def)
  have same: "is_file_target (m (pre @ c # q))" if "is_file_target (m1 (pre @ c # q))" for q
    using that assms(4) by (cases "q = []") (auto simp: is_file_target_def)
  have "m' pre = Some (DirTarget d)" using assms(1,2) sub by (auto simp: tree_made_def map_le_def dom_def)
  then have dirs: "\<exists>d. m' (pre @ q) = Some (DirTarget d)" if "r = Inr ()" "prefix q (c # cs)" for q
    using assms(1) that by (auto simp: tree_made_def prefix_Cons)
  have blocked: "e' \<in> unavailable \<or> e' = NotDirectory \<and> (\<exists>q. prefix q (c # cs) \<and> is_file_target (m (pre @ q)))" if "r = Inl e'" for e'
    using assms(1) that same by (auto simp: tree_made_def) (metis Cons_prefix_Cons)
  have "m' p = m p" if "\<forall>q. prefix q (c # cs) \<longrightarrow> p \<noteq> pre @ q" for p
  proof -
    from that have "p \<noteq> pre @ [c]" "\<forall>q. prefix q cs \<longrightarrow> p \<noteq> (pre @ [c]) @ q" by auto
    then show ?thesis using assms(1,4) by (auto simp: tree_made_def)
  qed
  moreover have "m \<subseteq>\<^sub>m m'" using assms(1) sub by (auto simp: tree_made_def intro: map_le_trans)
  ultimately show ?thesis using dirs blocked unfolding tree_made_def by (cases r) auto
qed

lemma below_directory_not_found:
  assumes "paths s pre = Some (DirTarget d)" "paths s (pre @ [c]) = None"
  shows "spec_resolve (paths s) (pre @ [c]) = Inl NotFound"
proof -
  have "\<not> is_file_target (paths s p)" if "prefix p (pre @ [c])" for p
  proof (cases "p = pre @ [c]")
    case False
    with that obtain q where "pre = p @ q" by (auto simp only: prefix_snoc elim: prefixE)
    with assms(1) show ?thesis
      by (auto simp: is_file_target_def paths_def tree_lookup_append split: if_splits)
  qed (simp add: assms(2) is_file_target_def)
  then show ?thesis using assms(2) by (simp add: spec_resolve_def list_ex_iff)
qed

text \<open>The loop, started with the components \<open>cs\<close> to go, ends with such a tree in a readable file.\<close>

definition tree_left ::
    "metadata_snapshot json_codec \<Rightarrow> local_metadata \<Rightarrow> string list \<Rightarrow> string list \<Rightarrow> (disk, 'c) world \<Rightarrow> (unit fs_result \<times> (disk, 'c) world) option \<Rightarrow> bool" where
  "tree_left J st pre cs w x \<longleftrightarrow> (\<exists>r w'. x = Some (r, w') \<and> local_ok J st (w_metadata w') \<and>
     wf_namespace (local_view J st (w_metadata w')) \<and>
     tree_made (paths (local_view J st (w_metadata w))) pre cs r (paths (local_view J st (w_metadata w'))) \<and>
     (healthy (w_metadata w) \<and> json_total J \<and> \<not> lm_poisoned st \<longrightarrow> r \<notin> Inl ` unavailable))"

lemma tree_left_Cons:
  assumes "tree_left J st (pre @ [c]) cs (w\<lparr>w_metadata := d1\<rparr>) x" "paths (local_view J st (w_metadata w)) pre = Some (DirTarget d)"
    and "paths (local_view J st (w_metadata w)) (pre @ [c]) = None \<or> paths (local_view J st (w_metadata w)) (pre @ [c]) = Some (DirTarget e)"
    and "paths (local_view J st d1) = (paths (local_view J st (w_metadata w)))(pre @ [c] \<mapsto> DirTarget e)"
    and "healthy (w_metadata w) \<Longrightarrow> json_total J \<Longrightarrow> \<not> lm_poisoned st \<Longrightarrow> healthy d1"
  shows "tree_left J st pre (c # cs) w x"
  using assms(1,5) tree_made_Cons [OF _ assms(2-4)] by (fastforce simp: tree_left_def)

lemma tree_left_failed:
  assumes "e \<in> unavailable" "same_file st (w_metadata w) d1" "local_ok J st (w_metadata w)" "wf_namespace (local_view J st (w_metadata w))"
    and "healthy (w_metadata w) \<Longrightarrow> json_total J \<Longrightarrow> lm_poisoned st"
  shows "tree_left J st pre (c # cs) w (Some (Inl e, w\<lparr>w_metadata := d1\<rparr>))"
  using assms same_file_ok [OF assms(2)] same_file_view [OF assms(2)] tree_made_failed(1) [OF assms(1)] by (auto simp: tree_left_def)

text \<open>A round whose \<open>stat\<close> found nothing: the directory is made, and the loop goes on below it.\<close>

lemma tree_left_mkdir:
  assumes "local_ok J st (w_metadata w)" "wf_namespace (local_view J st (w_metadata w))" "\<forall>c \<in> set (pre @ [c]). valid_component c"
    and "paths (local_view J st (w_metadata w)) pre = Some (DirTarget d)" "paths (local_view J st (w_metadata w)) (pre @ [c]) = None"
    and "new \<notin> dom (map_of (ms_directories (local_view J st (w_metadata w))))"
    and "same_file st (w_metadata w) d1" "healthy (w_metadata w) \<Longrightarrow> \<not> lm_poisoned st \<Longrightarrow> healthy d1"
    and continue: "\<And>d2. \<lbrakk>local_ok J st d2; wf_namespace (local_view J st d2); paths (local_view J st d2) (pre @ [c]) = Some (DirTarget new);
      dom (map_of (ms_directories (local_view J st d2))) = insert new (dom (map_of (ms_directories (local_view J st (w_metadata w)))))\<rbrakk> \<Longrightarrow>
      tree_left J st (pre @ [c]) cs (w\<lparr>w_metadata := d2\<rparr>) (k (w\<lparr>w_metadata := d2\<rparr>))"
  shows "tree_left J st pre (c # cs) w (case mkdir (local_metadata_ops J st) clk new (spelled (pre @ [c])) d1 of None \<Rightarrow> None
     | Some (Inl e, d2) \<Rightarrow> Some (Inl e, w\<lparr>w_metadata := d2\<rparr>) | Some (Inr _, d2) \<Rightarrow> k (w\<lparr>w_metadata := d2\<rparr>))"
proof -
  let ?v = "local_view J st (w_metadata w)"
  have ok1: "local_ok J st d1" and v1: "local_view J st d1 = ?v"
    using assms(1) same_file_ok [OF assms(7)] same_file_view [OF assms(7)] by simp_all
  have path: "render_path (pre @ [c]) = spelled (pre @ [c])" by (rule render_path_spelled) simp
  show ?thesis
  proof (rule mkdir_local [OF ok1 assms(3) assms(2,6,4,5) [folded v1], of clk, unfolded path v1])
    fix e d2
    assume f: "mkdir (local_metadata_ops J st) clk new (spelled (pre @ [c])) d1 = Some (Inl e, d2)" "e \<in> unavailable"
      "same_file st d1 d2" "healthy d1 \<Longrightarrow> json_total J \<Longrightarrow> lm_poisoned st"
    with tree_left_failed [OF f(2) same_file_trans [OF assms(7) f(3)] assms(1,2)] assms(8) show ?thesis by simp blast
  next
    fix q d2
    assume made: "mkdir (local_metadata_ops J st) clk new (spelled (pre @ [c])) d1 = Some (q, d2)" "local_ok J st d2"
      "wf_namespace (local_view J st d2)" "paths (local_view J st d2) = (paths ?v)(pre @ [c] \<mapsto> DirTarget new)"
      "dom (map_of (ms_directories (local_view J st d2))) = insert new (dom (map_of (ms_directories ?v)))"
      "q = Inr new \<or> q \<in> Inl ` unavailable"
      "healthy d1 \<Longrightarrow> json_total J \<Longrightarrow> \<not> lm_poisoned st \<Longrightarrow> q = Inr new \<and> healthy d2"
    show ?thesis
    proof (cases q)
      case (Inl e)
      then have "e \<in> unavailable" using made(6) by auto
      with Inl made(1-4,7) assms(8) tree_made_failed(2) [of e "paths ?v" pre c cs new] assms(5) show ?thesis by (auto simp: tree_left_def)
    next
      case (Inr u)
      have "tree_left J st (pre @ [c]) cs (w\<lparr>w_metadata := d2\<rparr>) (k (w\<lparr>w_metadata := d2\<rparr>))"
        using made(2-5) by (intro continue) simp_all
      then have "tree_left J st pre (c # cs) w (k (w\<lparr>w_metadata := d2\<rparr>))"
        by (rule tree_left_Cons [where e = new]) (use assms(4,5,8) made(4,7) in auto)
      then show ?thesis using made(1) Inr by simp
    qed
  qed
qed

lemma ensure_components_local:
  assumes "fs_metadata svc = local_metadata_ops J st"
  shows "\<lbrakk>local_ok J st (w_metadata w); wf_namespace (local_view J st (w_metadata w)); \<forall>c \<in> set (pre @ cs). valid_component c;
      paths (local_view J st (w_metadata w)) pre = Some (DirTarget d); distinct (map ids [i..<i + length cs]);
      \<forall>j \<in> {i..<i + length cs}. ids j \<notin> dom (map_of (ms_directories (local_view J st (w_metadata w))))\<rbrakk> \<Longrightarrow>
    tree_left J st pre cs w (ensure_components svc clk ids i (spelled pre) cs w)"
proof (induction cs arbitrary: pre i w d)
  case Nil
  then show ?case using tree_made_Nil by (fastforce simp: tree_left_def)
next
  case (Cons c cs)
  let ?v = "local_view J st (w_metadata w)"
  have valid: "\<forall>c \<in> set (pre @ [c]). valid_component c" and ne: "c \<noteq> []" using Cons.prems(3) by (auto simp: valid_component_def)
  have path: "render_path (pre @ [c]) = spelled pre @ CHR ''/'' # c" by (simp add: render_path_spelled)
  have rounds: "[i..<i + length (c # cs)] = i # [Suc i..<Suc i + length cs]" by (simp add: upt_conv_Cons del: upt_Suc)
  have later: "distinct (map ids [Suc i..<Suc i + length cs])" "ids i \<notin> ids ` {Suc i..<Suc i + length cs}"
    using Cons.prems(5) unfolding rounds by (simp_all del: upt_Suc)
  have fresh: "ids j \<notin> insert (ids i) (dom (map_of (ms_directories ?v)))" if "j \<in> {Suc i..<Suc i + length cs}" for j
    using Cons.prems(6) that imageI [OF that, of ids] later(2) by (auto simp del: image_eqI)
  have next_round: "tree_left J st (pre @ [c]) cs (w\<lparr>w_metadata := d1\<rparr>)
      (ensure_components svc clk ids (Suc i) (spelled (pre @ [c])) cs (w\<lparr>w_metadata := d1\<rparr>))"
    if "local_ok J st d1" "wf_namespace (local_view J st d1)" "paths (local_view J st d1) (pre @ [c]) = Some (DirTarget e)"
      "dom (map_of (ms_directories (local_view J st d1))) \<subseteq> insert (ids i) (dom (map_of (ms_directories ?v)))" for d1 e
  proof (rule Cons.IH [where d = e])
    show "\<forall>j \<in> {Suc i..<Suc i + length cs}. ids j \<notin> dom (map_of (ms_directories (local_view J st (w_metadata (w\<lparr>w_metadata := d1\<rparr>)))))"
      using contra_subsetD [OF that(4) fresh] by simp
  qed (use that(1-3) Cons.prems(3) later(1) in \<open>simp_all del: upt_Suc\<close>)
  obtain x d1 where x: "stat (local_metadata_ops J st) (spelled pre @ CHR ''/'' # c) (w_metadata w) = (x, d1)" "same_file st (w_metadata w) d1"
    "x = res_bind (spec_resolve (paths ?v) (pre @ [c])) (metadata_for ?v) \<or>
      x \<in> Inl ` unavailable \<and> (healthy (w_metadata w) \<longrightarrow> lm_poisoned st)"
    "healthy (w_metadata w) \<Longrightarrow> \<not> lm_poisoned st \<Longrightarrow> healthy d1"
    using stat_local [OF Cons.prems(1) valid, unfolded path] by blast
  have st: "svc_stat svc (spelled pre @ CHR ''/'' # c) w = (x, w\<lparr>w_metadata := d1\<rparr>)" using x(1) by (simp add: svc_stat_eq assms)
  have ok1: "local_ok J st d1" and v1: "local_view J st d1 = ?v"
    using Cons.prems(1) same_file_ok [OF x(2)] same_file_view [OF x(2)] by simp_all
  from x(3) consider (failed) e where "x = Inl e" "e \<in> unavailable" "healthy (w_metadata w) \<longrightarrow> lm_poisoned st"
    | (found) t where "paths ?v (pre @ [c]) = Some t" "x = metadata_for ?v t"
    | (missing) "paths ?v (pre @ [c]) = None" "x = Inl NotFound"
    using below_directory_not_found [OF Cons.prems(4)] by (cases "paths ?v (pre @ [c])") (auto simp: spec_resolve_def)
  then show ?case
  proof cases
    case failed
    then have "ensure_components svc clk ids i (spelled pre) (c # cs) w = Some (Inl e, w\<lparr>w_metadata := d1\<rparr>)" using ne by (auto simp: st)
    with tree_left_failed [OF failed(2) x(2) Cons.prems(1,2)] failed(3) show ?thesis by simp
  next
    case found
    note entry = found(2) [unfolded metadata_of_target [OF Cons.prems(2) found(1)]]
    show ?thesis
    proof (cases t)
      case (FileTarget f)
      then show ?thesis
        using ne entry ok1 v1 Cons.prems(2) tree_made_file [of "paths ?v" pre c cs] found(1) by (auto simp: st tree_left_def is_file_target_def)
    next
      case (DirTarget e)
      have "tree_left J st pre (c # cs) w (ensure_components svc clk ids (Suc i) (spelled (pre @ [c])) cs (w\<lparr>w_metadata := d1\<rparr>))"
        by (rule tree_left_Cons [OF next_round, where e = e])
          (use ok1 v1 x(4) Cons.prems(2,4) found(1) DirTarget in \<open>auto simp: fun_upd_idem\<close>)
      then show ?thesis using ne entry DirTarget by (simp add: st)
    qed
  next
    case missing
    have "ensure_components svc clk ids i (spelled pre) (c # cs) w =
        (case mkdir (local_metadata_ops J st) (clk i) (ids i) (spelled (pre @ [c])) d1 of None \<Rightarrow> None
         | Some (Inl e, d2) \<Rightarrow> Some (Inl e, w\<lparr>w_metadata := d2\<rparr>)
         | Some (Inr _, d2) \<Rightarrow> ensure_components svc clk ids (Suc i) (spelled (pre @ [c])) cs (w\<lparr>w_metadata := d2\<rparr>))"
      using ne missing(2) by (simp add: st svc_mkdir_def on_namespace_def assms split: option.split sum.split)
    also have "tree_left J st pre (c # cs) w \<dots>"
      using Cons.prems(6) by (intro tree_left_mkdir [OF Cons.prems(1,2) valid Cons.prems(4) missing(1) _ x(2,4)] next_round) auto
    finally show ?thesis .
  qed
qed

subsection \<open>Properties\<close>

text \<open>
  C37: \<open>ensure_directory_tree\<close> on the persistent store of a data directory that no other process uses meanwhile. For a path
  with valid components and fresh identifiers it returns. On success the path and all its prefixes are directories.
  \<open>NotDirectory\<close> is reported only if a file is in the way. Any other error is \<open>MetadataUnavailable\<close>, and comes only if a call
  of the disk or the serialiser failed or the lock is poisoned. Whatever calls failed but the \<open>stat\<close> behind \<open>Path::exists\<close>, the
  file on disk is a readable snapshot of a tree in which every path that was there before names what it named, and only prefixes of the
  path given were added.
\<close>

theorem ensure_directory_tree_makes:
  assumes "fs_metadata svc = local_metadata_ops J st" "local_ok J st (w_metadata w)" "wf_namespace (local_view J st (w_metadata w))"
    and "\<forall>c \<in> set cs. valid_component c" "distinct (map ids [0..<length cs])"
    and "\<forall>j < length cs. ids j \<notin> dom (map_of (ms_directories (local_view J st (w_metadata w))))"
  shows "\<exists>r w' m m'. ensure_directory_tree svc clk ids (render_path cs) w = Some (r, w') \<and>
    m = paths (local_view J st (w_metadata w)) \<and> m' = paths (local_view J st (w_metadata w')) \<and>
    local_ok J st (w_metadata w') \<and> wf_namespace (local_view J st (w_metadata w')) \<and>
    m \<subseteq>\<^sub>m m' \<and> (\<forall>p. \<not> prefix p cs \<longrightarrow> m' p = m p) \<and>
    (case r of Inr _ \<Rightarrow> \<forall>p. prefix p cs \<longrightarrow> (\<exists>d. m' p = Some (DirTarget d))
     | Inl e \<Rightarrow> e = NotDirectory \<and> (\<exists>p. prefix p cs \<and> is_file_target (m p)) \<or>
         e \<in> unavailable \<and> \<not> (healthy (w_metadata w) \<and> json_total J \<and> \<not> lm_poisoned st))"
proof (cases "cs = []")
  case True
  then show ?thesis using assms(2,3) by (simp add: ensure_directory_tree_def render_path_def)
next
  case False
  from ensure_components_local [OF assms(1-3), of "[]" cs "ms_root (local_view J st (w_metadata w))" ids 0 clk] assms(4-6) obtain r w'
    where run: "ensure_components svc clk ids 0 [] cs w = Some (r, w')"
    and w': "local_ok J st (w_metadata w')" "wf_namespace (local_view J st (w_metadata w'))"
      "tree_made (paths (local_view J st (w_metadata w))) [] cs r (paths (local_view J st (w_metadata w')))"
      "healthy (w_metadata w) \<and> json_total J \<and> \<not> lm_poisoned st \<longrightarrow> r \<notin> Inl ` unavailable" by (auto simp: tree_left_def)
  have "split_on CHR ''/'' (join_with CHR ''/'' cs) = cs"
    using False assms(4) by (intro split_join_with) (auto simp: valid_component_def)
  moreover have "join_with CHR ''/'' cs \<noteq> []" using False assms(4) by (induction cs rule: induct_list012) (auto simp: valid_component_def)
  ultimately have "ensure_directory_tree svc clk ids (render_path cs) w = Some (r, w')"
    using run by (simp add: ensure_directory_tree_def render_path_def)
  moreover have "case r of Inr _ \<Rightarrow> \<forall>p. prefix p cs \<longrightarrow> (\<exists>d. paths (local_view J st (w_metadata w')) p = Some (DirTarget d))
     | Inl e \<Rightarrow> e = NotDirectory \<and> (\<exists>p. prefix p cs \<and> is_file_target (paths (local_view J st (w_metadata w)) p)) \<or>
         e \<in> unavailable \<and> \<not> (healthy (w_metadata w) \<and> json_total J \<and> \<not> lm_poisoned st)"
    using w'(3,4) by (cases r) (auto simp: tree_made_def)
  moreover have "paths (local_view J st (w_metadata w)) \<subseteq>\<^sub>m paths (local_view J st (w_metadata w'))"
    "\<forall>p. \<not> prefix p cs \<longrightarrow> paths (local_view J st (w_metadata w')) p = paths (local_view J st (w_metadata w)) p"
    using w'(3) by (auto simp: tree_made_def)
  ultimately show ?thesis using w'(1,2) by blast
qed

text \<open>A codec for the snapshots a run from the empty filesystem goes through, and an empty data directory.\<close>

definition tree_id :: "nat \<Rightarrow> directory_id" where
  "tree_id j = DirectoryId (of_nat (Suc j))"

definition grown :: "directory_id \<Rightarrow> string list \<Rightarrow> string \<Rightarrow> metadata_snapshot \<Rightarrow> metadata_snapshot" where
  "grown new parents name s = (case mkdir_edit new parents name 9 9 s of Inl _ \<Rightarrow> s | Inr (_, y) \<Rightarrow> y\<lparr>ms_revision := ms_revision y + 1\<rparr>)"

definition tree_home :: metadata_snapshot where
  "tree_home = grown (tree_id 0) [] ''home'' metadata_snapshot_default"

definition tree_user :: metadata_snapshot where
  "tree_user = grown (tree_id 1) [''home''] ''user'' tree_home"

definition tree_codec :: "metadata_snapshot json_codec" where
  "tree_codec = \<lparr>to_json = (\<lambda>x. if x = tree_home then Inr [1] else if x = tree_user then Inr [2] else Inl ''unsupported''),
     from_json = (\<lambda>bs. if bs = [1] then Inr tree_home else if bs = [2] then Inr tree_user else Inl ''EOF'')\<rparr>"

definition tree_world :: "(disk, unit) world" where
  "tree_world = \<lparr>w_metadata = \<lparr>dk_files = [], dk_faults = [], dk_stat_faults = []\<rparr>, w_contents = (), w_registry = registry_new, w_events = RecordingEventSink False []\<rparr>"

lemma wf_empty_namespace: "wf_namespace metadata_snapshot_default" "ids j \<notin> dom (map_of (ms_directories metadata_snapshot_default)) \<longleftrightarrow> ids j \<noteq> directory_id_root"
  by (rule wf_default) (simp add: metadata_snapshot_default_def)

lemma tree_world_ok: "local_ok tree_codec demo_local (w_metadata tree_world)" "local_view J demo_local (w_metadata tree_world) = metadata_snapshot_default"
proof -
  have "paths_apart demo_local" by code_simp
  then show "local_ok tree_codec demo_local (w_metadata tree_world)"
    by (auto simp: local_ok_def json_ok_def tree_codec_def readable_def stat_reliable_def tree_world_def split: if_splits)
qed (simp add: local_view_def tree_world_def)

theorem ensure_directory_tree_makes_witness:
  "\<exists>w' m'. ensure_directory_tree (filesystem_service_new (local_metadata_ops tree_codec demo_local)) (\<lambda>_ _ _. 9) tree_id
      (render_path [''home'', ''user'']) tree_world = Some (Inr (), w') \<and>
    m' = paths (local_view tree_codec demo_local (w_metadata w')) \<and> local_ok tree_codec demo_local (w_metadata w') \<and>
    (\<exists>d. m' [''home''] = Some (DirTarget d)) \<and> (\<exists>d. m' [''home'', ''user''] = Some (DirTarget d))"
proof -
  let ?svc = "filesystem_service_new (local_metadata_ops tree_codec demo_local)"
  have svc: "fs_metadata ?svc = local_metadata_ops tree_codec demo_local" by (simp add: filesystem_service_new_def with_components_def)
  have valid: "\<forall>c \<in> set [''home'', ''user'']. valid_component c" by code_simp
  have ids: "distinct (map tree_id [0..<length [''home'', ''user'']])" by code_simp
  have fresh: "\<forall>j < length [''home'', ''user'']. tree_id j \<notin> dom (map_of (ms_directories (local_view tree_codec demo_local (w_metadata tree_world))))"
    unfolding tree_world_ok(2) wf_empty_namespace(2) by (auto simp: tree_id_def directory_id_root_def less_Suc_eq numeral_2_eq_2)
  have "returns (ensure_directory_tree ?svc (\<lambda>_ _ _. 9) tree_id (render_path [''home'', ''user'']) tree_world) (Inr ())" by code_simp
  then obtain w' where run: "ensure_directory_tree ?svc (\<lambda>_ _ _. 9) tree_id (render_path [''home'', ''user'']) tree_world = Some (Inr (), w')"
    by (rule returnsE)
  have pre: "prefix [''home''] [''home'', ''user'']" "prefix [''home'', ''user''] [''home'', ''user'']" by simp_all
  have wf: "wf_namespace (local_view tree_codec demo_local (w_metadata tree_world))" unfolding tree_world_ok(2) by (rule wf_empty_namespace)
  from ensure_directory_tree_makes [OF svc tree_world_ok(1) wf valid ids fresh, of "\<lambda>_ _ _. 9"] run pre show ?thesis by auto
qed

end
