(* ===== verification/Local_Service.thy ===== *)
theory Local_Service
  imports Local_Filesystem
begin

section \<open>The service on the disk of one device\<close>

text \<open>
  What is written through the service that \<open>LocalFilesystem::open\<close> makes is on the disk, and is what a read
  gives as long as the disk works, in this process or a later one.
\<close>

subsection \<open>What opening gives\<close>

definition local_metadata_at :: "path_buf \<Rightarrow> local_metadata" where
  "local_metadata_at dir = \<lparr>lm_path = path_join dir ''metadata.json'',
     lm_lock_path = with_extension (path_join dir ''metadata.json'') ''lock'', lm_poisoned = False\<rparr>"

definition local_content_at :: "path_buf \<Rightarrow> local_content" where
  "local_content_at dir = \<lparr>lc_root = path_join (path_join dir ''content'') ''blobs'', lc_capacity = local_capacity,
     lc_poisoned = False\<rparr>"

lemma local_metadata_open_at:
  "local_metadata_open J (path_join dir ''metadata.json'') d = (Inr st, d') \<Longrightarrow> st = local_metadata_at dir"
  unfolding local_metadata_open_def op_bind_eq_Inr Let_def case_prod_beta op_lift_simps local_metadata_at_def
    prod.inject sum.inject by (elim exE conjE) (rule sym)

lemma local_filesystem_open_eq:
  assumes "local_filesystem_open E draw sha256 K J dir hostname d = (Inr lf, d')"
  shows "lf = \<lparr>lf_service = filesystem_service_new (local_metadata_ops J (local_metadata_at dir)),
     lf_registry = \<lparr>reg_nodes = [(lf_device_id lf, \<lparr>rn_state = local_node (lf_device_id lf),
       rn_store = local_content_store sha256 (local_content_at dir)\<rparr>)], reg_poisoned = False\<rparr>,
     lf_device_id = lf_device_id lf\<rparr>"
  using assms
  by (auto simp: local_filesystem_open_def op_bind_eq_Inr local_content_open_def registry_register_def registry_new_def
      local_content_at_def local_node_def dest!: local_metadata_open_at)

lemma local_filesystem_open_parts:
  assumes "local_filesystem_open E draw sha256 K J dir hostname d = (Inr lf, d')"
  shows "fs_metadata (lf_service lf) = local_metadata_ops J (local_metadata_at dir)"
    and "registry_node (lf_registry lf) n = (if n = lf_device_id lf then Inr (local_node n) else Inl NodeNotFound)"
    and "registry_store (lf_registry lf) n = (if n = lf_device_id lf
       then Inr (local_content_store sha256 (local_content_at dir)) else Inl NodeNotFound)"
  by (subst local_filesystem_open_eq [OF assms],
      simp add: registry_node_def registry_store_def filesystem_service_new_def with_components_def)+

text \<open>
  The world the service starts in. The two stores share a disk and no file of it, and the world has a copy of the disk
  for each.
\<close>

definition local_world :: "local_filesystem \<Rightarrow> disk \<Rightarrow> (disk, disk) world" where
  "local_world lf d = \<lparr>w_metadata = d, w_contents = d, w_registry = lf_registry lf, w_events = NoopEventSink\<rparr>"

subsection \<open>What opening writes\<close>

text \<open>The files of the device identity and of the cluster state, which opening may create.\<close>

definition device_files :: "path_buf \<Rightarrow> path_buf set" where
  "device_files dir = (let i = identity_path dir; c = cst_state_path (cluster_store_at dir) in
     {i, with_extension i ''tmp'', c, with_extension c ''tmp'', cst_lock_path (cluster_store_at dir)})"

lemma device_files_mem:
  "identity_path dir \<in> device_files dir" "with_extension (identity_path dir) ''tmp'' \<in> device_files dir"
  "cst_state_path (cluster_store_at dir) \<in> device_files dir" "cst_lock_path (cluster_store_at dir) \<in> device_files dir"
  "with_extension (cst_state_path (cluster_store_at dir)) ''tmp'' \<in> device_files dir"
  by (simp_all add: device_files_def Let_def)

lemma device_files_apart: "path_join dir ''metadata.json'' \<notin> device_files dir" "path_join (path_join (path_join dir a) b) c \<notin> device_files dir"
  by (simp_all add: device_files_def Let_def path_join_def identity_path_def cluster_store_at_def with_extension_def file_stem_def)

lemmas identity_calls = identity_load_def store_identity_def Let_def sync_parent_directory_def tr_err_def

lemma touches_load_or_create [touching]:
  assumes "identity_path dir \<in> T" "with_extension (identity_path dir) ''tmp'' \<in> T"
  shows "touches T (load_or_create E draw dir)"
proof -
  let ?p = "identity_path dir"
  let ?create = "op_bind (op_lift (generate_identity draw)) (\<lambda>(private, public).
        op_bind (store_identity E ?p \<lparr>sid_version = identity_version, sid_suite = noise_pattern,
             sid_private_key = ie_b64_encode E private, sid_public_key = ie_b64_encode E public\<rparr>) (\<lambda>_.
        op_bind (sync_parent_directory ?p) (\<lambda>_. op_lift (from_parts E private public))))"
  have "load_or_create E draw dir = (\<lambda>d. let (there, d1) = path_exists ?p d in (if there then identity_load E ?p else ?create) d1)"
    by (rule ext) (simp add: load_or_create_def Let_def split: prod.split)
  moreover have "touches T (identity_load E ?p)" "touches T ?create"
    unfolding identity_calls by (intro touching assms)+
  ultimately show ?thesis by (simp only:) (rule touches_exists, simp)
qed

lemma op_bind_gives: "op_bind m k d = (Inr x, d') \<Longrightarrow> (\<And>y e. k y e = (Inr x, d') \<Longrightarrow> P) \<Longrightarrow> P"
  unfolding op_bind_eq_Inr by blast

lemma cluster_store_open_at: "cluster_store_open E draw sha256 K dir name hostname d = (Inr st, d') \<Longrightarrow> st = cluster_store_at dir"
  unfolding cluster_store_open_def Let_def case_prod_beta
  by (elim op_bind_gives) (split if_splits, auto elim!: op_bind_gives split: if_splits)

lemma touches_store_open [touching]: "touches (device_files dir) (cluster_store_open E draw sha256 K dir name hostname)"
  unfolding cluster_store_open_def private_directory_def cluster_lock_file_def read_state_def write_state_def replace_file_def tr_err_def
    Let_def [of "cluster_store_at dir"] Let_def [of "with_extension (cst_state_path (cluster_store_at dir)) ''tmp''"]
  by (intro touching device_files_mem)

lemma touches_cluster_device [touching]: "touches (device_files dir) (cluster_device E draw sha256 K dir hostname)"
proof -
  let ?st = "cluster_store_at dir" and ?open = "cluster_store_open E draw sha256 K dir None hostname"
  have "touches (device_files dir) (cluster_load K ?st)"
    unfolding cluster_load_def process_guard_def cluster_lock_file_def read_state_def tr_err_def
    by (intro touching device_files_mem)
  then have "touches (device_files dir) (op_bind ?open (\<lambda>_. cluster_load K ?st))" by (intro touching)
  moreover have "op_bind ?open (\<lambda>store. cluster_load K store) = op_bind ?open (\<lambda>_. cluster_load K ?st)"
    by (rule ext) (auto simp: op_bind_def split: prod.split sum.split dest: cluster_store_open_at)
  ultimately show ?thesis
    unfolding touches_def cluster_device_def by (auto split: prod.splits sum.splits)
qed

lemma touches_read_snapshot [touching]: "touches T (read_snapshot J p)"
proof -
  have "read_snapshot J p = (\<lambda>d. let (there, d1) = path_exists p d in (if there then
      op_bind (meta_err (fs_read p)) (\<lambda>bs. op_lift (map_err MetadataUnavailable (from_json J bs))) else op_lift (Inr metadata_snapshot_default)) d1)"
    by (rule ext) (simp add: read_snapshot_def op_lift_def split: prod.split)
  then show ?thesis by (simp only:) (unfold meta_err_def, intro touching)
qed

lemma touches_open: "touches (device_files dir) (local_filesystem_open E draw sha256 K J dir hostname)"
  unfolding local_filesystem_open_def local_metadata_open_def local_content_open_def create_parent_def storage_err_def meta_err_def
    Let_def [of "registry_register _ _ _"]
  by (intro touching)

text \<open>Opening the filesystem leaves the snapshot and the blobs as they are.\<close>

lemma local_open_keeps:
  assumes "local_filesystem_open E draw sha256 K J dir hostname d = (r, d')"
  shows "local_ok J (local_metadata_at dir) d \<Longrightarrow> local_ok J (local_metadata_at dir) d'"
    and "file_at d' (lm_path (local_metadata_at dir)) = file_at d (lm_path (local_metadata_at dir))"
    and "local_blob (local_content_at dir) d' cid = local_blob (local_content_at dir) d cid"
    and "healthy d \<Longrightarrow> healthy d'"
  using touchesD [OF touches_open assms] device_files_apart [of dir]
  by (auto simp: local_ok_def readable_def local_blob_def local_metadata_at_def local_content_at_def path_for_def)

text \<open>
  A directory whose identity and cluster state are those of one device: opening makes it so, and a later process that
  finds them opens the filesystem of the same device, whatever key pair it would have drawn.
\<close>

definition device_bound :: "identity_env \<Rightarrow> hash_function \<Rightarrow> agent_state json_codec \<Rightarrow> path_buf \<Rightarrow> device_id \<Rightarrow> disk \<Rightarrow> bool" where
  "device_bound E sha256 K dir device d \<longleftrightarrow> (\<exists>i. holds_identity E dir i d \<and> identity_device_id sha256 i = device) \<and>
     cluster_ok K (cluster_store_at dir) d \<and> ags_device_id (cluster_view K (cluster_store_at dir) d) = device"

lemma device_bound_cong:
  assumes "device_bound E sha256 K dir device d" "file_at d2 (identity_path dir) = file_at d (identity_path dir)"
    and "file_at d2 (cst_state_path (cluster_store_at dir)) = file_at d (cst_state_path (cluster_store_at dir))"
  shows "device_bound E sha256 K dir device d2"
  using assms by (simp add: device_bound_def holds_identity_def cluster_ok_def cluster_view_def)

lemma state_apart: "cst_state_path (cluster_store_at dir) \<notin> {identity_path dir, with_extension (identity_path dir) ''tmp'', cst_lock_path (cluster_store_at dir)}"
  by (simp add: path_join_def identity_path_def cluster_store_at_def with_extension_def file_stem_def)

lemma device_files_distinct:
  "identity_path dir \<noteq> cst_state_path (cluster_store_at dir)" "identity_path dir \<noteq> cst_lock_path (cluster_store_at dir)"
  "identity_path dir \<noteq> with_extension (cst_state_path (cluster_store_at dir)) ''tmp''"
  by (simp_all add: path_join_def identity_path_def cluster_store_at_def with_extension_def file_stem_def)

lemma touches_state_calls:
  "touches {cst_lock_path st} (cluster_lock_file st)" "touches {} (tr_err flock)" "touches {} (private_directory dir)"
  "touches {cst_state_path st, with_extension (cst_state_path st) ''tmp''} (write_state K st s)" "touches {} (read_state K st)"
  "touches {cst_lock_path st} (cluster_load K st)"
  unfolding cluster_lock_file_def private_directory_def write_state_def read_state_def cluster_load_def process_guard_def replace_file_def
    tr_err_def Let_def by (intro touching; simp)+

lemma cluster_store_open_bound:
  assumes "json_ok K" "identity_env_ok E" "stat_reliable d" "cluster_store_open E draw sha256 K dir name hostname d = (Inr st, d')"
  shows "\<exists>device. device_bound E sha256 K dir device d'"
proof -
  let ?st = "cluster_store_at dir"
  let ?p = "cst_state_path ?st"
  from assms(4) obtain i u1 d1 d2 u3 d3 u4 d4 where dirs: "private_directory dir d = (Inr u1, d1)"
    and i: "load_or_create E draw dir d1 = (Inr i, d2)" and lock: "cluster_lock_file ?st d2 = (Inr u3, d3)" "tr_err flock d3 = (Inr u4, d4)"
    and rest: "(let (there, d5) = path_exists ?p d4 in
       (if \<not> there
        then op_bind (op_lift (normalize_device_name (initial_name name hostname))) (\<lambda>name.
             op_bind (write_state K ?st (initial_state (identity_device_id sha256 i) name)) (\<lambda>_. op_lift (Inr ?st)))
        else op_bind (read_state K ?st) (\<lambda>state.
             if ags_device_id state \<noteq> identity_device_id sha256 i
             then op_lift (Inl (InvalidIdentity ''cluster state is bound to a different private key''))
             else op_lift (Inr ?st))) d5) = (Inr st, d')"
    unfolding cluster_store_open_def Let_def by (auto simp only: op_bind_eq_Inr)
  have "stat_reliable d1" using assms(3) touchesD(2) [OF touches_state_calls(3) dirs] by simp
  from load_holds [OF assms(2) i this] have held: "holds_identity E dir i d4"
    using device_files_distinct [of dir] touchesD(1) [OF touches_state_calls(1) lock(1)] touchesD(1) [OF touches_state_calls(2) lock(2)]
    by (simp add: holds_identity_def)
  obtain there d5 where pe: "path_exists ?p d4 = (there, d5)" by fastforce
  have files: "dk_files d5 = dk_files d4" using quiet_calls(6) [OF pe] .
  have "cluster_ok K ?st d' \<and> ags_device_id (cluster_view K ?st d') = identity_device_id sha256 i \<and>
      file_at d' (identity_path dir) = file_at d5 (identity_path dir)"
  proof (cases there)
    case False
    with rest pe obtain n where wr: "write_state K ?st (initial_state (identity_device_id sha256 i) n) d5 = (Inr (), d')"
      by (auto simp: op_bind_eq_Inr)
    from write_state_law [OF assms(1) store_at_apart wr] touchesD(1) [OF touches_state_calls(4) wr] device_files_distinct [of dir]
    show ?thesis by (simp add: initial_state_def)
  next
    case True
    from rest obtain s d6 where "read_state K ?st d5 = (Inr s, d6)"
      "(if ags_device_id s \<noteq> identity_device_id sha256 i
        then op_lift (Inl (InvalidIdentity ''cluster state is bound to a different private key''))
        else op_lift (Inr ?st)) d6 = (Inr st, d')"
      unfolding pe Let_def prod.case eqTrueI [OF True] not_True_eq_False if_False op_bind_eq_Inr by blast
    then have s: "read_state K ?st d5 = (Inr s, d')" "ags_device_id s = identity_device_id sha256 i" by (simp_all split: if_splits)
    from s(1) obtain bs where bs: "fs_read ?p d5 = (Inr bs, d')" "from_json K bs = Inr s"
      by (auto simp: read_state_def op_bind_eq_Inr)
    from fs_read_ok [OF bs(1)] quiet_calls(2) [OF bs(1)] bs(2) s(2) assms(1) show ?thesis by (auto simp: cluster_ok_def cluster_view_def)
  qed
  with held files show ?thesis by (auto simp: device_bound_def holds_identity_def)
qed

lemma cluster_store_open_again:
  assumes "device_bound E sha256 K dir device d" "healthy d"
  shows "\<exists>d'. cluster_store_open E draw sha256 K dir name hostname d = (Inr (cluster_store_at dir), d') \<and> healthy d' \<and>
    device_bound E sha256 K dir device d'"
proof -
  let ?st = "cluster_store_at dir"
  from assms(1) obtain i where i: "holds_identity E dir i d" "identity_device_id sha256 i = device" by (auto simp: device_bound_def)
  have stat: "stat_reliable d" using assms(2) by (simp add: healthy_def stat_reliable_def)
  have "private_directory dir d = (Inr (), d)" using assms(2) by (simp add: private_directory_def healthy_calls)
  moreover have "load_or_create E draw dir d = (Inr i, d)" by (rule holds_identity_healthy [OF i(1) assms(2)])
  moreover obtain d1 where d1: "cluster_lock_file ?st d = (Inr (), d1)" "healthy d1"
    using cluster_lock_healthy [OF assms(2)] by (auto simp: cluster_lock_file_def)
  moreover have "tr_err flock d1 = (Inr (), d1)" using d1(2) by (simp add: healthy_calls)
  moreover have bound: "device_bound E sha256 K dir device d1"
    using device_bound_cong [OF assms(1)] touchesD(1) [OF touches_state_calls(1) d1(1)] device_files_distinct [of dir] state_apart [of dir] by simp
  moreover have "path_exists (cst_state_path ?st) d1 = (True, d1)"
    using bound d1(2) by (auto simp: device_bound_def cluster_ok_def path_exists_healthy)
  moreover have "read_state K ?st d1 = (Inr (cluster_view K ?st d1), d1)"
    using bound d1(2) by (auto simp: device_bound_def intro: read_state_healthy)
  moreover have "ags_device_id (cluster_view K ?st d1) = device" using bound by (simp add: device_bound_def)
  ultimately show ?thesis using i(2) by (auto simp: cluster_store_open_def Let_def)
qed

lemma local_open_bound:
  assumes "json_ok K" "identity_env_ok E" "stat_reliable d" "local_filesystem_open E draw sha256 K J dir hostname d = (Inr lf, d')"
  shows "device_bound E sha256 K dir (lf_device_id lf) d'"
proof -
  let ?st = "cluster_store_at dir"
  from assms(4) obtain u d1 metadata d2 d3 content where 1: "storage_err (fs_create_dir_all dir) d = (Inr u, d1)"
    and 2: "local_metadata_open J (path_join dir ''metadata.json'') d1 = (Inr metadata, d2)"
    and 3: "cluster_device E draw sha256 K dir hostname d2 = (Inr (lf_device_id lf), d3)"
    and 4: "local_content_open (path_join (path_join dir ''content'') ''blobs'') local_capacity d3 = (Inr content, d')"
    by (auto simp: local_filesystem_open_def op_bind_eq_Inr registry_register_def registry_new_def)
  have "touches {} (storage_err (fs_create_dir_all dir))" "touches {} (local_metadata_open J (path_join dir ''metadata.json''))"
    "touches {} (local_content_open (path_join (path_join dir ''content'') ''blobs'') local_capacity)"
    unfolding local_metadata_open_def local_content_open_def create_parent_def storage_err_def meta_err_def by (intro touching)+
  note frame = touchesD [OF this(1) 1] touchesD [OF this(2) 2] touchesD [OF this(3) 4]
  from 3 obtain state d4 where load: "op_bind (cluster_store_open E draw sha256 K dir None hostname) (cluster_load K) d2 = (Inr state, d3)"
    "ags_device_id state = lf_device_id lf"
    by (auto simp: cluster_device_def split: prod.splits sum.splits)
  then obtain st d4 where open': "cluster_store_open E draw sha256 K dir None hostname d2 = (Inr st, d4)" "cluster_load K st d4 = (Inr state, d3)"
    by (auto simp: op_bind_eq_Inr)
  have st: "st = ?st" by (rule cluster_store_open_at [OF open'(1)])
  have "stat_reliable d2" using assms(3) frame by simp
  from cluster_store_open_bound [OF assms(1,2) this open'(1)] obtain device where bound: "device_bound E sha256 K dir device d4" by blast
  have "state = cluster_view K ?st d4"
    using cluster_load_law [of K ?st d4 "Inr state" d3] bound open'(2) st by (simp add: device_bound_def)
  with bound load(2) have "device = lf_device_id lf" by (simp add: device_bound_def)
  moreover have "device_bound E sha256 K dir device d3"
    using device_bound_cong [OF bound] touchesD(1) [OF touches_state_calls(6) open'(2) [unfolded st]] device_files_distinct [of dir] state_apart [of dir] by simp
  ultimately show ?thesis using device_bound_cong frame by simp
qed

lemma local_open_again:
  assumes "local_filesystem_open E draw sha256 K J dir hostname d = (Inr lf, d1)"
    and "device_bound E sha256 K dir (lf_device_id lf) d2" "healthy d2" "readable J (local_metadata_at dir) d2"
  shows "\<exists>d3. local_filesystem_open E draw' sha256 K J dir hostname' d2 = (Inr lf, d3)"
proof -
  let ?st = "cluster_store_at dir" and ?p = "path_join dir ''metadata.json''"
  obtain d4 where d4: "cluster_store_open E draw' sha256 K dir None hostname' d2 = (Inr ?st, d4)" "healthy d4"
    "device_bound E sha256 K dir (lf_device_id lf) d4" using cluster_store_open_again [OF assms(2,3)] by blast
  obtain d5 where d5: "cluster_load K ?st d4 = (Inr (cluster_view K ?st d4), d5)" "healthy d5"
    using cluster_load_healthy [OF d4(2), of K ?st] d4(3) by (auto simp: device_bound_def cluster_store_at_def)
  have device: "cluster_device E draw' sha256 K dir hostname' d2 = (Inr (lf_device_id lf), d5)"
    using d4 d5 by (simp add: cluster_device_def device_bound_def)
  have "storage_err (fs_create_dir_all dir) d2 = (Inr (), d2)" "create_parent ?p d2 = (Inr (), d2)"
    using assms(3) by (simp_all add: storage_err_def create_parent_def meta_err_def healthy_calls)
  moreover have "\<exists>x. (if file_at d2 ?p \<noteq> None then read_snapshot J ?p else op_lift (Inr metadata_snapshot_default)) d2 = (Inr x, d2)"
    using assms(3,4) by (auto simp: read_snapshot_def path_exists_healthy meta_err_def healthy_calls readable_def local_metadata_at_def)
  moreover have "local_content_open (path_join (path_join dir ''content'') ''blobs'') local_capacity d5 = (Inr (local_content_at dir), d5)"
    using d5(2) by (simp add: local_content_open_def storage_err_def healthy_calls local_content_at_def)
  ultimately obtain lf' where run: "local_filesystem_open E draw' sha256 K J dir hostname' d2 = (Inr lf', d5)" "lf_device_id lf' = lf_device_id lf"
    using device assms(3)
    by (auto simp: local_filesystem_open_def local_metadata_open_def path_exists_healthy registry_register_def registry_new_def Let_def)
  have "lf' = lf"
    by (subst local_filesystem_open_eq [OF run(1)], subst local_filesystem_open_eq [OF assms(1)]) (simp add: run(2))
  with run(1) show ?thesis by blast
qed

subsection \<open>Metadata\<close>

lemma local_resolve_Inr:
  assumes "local_ok J st d" "resolve (local_metadata_ops J st) path d = (Inr t, d')"
  shows "same_file st d d' \<and> (\<exists>cs. fs_path_parse path = Inr cs \<and> spec_resolve (paths (local_view J st d)) cs = Inr t)"
proof -
  from assms(2) obtain cs x where "fs_path_parse path = Inr cs" "local_metadata_load J st d = (Inr x, d')"
    "spec_resolve (paths x) cs = Inr t"
    by (auto simp: resolve_def op_bind_eq_Inr resolve_components_eq local_metadata_ops_def)
  with local_load_cases [OF assms(1), of "Inr x" d'] show ?thesis by auto
qed

lemma local_resolve_healthy:
  assumes "local_ok J st d" "healthy d" "\<not> lm_poisoned st" "fs_path_parse path = Inr cs"
  shows "\<exists>d'. resolve (local_metadata_ops J st) path d = (spec_resolve (paths (local_view J st d)) cs, d') \<and> same_file st d d' \<and> healthy d'"
  using local_load_healthy [OF assms(1-3)] assms(4) by (auto simp: resolve_def resolve_components_eq local_metadata_ops_def)

lemma local_stat_healthy:
  assumes "local_ok J st d" "healthy d" "\<not> lm_poisoned st" "fs_path_parse path = Inr cs"
    and "paths (local_view J st d) cs = Some (FileTarget f)" "map_of (ms_files (local_view J st d)) f = Some m"
  shows "\<exists>d'. stat (local_metadata_ops J st) path d = (Inr (FileEntry m), d')"
  using local_load_healthy [OF assms(1-3)] assms(4-6)
  by (auto simp: stat_def resolve_components_eq local_metadata_ops_def spec_resolve_def metadata_for_def)

subsection \<open>Content\<close>

lemma local_get_healthy:
  "healthy e \<Longrightarrow> local_blob st e cid = Some b \<Longrightarrow> local_get st cid e = (Inr b, e)"
  by (auto simp: local_get_def local_blob_def healthy_calls split: if_splits)

lemma read_replicas_local:
  assumes "local_filesystem_open E draw sha256 K J dir hostname d = (Inr lf, d')"
  shows "\<lbrakk>w_registry w = lf_registry lf; healthy (w_contents w); local_blob (local_content_at dir) (w_contents w) cid = Some b;
      matches sha256 cid b; lf_device_id lf \<in> rp_node_id ` set rs\<rbrakk> \<Longrightarrow>
    \<exists>w'. read_replicas svc sha256 cid rs w = (Some b, w')"
proof (induction rs arbitrary: w)
  case (Cons r rs)
  note parts = local_filesystem_open_parts(2,3) [OF assms]
  show ?case
  proof (cases "rp_node_id r = lf_device_id lf")
    case True
    then have "on_contents (\<lambda>reg. get_from reg (rp_node_id r) cid) w = (Inr b, w\<lparr>w_contents := w_contents w\<rparr>)"
      using Cons.prems(1-3) local_get_healthy
      by (simp add: on_contents_eq get_from_def parts local_node_def local_content_store_def)
    with True Cons.prems(1,4) show ?thesis by (simp add: parts local_node_def Let_def)
  next
    case False
    with Cons.IH [of "mark_replica svc cid (rp_node_id r) Missing w"] Cons.prems show ?thesis by (auto simp: parts Let_def)
  qed
qed simp

subsection \<open>Reading what was written\<close>

lemma svc_write_steps:
  assumes "svc_write svc now path data expected source w = (Inr m, w')"
  obtains f s1 cid c x s2 out y s3
  where "resolve (fs_metadata svc) path (w_metadata w) = (Inr (FileTarget f), s1)"
    "put_on (w_registry w) source data (w_contents w) = (Inr cid, c)"
    "md_load (fs_metadata svc) s1 = (Inr x, s2)"
    "write_edit (fs_desired_replica_count svc) source cid f data expected now x = Inr (out, y)"
    "md_cas (fs_metadata svc) y s2 = (Inr (), s3)" "m = wo_committed out"
    "w' = fold w_emit (write_events f cid source out) (w\<lparr>w_metadata := s3, w_contents := c\<rparr>)"
  using assms by (auto simp: svc_write_def op_bind_eq_Inr on_metadata_iff on_contents_iff)

text \<open>A write that returned: what the snapshot on disk says, and the blob on disk.\<close>

lemma local_write_effect:
  assumes opened: "local_filesystem_open E draw sha256 K J dir hostname d = (Inr lf, d')"
    and w: "w_registry w = lf_registry lf" "local_ok J (local_metadata_at dir) (w_metadata w)"
    and wr: "svc_write (lf_service lf) now path data expected (lf_device_id lf) w = (Inr m, w1)"
  obtains f cs p b where "fs_path_parse path = Inr cs" "local_ok J (local_metadata_at dir) (w_metadata w1)"
    and "paths (local_view J (local_metadata_at dir) (w_metadata w1)) cs = Some (FileTarget f)"
    and "map_of (ms_files (local_view J (local_metadata_at dir) (w_metadata w1))) f = Some m"
    and "fm_manifest m = Some (manifest_single (for_bytes sha256 data) (fm_size m))"
    and "map_of (ms_placements (local_view J (local_metadata_at dir) (w_metadata w1))) (for_bytes sha256 data) = Some p"
    and "lf_device_id lf \<in> rp_node_id ` set (cp_replicas p)"
    and "local_blob (local_content_at dir) (w_contents w1) (for_bytes sha256 data) = Some b" "matches sha256 (for_bytes sha256 data) b"
  using wr
proof (rule svc_write_steps)
  let ?st = "local_metadata_at dir" and ?lc = "local_content_at dir"
  note parts = local_filesystem_open_parts [OF opened]
  fix f s1 cid c x s2 out y s3
  assume res: "resolve (fs_metadata (lf_service lf)) path (w_metadata w) = (Inr (FileTarget f), s1)"
    and put: "put_on (w_registry w) (lf_device_id lf) data (w_contents w) = (Inr cid, c)"
    and ld: "md_load (fs_metadata (lf_service lf)) s1 = (Inr x, s2)"
    and ed: "write_edit (fs_desired_replica_count (lf_service lf)) (lf_device_id lf) cid f data expected now x = Inr (out, y)"
    and sw: "md_cas (fs_metadata (lf_service lf)) y s2 = (Inr (), s3)" and m: "m = wo_committed out"
    and w1: "w1 = fold w_emit (write_events f cid (lf_device_id lf) out) (w\<lparr>w_metadata := s3, w_contents := c\<rparr>)"
  from local_resolve_Inr [OF w(2) res [unfolded parts(1)]] obtain cs where s1: "same_file ?st (w_metadata w) s1"
    and cs: "fs_path_parse path = Inr cs" "paths (local_view J ?st (w_metadata w)) cs = Some (FileTarget f)"
    by (auto simp: spec_resolve_def split: option.splits if_splits)
  have ok1: "local_ok J ?st s1" using w(2) by (simp add: same_file_ok [OF s1])
  from local_load_cases [OF ok1, of "Inr x" s2] ld parts(1) have x: "x = local_view J ?st s1" "same_file ?st s1 s2"
    by (auto simp: local_metadata_ops_def)
  have ok2: "local_ok J ?st s2" using ok1 by (simp add: same_file_ok [OF x(2)])
  from sw parts(1) have "local_metadata_cas J ?st y s2 = (Inr (), s3)" by (simp add: local_metadata_ops_def)
  with ok2 have s3: "local_ok J ?st s3" "local_view J ?st s3 = y\<lparr>ms_revision := ms_revision y + 1\<rparr>"
    by (cases rule: local_cas_cases; auto)+
  from put have blob: "cid = for_bytes sha256 data" "\<exists>b. local_blob ?lc c cid = Some b \<and> matches sha256 cid b"
    using local_put_ok [of sha256 ?lc data "w_contents w" cid c]
    by (auto simp: put_on_def w(1) parts local_node_def local_content_store_def local_blob_def)
  from ed obtain p where p: "map_of (ms_placements y) cid = Some p" "\<exists>r \<in> set (cp_replicas p). rp_node_id r = lf_device_id lf"
    by (rule write_edit_Inr) (use record_healthy_source in auto)
  then have held: "lf_device_id lf \<in> rp_node_id ` set (cp_replicas p)" by force
  have eff: "fm_manifest m = Some (manifest_single cid (fm_size m))" "map_of (ms_files y) f = Some m" "paths y = paths x"
    using write_edit_effect [OF ed] m by auto
  have view: "paths x = paths (local_view J ?st (w_metadata w))" using x(1) same_file_view [OF s1, of J] by simp
  from blob obtain b where "local_blob ?lc c cid = Some b" "matches sha256 cid b" by blast
  with that [of cs f p b] cs s3 eff p(1) held view blob(1) show thesis by (simp add: w1)
qed

text \<open>
  Reading a file of one chunk on a working disk, when the chunk is placed on this device and its blob is there.
\<close>

lemma local_read_stored:
  assumes opened: "local_filesystem_open E draw sha256 K J dir hostname d = (Inr lf, d')"
    and ok: "local_ok J (local_metadata_at dir) (w_metadata w)" "healthy (w_metadata w)" "healthy (w_contents w)" "w_registry w = lf_registry lf"
    and cs: "fs_path_parse path = Inr cs" "paths (local_view J (local_metadata_at dir) (w_metadata w)) cs = Some (FileTarget f)"
    and m: "map_of (ms_files (local_view J (local_metadata_at dir) (w_metadata w))) f = Some m" "fm_manifest m = Some (manifest_single cid sz)"
    and p: "map_of (ms_placements (local_view J (local_metadata_at dir) (w_metadata w))) cid = Some p" "lf_device_id lf \<in> rp_node_id ` set (cp_replicas p)"
    and b: "local_blob (local_content_at dir) (w_contents w) cid = Some data" "matches sha256 cid data"
  shows "\<exists>w3. svc_read (lf_service lf) sha256 path w = (Inr data, w3)"
proof -
  let ?st = "local_metadata_at dir"
  let ?v = "local_view J ?st (w_metadata w)"
  note parts = local_filesystem_open_parts [OF opened]
  have alive: "\<not> lm_poisoned ?st" by (simp add: local_metadata_at_def)
  from local_resolve_healthy [OF ok(1,2) alive cs(1)] obtain d2 where d2: "same_file ?st (w_metadata w) d2" "healthy d2"
    "resolve (local_metadata_ops J ?st) path (w_metadata w) = (Inr (FileTarget f), d2)"
    using cs(2) by (auto simp: spec_resolve_def)
  have "local_ok J ?st d2" "local_view J ?st d2 = ?v"
    using ok(1) same_file_ok [OF d2(1)] same_file_view [OF d2(1)] by simp_all
  with local_load_healthy [OF _ d2(2) alive] obtain d3 where d3: "local_metadata_load J ?st d2 = (Inr ?v, d3)" by metis
  obtain w3 where "read_replicas (lf_service lf) sha256 cid (cp_replicas p) (w\<lparr>w_metadata := d3\<rparr>) = (Some data, w3)"
    using read_replicas_local [OF opened _ _ _ _ p(2), of "w\<lparr>w_metadata := d3\<rparr>" cid data] ok(3,4) b by auto
  then show ?thesis
    using d2(3) d3 m p by (simp add: svc_read_def read_internal_def on_metadata_eq parts(1) local_metadata_ops_def manifest_single_def)
qed

text \<open>
  Whatever calls of the disk failed during the write, reading the path on a working disk gives the data written, as
  long as the entry of the file, its placement on this device and its blob are still what they were.
\<close>

definition file_kept :: "metadata_snapshot json_codec \<Rightarrow> path_buf \<Rightarrow> string \<Rightarrow> disk \<Rightarrow> disk \<Rightarrow> bool" where
  "file_kept J dir path d d2 \<longleftrightarrow> (let v = local_view J (local_metadata_at dir) d; v2 = local_view J (local_metadata_at dir) d2 in
     \<forall>cs f m. fs_path_parse path = Inr cs \<longrightarrow> paths v cs = Some (FileTarget f) \<longrightarrow> map_of (ms_files v) f = Some m \<longrightarrow>
       paths v2 cs = Some (FileTarget f) \<and> map_of (ms_files v2) f = Some m)"

definition placement_kept :: "metadata_snapshot json_codec \<Rightarrow> path_buf \<Rightarrow> device_id \<Rightarrow> content_id \<Rightarrow> disk \<Rightarrow> disk \<Rightarrow> bool" where
  "placement_kept J dir device cid d d2 \<longleftrightarrow> (let v = local_view J (local_metadata_at dir) d; v2 = local_view J (local_metadata_at dir) d2 in
     \<forall>p. map_of (ms_placements v) cid = Some p \<longrightarrow> device \<in> rp_node_id ` set (cp_replicas p) \<longrightarrow>
       (\<exists>q. map_of (ms_placements v2) cid = Some q \<and> device \<in> rp_node_id ` set (cp_replicas q)))"

lemma kept_same:
  assumes "file_at d2 (lm_path (local_metadata_at dir)) = file_at d (lm_path (local_metadata_at dir))"
  shows "file_kept J dir path d d2" "placement_kept J dir device cid d d2"
proof -
  have "local_view J (local_metadata_at dir) d2 = local_view J (local_metadata_at dir) d" using assms by (simp add: local_view_def)
  then show "file_kept J dir path d d2" "placement_kept J dir device cid d d2" by (auto simp: file_kept_def placement_kept_def Let_def)
qed

lemma local_read_after_write:
  assumes opened: "local_filesystem_open E draw sha256 K J dir hostname d = (Inr lf, d')"
    and w: "w_registry w = lf_registry lf" "local_ok J (local_metadata_at dir) (w_metadata w)"
    and wr: "svc_write (lf_service lf) now path data expected (lf_device_id lf) w = (Inr m, w1)"
    and kept: "local_ok J (local_metadata_at dir) (w_metadata w2)" "file_kept J dir path (w_metadata w1) (w_metadata w2)"
      "placement_kept J dir (lf_device_id lf) (for_bytes sha256 data) (w_metadata w1) (w_metadata w2)"
    and blob: "local_blob (local_content_at dir) (w_contents w2) (for_bytes sha256 data) = local_blob (local_content_at dir) (w_contents w1) (for_bytes sha256 data)"
    and later: "healthy (w_metadata w2)" "healthy (w_contents w2)" "w_registry w2 = lf_registry lf"
    and coll: "\<And>b. local_blob (local_content_at dir) (w_contents w1) (for_bytes sha256 data) = Some b \<Longrightarrow> sha256 b = sha256 data \<Longrightarrow> b = data"
  shows "\<exists>w3. svc_read (lf_service lf) sha256 path w2 = (Inr data, w3)"
  using opened w wr
proof (rule local_write_effect)
  let ?st = "local_metadata_at dir" and ?cid = "for_bytes sha256 data"
  let ?v = "local_view J ?st (w_metadata w1)" and ?v2 = "local_view J ?st (w_metadata w2)"
  fix f cs p b
  assume cs: "fs_path_parse path = Inr cs" and ok: "local_ok J ?st (w_metadata w1)"
    and v: "paths ?v cs = Some (FileTarget f)" "map_of (ms_files ?v) f = Some m" "fm_manifest m = Some (manifest_single ?cid (fm_size m))"
      "map_of (ms_placements ?v) ?cid = Some p" "lf_device_id lf \<in> rp_node_id ` set (cp_replicas p)"
    and b: "local_blob (local_content_at dir) (w_contents w1) ?cid = Some b" "matches sha256 ?cid b"
  have [simp]: "b = data" using coll [OF b(1)] b(2) by (simp add: matches_def)
  have v2: "paths ?v2 cs = Some (FileTarget f)" "map_of (ms_files ?v2) f = Some m"
    using kept(2) cs v(1,2) by (auto simp: file_kept_def Let_def)
  obtain q where q: "map_of (ms_placements ?v2) ?cid = Some q" "lf_device_id lf \<in> rp_node_id ` set (cp_replicas q)"
    using kept(3) v(4,5) unfolding placement_kept_def Let_def by blast
  have "local_blob (local_content_at dir) (w_contents w2) ?cid = Some data" "matches sha256 ?cid data" using b blob by simp_all
  from local_read_stored [OF opened kept(1) later cs v2 v(3) q this] show ?thesis .
qed

text \<open>What a write through the service does to the other files of the disk of the metadata.\<close>

lemma touches_unlock [touching]:
  fixes m :: "(disk, filesystem_error, 'a) op"
  assumes m: "touches T m"
  shows "touches T (unlock_then m)"
proof -
  have "unlock_then m = (\<lambda>d. case m d of (r, d1) \<Rightarrow> op_bind (meta_err flock) (\<lambda>_. op_lift r) d1)"
    by (rule ext) (simp add: unlock_then_def)
  moreover have "touches T (op_bind (meta_err flock) (\<lambda>_. op_lift r))" for r :: "filesystem_error + 'a"
    unfolding meta_err_def by (intro touching)
  ultimately show ?thesis using m unfolding touches_def by (simp split: prod.split)
qed

lemma touches_metadata:
  assumes "lm_lock_path st \<in> T" "lm_path st \<in> T" "with_extension (lm_path st) ''tmp'' \<in> T"
  shows "touches T (local_metadata_load J st)" "touches T (local_metadata_cas J st x)" "touches T (resolve (local_metadata_ops J st) path)"
proof -
  show ld: "touches T (local_metadata_load J st)" unfolding local_metadata_load_def meta_err_def by (intro touching assms)
  show "touches T (local_metadata_cas J st x)"
    unfolding local_metadata_cas_def meta_err_def persist_def create_parent_def by (intro touching assms)
  show "touches T (resolve (local_metadata_ops J st) path)"
    unfolding resolve_def local_metadata_ops_def by (simp, intro touching ld)
qed

lemma local_write_frame:
  assumes "local_filesystem_open E draw sha256 K J dir hostname d = (Inr lf, d')"
    and "svc_write (lf_service lf) now path data expected device w = (Inr m, w1)" "p \<in> device_files dir"
  shows "file_at (w_metadata w1) p = file_at (w_metadata w) p"
  using assms(2)
proof (rule svc_write_steps)
  let ?st = "local_metadata_at dir"
  let ?T = "{lm_lock_path ?st, lm_path ?st, with_extension (lm_path ?st) ''tmp''}"
  fix f s1 cid c x s2 out y s3
  assume 1: "resolve (fs_metadata (lf_service lf)) path (w_metadata w) = (Inr (FileTarget f), s1)"
    and 2: "md_load (fs_metadata (lf_service lf)) s1 = (Inr x, s2)" and 3: "md_cas (fs_metadata (lf_service lf)) y s2 = (Inr (), s3)"
    and w1: "w1 = fold w_emit (write_events f cid device out) (w\<lparr>w_metadata := s3, w_contents := c\<rparr>)"
  have "p \<notin> ?T" using assms(3)
    by (auto simp: device_files_def Let_def path_join_def identity_path_def cluster_store_at_def with_extension_def file_stem_def local_metadata_at_def)
  moreover have "touches ?T (local_metadata_load J ?st)" "touches ?T (local_metadata_cas J ?st y)" "touches ?T (resolve (local_metadata_ops J ?st) path)"
    by (rule touches_metadata; simp)+
  moreover note 1 2 3 local_filesystem_open_parts(1) [OF assms(1)]
  ultimately show ?thesis by (simp add: w1 local_metadata_ops_def touchesD(1))
qed

text \<open>A device whose filesystem has a file \<open>/a/f\<close>, with codecs for the states it passes through.\<close>

definition demo_hash :: hash_function where
  "demo_hash bs = (if length bs > 9 then [7] else bs)"

definition demo_device_id :: device_id where
  "demo_device_id = DeviceId ''device.07''"

definition demo_agent_codec :: "agent_state json_codec" where
  "demo_agent_codec = (let s = initial_state demo_device_id ''kubeweft-device'' in
     \<lparr>to_json = (\<lambda>x. if x = s then Inr [0] else Inl ''unknown''), from_json = (\<lambda>bs. if bs = [0] then Inr s else Inl ''unknown'')\<rparr>)"

definition demo_written :: metadata_snapshot where
  "demo_written = (case write_edit 2 demo_device_id (for_bytes demo_hash [1, 2]) (FileId 2) [1, 2] (Some 1) 9 demo_tree of
     Inr (out, y) \<Rightarrow> y\<lparr>ms_revision := ms_revision y + 1\<rparr> | Inl e \<Rightarrow> demo_tree)"

definition demo_snapshot_codec :: "metadata_snapshot json_codec" where
  "demo_snapshot_codec = \<lparr>to_json = (\<lambda>x. if x = demo_tree then Inr [0] else if x = demo_written then Inr [1] else Inl ''unknown''),
     from_json = (\<lambda>bs. if bs = [0] then Inr demo_tree else if bs = [1] then Inr demo_written else Inl ''unknown'')\<rparr>"

definition demo_data_disk :: disk where
  "demo_data_disk = \<lparr>dk_files = [([''data'', ''metadata.json''], [0])], dk_faults = [], dk_stat_faults = []\<rparr>"

lemma demo_device_ok:
  "local_ok demo_snapshot_codec (local_metadata_at [''data'']) demo_data_disk"
proof -
  have "paths_apart (local_metadata_at [''data''])" by code_simp
  moreover have "demo_tree \<noteq> demo_written" by code_simp
  ultimately show ?thesis
    by (auto simp: local_ok_def json_ok_def readable_def stat_reliable_def demo_snapshot_codec_def demo_data_disk_def
        local_metadata_at_def path_join_def split: if_splits)
qed

end
