(* ===== verification/Rust_Text.thy ===== *)
theory Rust_Text
  imports Rust_Std
begin

section \<open>Text\<close>

text \<open>
  What the programs use of Rust's text functions: printing and parsing unsigned numbers, and the check that bytes
  are UTF-8. Strings are the bytes of their UTF-8 form.
\<close>

subsection \<open>Numbers\<close>

text \<open>Decimal formatting of an unsigned integer.\<close>

fun decimal :: "nat \<Rightarrow> string" where
  "decimal n = (if n < 10 then [char_of (48 + n)] else decimal (n div 10) @ [char_of (48 + n mod 10)])"

declare decimal.simps [simp del]

definition digit_value :: "char \<Rightarrow> nat" where
  "digit_value c = of_char c - 48"

definition digits_value :: "string \<Rightarrow> nat" where
  "digits_value ds = foldl (\<lambda>acc c. acc * 10 + digit_value c) 0 ds"

text \<open>\<open>str::parse\<close> of an unsigned type with the given largest value: a plus sign is allowed, an empty number is not.\<close>

definition parse_unsigned :: "nat \<Rightarrow> string \<Rightarrow> nat option" where
  "parse_unsigned largest s =
     (let ds = (case s of [] \<Rightarrow> [] | c # rest \<Rightarrow> if c = CHR ''+'' then rest else s) in
      if ds = [] \<or> \<not> list_all is_ascii_digit ds \<or> digits_value ds > largest then None else Some (digits_value ds))"

definition parse_u64 :: "string \<Rightarrow> u64 option" where
  "parse_u64 s = map_option of_nat (parse_unsigned (2 ^ 64 - 1) s)"

definition parse_u16 :: "string \<Rightarrow> u16 option" where
  "parse_u16 s = map_option of_nat (parse_unsigned (2 ^ 16 - 1) s)"

lemma digit_char: "n < 10 \<Longrightarrow> is_ascii_digit (char_of (48 + n)) \<and> digit_value (char_of (48 + n)) = n \<and> char_of (48 + n) \<noteq> CHR ''+''"
proof -
  assume "n < 10"
  then have v: "of_char (char_of (48 + n) :: char) = (48 + n :: nat)" by simp
  then show ?thesis using \<open>n < 10\<close>
    by (auto simp: is_ascii_digit_def digit_value_def less_eq_char_def dest: arg_cong [of _ _ "of_char :: char \<Rightarrow> nat"])
qed

lemma decimal_digits: "list_all is_ascii_digit (decimal n) \<and> digits_value (decimal n) = n \<and> decimal n \<noteq> [] \<and> hd (decimal n) \<noteq> CHR ''+''"
proof (induction n rule: decimal.induct)
  case (1 n)
  have m: "n mod 10 < 10" by simp
  show ?case
  proof (cases "n < 10")
    case True
    then show ?thesis using digit_char [OF True] unfolding decimal.simps [of n] by (simp add: digits_value_def)
  next
    case False
    with 1 digit_char [OF m] show ?thesis unfolding decimal.simps [of n] by (simp add: digits_value_def)
  qed
qed

lemma parse_decimal: "parse_unsigned largest (decimal n) = (if n \<le> largest then Some n else None)"
  using decimal_digits [of n] unfolding parse_unsigned_def by (cases "decimal n") simp_all

lemma parse_u64_decimal [simp]: "parse_u64 (decimal (unat n)) = Some n"
  using unsigned_less [of n, where ?'a = nat] by (simp add: parse_u64_def parse_decimal)

lemma parse_u16_decimal [simp]: "parse_u16 (decimal (unat n)) = Some n"
  using unsigned_less [of n, where ?'a = nat] by (simp add: parse_u16_def parse_decimal)

subsection \<open>UTF-8\<close>

text \<open>
  The length of what stands at the front of a non-empty byte list, and whether it is a character: if not, it is the
  longest part of a character there, at least one byte, which \<open>to_string_lossy\<close> replaces as a whole.
\<close>

definition continuation :: "nat list \<Rightarrow> nat \<Rightarrow> nat \<Rightarrow> nat \<Rightarrow> bool" where
  "continuation bs i lo hi \<longleftrightarrow> i < length bs \<and> lo \<le> bs ! i \<and> bs ! i \<le> hi"

definition second_range :: "nat \<Rightarrow> nat \<times> nat" where
  "second_range b = (if b = 0xE0 then (0xA0, 0xBF) else if b = 0xED then (0x80, 0x9F)
     else if b = 0xF0 then (0x90, 0xBF) else if b = 0xF4 then (0x80, 0x8F) else (0x80, 0xBF))"

definition utf8_width :: "nat \<Rightarrow> nat" where
  "utf8_width b = (if b < 0x80 then 1 else if 0xC2 \<le> b \<and> b \<le> 0xDF then 2 else if 0xE0 \<le> b \<and> b \<le> 0xEF then 3
     else if 0xF0 \<le> b \<and> b \<le> 0xF4 then 4 else 0)"

definition utf8_front :: "nat list \<Rightarrow> bool \<times> nat" where
  "utf8_front bs = (let w = utf8_width (hd bs); (lo, hi) = second_range (hd bs) in
     if w = 0 then (False, 1) else if w = 1 then (True, 1)
     else if \<not> continuation bs 1 lo hi then (False, 1) else if w = 2 then (True, 2)
     else if \<not> continuation bs 2 0x80 0xBF then (False, 2) else if w = 3 then (True, 3)
     else if \<not> continuation bs 3 0x80 0xBF then (False, 3) else (True, 4))"

lemma utf8_front_pos: "0 < snd (utf8_front bs)"
  by (auto simp: utf8_front_def Let_def split: prod.split)

function utf8_chars :: "string \<Rightarrow> (bool \<times> string) list" where
  "utf8_chars s = (if s = [] then [] else
     (let (ok, n) = utf8_front (map of_char s) in (ok, take n s) # utf8_chars (drop n s)))"
  by pat_completeness auto
termination
proof (relation "measure length")
  fix s x ok n
  assume "s \<noteq> []" "x = utf8_front (map of_char s)" "(ok, n) = x"
  then have "0 < n" using utf8_front_pos [of "map of_char s"] by (metis snd_conv)
  with \<open>s \<noteq> []\<close> show "(drop n s, s) \<in> measure length" by simp
qed simp

declare utf8_chars.simps [simp del]

definition is_utf8 :: "string \<Rightarrow> bool" where
  "is_utf8 s \<longleftrightarrow> list_all fst (utf8_chars s)"

definition replacement_character :: string where
  "replacement_character = map char_of [0xEF, 0xBF, 0xBD :: nat]"

definition lossy :: "string \<Rightarrow> string" where
  "lossy s = concat (map (\<lambda>(ok, c). if ok then c else replacement_character) (utf8_chars s))"

lemma concat_utf8_chars: "concat (map snd (utf8_chars s)) = s"
proof (induction s rule: utf8_chars.induct)
  case (1 s)
  then show ?case by (subst utf8_chars.simps) (auto simp: Let_def split: prod.split)
qed

lemma lossy_utf8: "is_utf8 s \<Longrightarrow> lossy s = s"
proof -
  assume "is_utf8 s"
  then have "map (\<lambda>(ok, c). if ok then c else replacement_character) (utf8_chars s) = map snd (utf8_chars s)"
    by (auto simp: is_utf8_def list_all_iff)
  then show "lossy s = s" by (simp only: lossy_def concat_utf8_chars)
qed

lemma ascii_is_utf8: "\<forall>c \<in> set s. of_char c < (128 :: nat) \<Longrightarrow> is_utf8 s"
proof (induction s rule: utf8_chars.induct)
  case (1 s)
  show ?case
  proof (cases s)
    case (Cons c cs)
    then have "utf8_front (map of_char s) = (True, 1)" using 1(2) by (simp add: utf8_front_def utf8_width_def split: prod.split)
    with 1 Cons show ?thesis by (subst is_utf8_def, subst utf8_chars.simps) (simp add: is_utf8_def)
  qed (simp add: is_utf8_def utf8_chars.simps)
qed

subsection \<open>Text and bytes\<close>

definition bytes_text :: "bytes \<Rightarrow> string" where
  "bytes_text bs = map (\<lambda>b. char_of (unat b)) bs"

definition text_bytes :: "string \<Rightarrow> bytes" where
  "text_bytes s = map (\<lambda>c. of_nat (of_char c)) s"

lemma bytes_text_bytes [simp]: "bytes_text (text_bytes s) = s"
proof -
  have "char_of (unat (of_nat (of_char c) :: byte)) = c" for c :: char
    by (simp add: unat_of_nat)
  then show ?thesis by (simp add: bytes_text_def text_bytes_def map_idI)
qed

end
