(* ===== verification/Wire.thy ===== *)
theory Wire
  imports Transport_Domain Rust_Text
begin

section \<open>Messages between agents\<close>

text \<open>
  The messages of \<open>wire.rs\<close>, how an error becomes a response (\<open>error_response\<close> of
  \<open>agent.rs\<close>) and the request side of a connection. A connection is the record
  \<open>peer_channel\<close> of the calls its user makes on a \<open>SecurePeerStream\<close>, over the state
  \<open>'n\<close> of the network. Constructors of responses that are also requests end in \<open>Reply\<close>.
\<close>

datatype local_request =
    LocalStatus
  | CreateCluster string
  | CreateInvite
  | JoinCluster socket_addr string
  | LocalMembers
  | LocalPresence

record peer_authorization =
  pa_cluster_id :: cluster_id
  pa_device_id :: device_id
  pa_credential :: string

datatype remote_request =
    RemoteJoin string cluster_member join_request_id
  | RemoteMembers peer_authorization
  | PresenceProbe peer_authorization
  | ContentExists peer_authorization string
  | ContentGet peer_authorization string
  | ContentPut peer_authorization string u64

datatype control_response =
    Status membership_status
  | ClusterCreated cluster_summary string
  | InviteCreated string
  | Joined cluster_summary
  | JoinAccepted cluster_summary string "authorized_member list"
  | Members cluster_summary "cluster_member list"
  | MemberRoster cluster_summary "authorized_member list"
  | Presence "presence_record list"
  | PresenceAck
  | ContentExistsReply bool
  | ContentAvailable u64
  | ContentReady
  | ContentStored
  | ErrorReply string string

record 'r envelope =
  env_version :: u16
  env_body :: 'r

definition protocol_version :: u16 where
  "protocol_version = 4"

definition enveloped :: "'r \<Rightarrow> 'r envelope" where
  "enveloped r = \<lparr>env_version = protocol_version, env_body = r\<rparr>"

lemma enveloped_sel [simp]: "env_version (enveloped r) = protocol_version" "env_body (enveloped r) = r"
  by (simp_all add: enveloped_def)

subsection \<open>Errors as responses\<close>

definition unsupported_version :: "u16 \<Rightarrow> control_response" where
  "unsupported_version version =
     ErrorReply ''unsupported_version'' (''unsupported protocol version '' @ decimal (unat version))"

definition error_code :: "transport_error \<Rightarrow> string" where
  "error_code error = (case error of
     AgentUnavailable \<Rightarrow> ''agent_unavailable''
   | AgentAlreadyRunning \<Rightarrow> ''agent_already_running''
   | InvalidIdentity _ \<Rightarrow> ''invalid_identity''
   | SecureChannel _ \<Rightarrow> ''secure_channel''
   | PeerIdentityMismatch _ _ \<Rightarrow> ''peer_identity_mismatch''
   | NotCoordinator \<Rightarrow> ''not_coordinator''
   | AlreadyInCluster \<Rightarrow> ''already_in_cluster''
   | NotInCluster \<Rightarrow> ''not_in_cluster''
   | InvalidInvite \<Rightarrow> ''invalid_invite''
   | Unauthorized \<Rightarrow> ''unauthorized''
   | PeerContentUnavailable \<Rightarrow> ''content_unavailable''
   | ContentIntegrity \<Rightarrow> ''content_integrity''
   | ContentTooLarge \<Rightarrow> ''content_too_large''
   | PeerNoSpace \<Rightarrow> ''no_space''
   | PeerContentDisabled \<Rightarrow> ''peer_content_disabled''
   | StateConflict \<Rightarrow> ''conflict''
   | Io _ \<Rightarrow> ''io''
   | InvalidMessage _ \<Rightarrow> ''invalid_message''
   | Remote code _ \<Rightarrow> code)"

definition error_response :: "transport_error \<Rightarrow> control_response" where
  "error_response error = (case error of
     Remote code message \<Rightarrow> ErrorReply code message
   | _ \<Rightarrow> ErrorReply (error_code error) (transport_error_display error))"

lemma error_response_is_error: "\<exists>message. error_response e = ErrorReply (error_code e) message"
  by (cases e) (simp_all add: error_response_def error_code_def)

subsection \<open>The request side\<close>

record 'n peer_channel =
  ch_connect :: "socket_addr \<Rightarrow> device_id \<Rightarrow> ('n, transport_error, unit) op"
  ch_write :: "remote_request envelope \<Rightarrow> ('n, transport_error, unit) op"
  ch_read :: "('n, transport_error, control_response envelope) op"
  ch_write_payload :: "bytes \<Rightarrow> ('n, transport_error, unit) op"
  ch_read_payload :: "u64 \<Rightarrow> ('n, transport_error, bytes) op"

definition unsupported_response :: "u16 \<Rightarrow> transport_error" where
  "unsupported_response version =
     InvalidMessage (''unsupported response protocol version '' @ decimal (unat version))"

definition open_response :: "control_response envelope \<Rightarrow> control_response tr_result" where
  "open_response response =
     (if env_version response \<noteq> protocol_version then Inl (unsupported_response (env_version response))
      else (case env_body response of
          ErrorReply code message \<Rightarrow> Inl (Remote code message)
        | body \<Rightarrow> Inr body))"

definition read_response :: "'n peer_channel \<Rightarrow> ('n, transport_error, control_response) op" where
  "read_response C = op_bind (ch_read C) (\<lambda>response. op_lift (open_response response))"

definition send_request ::
    "'n peer_channel \<Rightarrow> socket_addr \<Rightarrow> device_id \<Rightarrow> remote_request \<Rightarrow> ('n, transport_error, control_response) op" where
  "send_request C endpoint expected_remote request =
     op_bind (ch_connect C endpoint expected_remote) (\<lambda>_.
     op_bind (ch_write C (enveloped request)) (\<lambda>_.
     read_response C))"

lemma open_response_enveloped [simp]:
  "open_response (enveloped r) = (case r of ErrorReply code message \<Rightarrow> Inl (Remote code message) | _ \<Rightarrow> Inr r)"
  by (cases r) (simp_all add: open_response_def)

lemma open_response_not_error: "open_response env = Inr r \<Longrightarrow> r \<noteq> ErrorReply c m"
  by (auto simp: open_response_def split: if_splits control_response.splits)

end
