(* ===== verification/Framing.thy ===== *)
theory Framing
  imports Wire Device_Identity
begin

unbundle bit_operations_syntax

section \<open>Frames on a byte stream\<close>

text \<open>
  The local frames of \<open>wire.rs\<close> and the encrypted ones of \<open>secure.rs\<close>. A stream is the bytes that
  are still to be read and those written so far, with the outcome of each write as for a disk. The Noise
  protocol, a library of the program, is an argument: \<open>noise\<close> has the calls on a handshake and on a
  transport state the program makes, and \<open>ciphers_agree\<close> says what its documentation promises of two
  ends that finished a handshake.
\<close>

subsection \<open>Streams\<close>

record stream =
  st_in :: bytes
  st_out :: bytes
  st_faults :: "io_outcome list"

type_synonym 'a stream_op = "(stream, transport_error, 'a) op"

definition eof :: transport_error where
  "eof = Io \<lparr>io_kind = UnexpectedEofKind, io_message = ''failed to fill whole buffer''\<rparr>"

definition read_exact :: "nat \<Rightarrow> bytes stream_op" where
  "read_exact n st = (if n \<le> length (st_in st) then (Inr (take n (st_in st)), st\<lparr>st_in := drop n (st_in st)\<rparr>)
     else (Inl eof, st\<lparr>st_in := []\<rparr>))"

definition write_all :: "bytes \<Rightarrow> unit stream_op" where
  "write_all bs st = (case st_faults st of
     Fails message n # outs \<Rightarrow> (Inl (Io (other_error message)), st\<lparr>st_out := st_out st @ take n bs, st_faults := outs\<rparr>)
   | outs \<Rightarrow> (Inr (), st\<lparr>st_out := st_out st @ bs, st_faults := tl outs\<rparr>))"

definition flush :: "unit stream_op" where
  "flush = write_all []"

text \<open>\<open>u32::to_be_bytes\<close> and \<open>u32::from_be_bytes\<close>.\<close>

definition to_be_bytes :: "u32 \<Rightarrow> bytes" where
  "to_be_bytes w = [ucast (drop_bit 24 w), ucast (drop_bit 16 w), ucast (drop_bit 8 w), ucast w]"

definition from_be_bytes :: "bytes \<Rightarrow> u32" where
  "from_be_bytes bs = foldl (\<lambda>acc b. push_bit 8 acc OR ucast b) 0 bs"

definition u32_try_from :: "nat \<Rightarrow> u32 option" where
  "u32_try_from n = (if n < 2 ^ 32 then Some (of_nat n) else None)"

subsection \<open>Local frames\<close>

definition max_frame_size :: nat where
  "max_frame_size = 1024 * 1024"

definition outside_range :: "string \<Rightarrow> nat \<Rightarrow> transport_error" where
  "outside_range what n = InvalidMessage (what @ '' size '' @ decimal n @ '' is outside the accepted range'')"

definition read_frame :: "'a json_codec \<Rightarrow> 'a stream_op" where
  "read_frame J =
     op_bind (read_exact 4) (\<lambda>header. let sz = unat (from_be_bytes header) in
       if sz = 0 \<or> sz > max_frame_size then op_lift (Inl (outside_range ''frame'' sz))
       else op_bind (read_exact sz) (\<lambda>bs. op_lift (map_err InvalidMessage (from_json J bs))))"

definition write_frame :: "'a json_codec \<Rightarrow> 'a \<Rightarrow> unit stream_op" where
  "write_frame J value =
     op_bind (op_lift (map_err InvalidMessage (to_json J value))) (\<lambda>bs.
       if length bs > max_frame_size then op_lift (Inl (InvalidMessage ''frame is too large''))
       else op_bind (op_lift (ok_or (u32_try_from (length bs)) (InvalidMessage ''frame is too large''))) (\<lambda>sz.
         op_bind (write_all (to_be_bytes sz)) (\<lambda>_.
         op_bind (write_all bs) (\<lambda>_.
         flush))))"

subsection \<open>Binary frames\<close>

definition write_binary_frame :: "bytes \<Rightarrow> unit stream_op" where
  "write_binary_frame bs =
     op_bind (op_lift (ok_or (u32_try_from (length bs)) (InvalidMessage ''peer frame is too large''))) (\<lambda>sz.
     op_bind (write_all (to_be_bytes sz)) (\<lambda>_.
     op_bind (write_all bs) (\<lambda>_.
     flush)))"

definition read_binary_frame :: "nat \<Rightarrow> bytes stream_op" where
  "read_binary_frame maximum =
     op_bind (read_exact 4) (\<lambda>header. let sz = unat (from_be_bytes header) in
       if sz = 0 \<or> sz > maximum then op_lift (Inl (outside_range ''peer frame'' sz))
       else read_exact sz)"

subsection \<open>The secure channel\<close>

definition max_handshake_frame :: nat where
  "max_handshake_frame = 512"

definition max_ciphertext_frame :: nat where
  "max_ciphertext_frame = 65535"

definition max_plaintext_frame :: nat where
  "max_plaintext_frame = max_ciphertext_frame - 16"

definition max_transfer :: nat where
  "max_transfer = 256 * 1024 * 1024"

record ('h, 't) noise =
  nz_initiator :: "bytes \<Rightarrow> string + 'h"
  nz_responder :: "bytes \<Rightarrow> string + 'h"
  nz_hs_write :: "'h \<Rightarrow> string + bytes \<times> 'h"
  nz_hs_read :: "'h \<Rightarrow> bytes \<Rightarrow> string + 'h"
  nz_remote_static :: "'h \<Rightarrow> bytes option"
  nz_transport :: "'h \<Rightarrow> string + 't"
  nz_encrypt :: "'t \<Rightarrow> bytes \<Rightarrow> string + bytes \<times> 't"
  nz_decrypt :: "'t \<Rightarrow> bytes \<Rightarrow> string + bytes \<times> 't"

record 't secure_stream =
  ss_stream :: stream
  ss_transport :: 't
  ss_remote :: device_id

type_synonym ('t, 'a) secure_op = "('t secure_stream, transport_error, 'a) op"

definition on_stream :: "'a stream_op \<Rightarrow> ('t, 'a) secure_op" where
  "on_stream m s = (let (r, st) = m (ss_stream s) in (r, s\<lparr>ss_stream := st\<rparr>))"

definition on_transport :: "('t \<Rightarrow> string + 'a \<times> 't) \<Rightarrow> ('t, 'a) secure_op" where
  "on_transport f s = (case f (ss_transport s) of
     Inl e \<Rightarrow> (Inl (SecureChannel e), s)
   | Inr (x, t) \<Rightarrow> (Inr x, s\<lparr>ss_transport := t\<rparr>))"

definition size_error :: transport_error where
  "size_error = InvalidMessage ''secure peer message is outside the accepted size range''"

definition send_plaintext :: "('h, 't) noise \<Rightarrow> bytes \<Rightarrow> ('t, unit) secure_op" where
  "send_plaintext N plaintext =
     op_bind (on_transport (\<lambda>t. nz_encrypt N t plaintext)) (\<lambda>ciphertext. on_stream (write_binary_frame ciphertext))"

definition receive_plaintext :: "('h, 't) noise \<Rightarrow> ('t, bytes) secure_op" where
  "receive_plaintext N =
     op_bind (on_stream (read_binary_frame max_ciphertext_frame)) (\<lambda>ciphertext.
       on_transport (\<lambda>t. nz_decrypt N t ciphertext))"

definition secure_write :: "('h, 't) noise \<Rightarrow> 'a json_codec \<Rightarrow> 'a \<Rightarrow> ('t, unit) secure_op" where
  "secure_write N J value =
     op_bind (op_lift (map_err InvalidMessage (to_json J value))) (\<lambda>plaintext.
       if plaintext = [] \<or> length plaintext > max_plaintext_frame then op_lift (Inl size_error)
       else send_plaintext N plaintext)"

definition secure_read :: "('h, 't) noise \<Rightarrow> 'a json_codec \<Rightarrow> ('t, 'a) secure_op" where
  "secure_read N J =
     op_bind (receive_plaintext N) (\<lambda>plaintext.
       if plaintext = [] \<or> length plaintext > max_plaintext_frame then op_lift (Inl size_error)
       else op_lift (map_err InvalidMessage (from_json J plaintext)))"

fun send_chunks :: "('h, 't) noise \<Rightarrow> bytes list \<Rightarrow> ('t, unit) secure_op" where
  "send_chunks N [] = op_lift (Inr ())"
| "send_chunks N (chunk # rest) = op_bind (send_plaintext N chunk) (\<lambda>_. send_chunks N rest)"

definition write_payload :: "('h, 't) noise \<Rightarrow> bytes \<Rightarrow> ('t, unit) secure_op" where
  "write_payload N payload = send_chunks N (chunks max_plaintext_frame payload)"

definition payload_mismatch :: transport_error where
  "payload_mismatch = InvalidMessage ''content payload length does not match its header''"

text \<open>The loop of \<open>read_payload\<close>: each round adds at least one byte and never passes the announced size.\<close>

function read_payload_chunks :: "('h, 't) noise \<Rightarrow> nat \<Rightarrow> bytes \<Rightarrow> ('t, bytes) secure_op" where
  "read_payload_chunks N sz payload s =
     (if length payload < sz then (case receive_plaintext N s of
         (Inl e, s1) \<Rightarrow> (Inl e, s1)
       | (Inr plaintext, s1) \<Rightarrow>
           if plaintext = [] \<or> length payload + length plaintext > sz then (Inl payload_mismatch, s1)
           else read_payload_chunks N sz (payload @ plaintext) s1)
      else (Inr payload, s))"
  by pat_completeness auto
termination
  by (relation "measure (\<lambda>(N, sz, payload, s). sz - length payload)") (auto simp: neq_Nil_conv)

declare read_payload_chunks.simps [simp del]

definition read_payload :: "('h, 't) noise \<Rightarrow> u64 \<Rightarrow> ('t, bytes) secure_op" where
  "read_payload N sz = (if unat sz > max_transfer then op_lift (Inl ContentTooLarge) else read_payload_chunks N (unat sz) [])"

subsection \<open>Handshakes\<close>

definition noise_err :: "string + 'a \<Rightarrow> 'a tr_result" where
  "noise_err r = map_err SecureChannel r"

definition remote_device_id :: "('h, 't) noise \<Rightarrow> hash_function \<Rightarrow> 'h \<Rightarrow> device_id tr_result" where
  "remote_device_id N sha256 handshake =
     res_bind (ok_or (nz_remote_static N handshake) (SecureChannel ''Noise handshake did not authenticate a static key'')) (\<lambda>key.
     res_bind (map_err (\<lambda>_. InvalidIdentity ''device public key must contain exactly 32 bytes'') (try_from_slice key)) (\<lambda>key.
     Inr (the (public_key_device_id sha256 key))))"

text \<open>A message of the handshake is at most as long as the buffer it is made in.\<close>

definition send_handshake :: "('h, 't) noise \<Rightarrow> 'h \<Rightarrow> 'h stream_op" where
  "send_handshake N handshake =
     op_bind (op_lift (noise_err (nz_hs_write N handshake))) (\<lambda>(message, handshake).
     op_bind (write_binary_frame message) (\<lambda>_. op_lift (Inr handshake)))"

definition receive_handshake :: "('h, 't) noise \<Rightarrow> 'h \<Rightarrow> 'h stream_op" where
  "receive_handshake N handshake =
     op_bind (read_binary_frame max_handshake_frame) (\<lambda>message. op_lift (noise_err (nz_hs_read N handshake message)))"

definition connect_error :: "io_error \<Rightarrow> transport_error" where
  "connect_error error = (case io_kind error of
     ConnectionRefusedKind \<Rightarrow> AgentUnavailable
   | TimedOutKind \<Rightarrow> AgentUnavailable
   | NotFoundKind \<Rightarrow> AgentUnavailable
   | _ \<Rightarrow> Io error)"

text \<open>\<open>connect\<close> after the TCP connection, whose result is the first argument; timeouts are set on it.\<close>

definition initiate :: "('h, 't) noise \<Rightarrow> hash_function \<Rightarrow> device_id \<Rightarrow> 'h \<Rightarrow> 't stream_op" where
  "initiate N sha256 expected_remote h0 =
     op_bind (send_handshake N h0) (\<lambda>h1.
     op_bind (receive_handshake N h1) (\<lambda>h2.
     op_bind (op_lift (remote_device_id N sha256 h2)) (\<lambda>remote.
       if remote \<noteq> expected_remote then op_lift (Inl (PeerIdentityMismatch expected_remote remote))
       else op_bind (send_handshake N h2) (\<lambda>h3. op_lift (noise_err (nz_transport N h3))))))"

definition secure_connect ::
    "('h, 't) noise \<Rightarrow> hash_function \<Rightarrow> io_error + stream \<Rightarrow> device_identity \<Rightarrow> device_id \<Rightarrow> 't secure_stream tr_result" where
  "secure_connect N sha256 tcp identity expected_remote =
     res_bind (map_err connect_error tcp) (\<lambda>st.
     res_bind (noise_err (nz_initiator N (did_private_key identity))) (\<lambda>h0.
       let (result, st1) = initiate N sha256 expected_remote h0 st in
       res_bind result (\<lambda>t. Inr \<lparr>ss_stream = st1, ss_transport = t, ss_remote = expected_remote\<rparr>)))"

definition respond :: "('h, 't) noise \<Rightarrow> hash_function \<Rightarrow> 'h \<Rightarrow> ('t \<times> device_id) stream_op" where
  "respond N sha256 h0 =
     op_bind (receive_handshake N h0) (\<lambda>h1.
     op_bind (send_handshake N h1) (\<lambda>h2.
     op_bind (receive_handshake N h2) (\<lambda>h3.
     op_bind (op_lift (remote_device_id N sha256 h3)) (\<lambda>remote.
     op_bind (op_lift (noise_err (nz_transport N h3))) (\<lambda>t. op_lift (Inr (t, remote)))))))"

definition secure_accept ::
    "('h, 't) noise \<Rightarrow> hash_function \<Rightarrow> stream \<Rightarrow> device_identity \<Rightarrow> 't secure_stream tr_result" where
  "secure_accept N sha256 st identity =
     res_bind (noise_err (nz_responder N (did_private_key identity))) (\<lambda>h0.
       let (result, st1) = respond N sha256 h0 st in
       res_bind result (\<lambda>(t, remote). Inr \<lparr>ss_stream = st1, ss_transport = t, ss_remote = remote\<rparr>))"

subsection \<open>What is written is what is read\<close>

lemma be_bytes_roundtrip [simp]: "from_be_bytes (to_be_bytes w) = w"
proof (rule bit_word_eqI)
  fix n :: nat
  assume "n < LENGTH(32)"
  then show "bit (from_be_bytes (to_be_bytes w)) n = bit w n"
    by (cases "n < 8"; cases "n < 16"; cases "n < 24") (auto simp: from_be_bytes_def to_be_bytes_def bit_simps)
qed

lemma length_be_bytes [simp]: "length (to_be_bytes w) = 4"
  by (simp add: to_be_bytes_def)

lemma read_exact_append: "st_in r = bs @ rest \<Longrightarrow> n = length bs \<Longrightarrow> read_exact n r = (Inr bs, r\<lparr>st_in := rest\<rparr>)"
  by (simp add: read_exact_def)

lemma write_all_ok: "write_all bs st = (Inr (), st') \<Longrightarrow> st_out st' = st_out st @ bs"
  by (auto simp: write_all_def split: list.splits io_outcome.splits)

lemma flush_ok: "flush st = (Inr (), st') \<Longrightarrow> st_out st' = st_out st"
  unfolding flush_def by (drule write_all_ok) simp

lemma u32_try_from_Some: "u32_try_from n = Some w \<Longrightarrow> unat w = n"
  by (auto simp: u32_try_from_def unsigned_of_nat take_bit_nat_eq_self split: if_splits)

text \<open>The bytes of a frame, and reading them back.\<close>

definition frame_bytes :: "bytes \<Rightarrow> bytes" where
  "frame_bytes bs = to_be_bytes (of_nat (length bs)) @ bs"

lemma framed_write_ok:
  assumes "op_bind (op_lift (ok_or (u32_try_from (length bs)) e)) (\<lambda>sz. op_bind (write_all (to_be_bytes sz)) (\<lambda>_.
    op_bind (write_all bs) (\<lambda>_. flush))) st = (Inr (), st')"
  shows "st_out st' = st_out st @ frame_bytes bs \<and> unat (of_nat (length bs) :: u32) = length bs"
proof -
  from assms obtain sz st1 st2 where *: "u32_try_from (length bs) = Some sz" "write_all (to_be_bytes sz) st = (Inr (), st1)"
    "write_all bs st1 = (Inr (), st2)" "flush st2 = (Inr (), st')" by (auto simp: op_bind_eq_Inr)
  have "sz = of_nat (length bs)" using *(1) by (simp add: u32_try_from_def split: if_splits)
  with * show ?thesis using u32_try_from_Some [OF *(1)] by (simp add: frame_bytes_def write_all_ok flush_ok)
qed

lemma frame_header_read:
  assumes "st_in r = frame_bytes bs @ rest"
  shows "read_exact 4 r = (Inr (to_be_bytes (of_nat (length bs))), r\<lparr>st_in := bs @ rest\<rparr>)"
  using assms by (intro read_exact_append) (simp_all add: frame_bytes_def)

lemma read_binary_frame_bytes:
  assumes "st_in r = frame_bytes bs @ rest" "unat (of_nat (length bs) :: u32) = length bs" "bs \<noteq> []" "length bs \<le> maximum"
  shows "read_binary_frame maximum r = (Inr bs, r\<lparr>st_in := rest\<rparr>)"
  using frame_header_read [OF assms(1)] assms(2-4) by (simp add: read_binary_frame_def Let_def read_exact_append)

lemma write_binary_frame_ok:
  "write_binary_frame bs st = (Inr (), st') \<Longrightarrow> st_out st' = st_out st @ frame_bytes bs \<and> unat (of_nat (length bs) :: u32) = length bs"
  unfolding write_binary_frame_def by (rule framed_write_ok)

lemma frame_read_back:
  assumes "json_ok J" "\<And>bs. to_json J v = Inr bs \<Longrightarrow> bs \<noteq> []" "write_frame J v st = (Inr (), st')"
  shows "\<exists>bs. st_out st' = st_out st @ bs \<and> (\<forall>r rest. st_in r = bs @ rest \<longrightarrow> read_frame J r = (Inr v, r\<lparr>st_in := rest\<rparr>))"
proof -
  from assms(3) obtain bs where bs: "to_json J v = Inr bs" "length bs \<le> max_frame_size"
    and w: "op_bind (op_lift (ok_or (u32_try_from (length bs)) (InvalidMessage ''frame is too large''))) (\<lambda>sz.
      op_bind (write_all (to_be_bytes sz)) (\<lambda>_. op_bind (write_all bs) (\<lambda>_. flush))) st = (Inr (), st')"
    unfolding write_frame_def by (cases "to_json J v") (auto split: if_splits)
  note out = framed_write_ok [OF w]
  have "bs \<noteq> []" "from_json J bs = Inr v" using assms(1,2) bs(1) by (auto simp: json_ok_def)
  then have "read_frame J r = (Inr v, r\<lparr>st_in := rest\<rparr>)" if "st_in r = frame_bytes bs @ rest" for r rest
    using frame_header_read [OF that] bs(2) out by (simp add: read_frame_def Let_def read_exact_append)
  with out show ?thesis by blast
qed

text \<open>
  A frame that was written without an error is read back as the value that was sent, and reading it
  leaves exactly the bytes that follow it, so that frames do not run into each other.
\<close>

theorem frame_roundtrip:
  assumes "json_ok J" "\<And>bs. to_json J v = Inr bs \<Longrightarrow> bs \<noteq> []" "write_frame J v st = (Inr (), st')"
  shows "\<exists>bs. st_out st' = st_out st @ bs \<and> (\<forall>r rest. st_in r = bs @ rest \<longrightarrow> read_frame J r = (Inr v, r\<lparr>st_in := rest\<rparr>))"
  using assms by (rule frame_read_back)

definition demo_numbers :: "nat json_codec" where
  "demo_numbers = \<lparr>to_json = (\<lambda>n. Inr (replicate (Suc n) 7)), from_json = (\<lambda>bs. Inr (length bs - 1))\<rparr>"

theorem frame_roundtrip_witness:
  "\<exists>bs. st_out (snd (write_frame demo_numbers 3 \<lparr>st_in = [], st_out = [], st_faults = [Works]\<rparr>)) = bs \<and>
    read_frame demo_numbers \<lparr>st_in = bs @ [1, 2], st_out = [], st_faults = []\<rparr> = (Inr 3, \<lparr>st_in = [1, 2], st_out = [], st_faults = []\<rparr>)"
proof -
  let ?st = "\<lparr>st_in = [], st_out = [], st_faults = [Works]\<rparr>"
  have "fst (write_frame demo_numbers 3 ?st) = Inr ()"
    by (simp add: write_frame_def demo_numbers_def max_frame_size_def u32_try_from_def write_all_def flush_def op_bind_def)
  then obtain st' where run: "write_frame demo_numbers 3 ?st = (Inr (), st')" by (metis prod.collapse)
  have "json_ok demo_numbers" "\<And>bs. to_json demo_numbers 3 = Inr bs \<Longrightarrow> bs \<noteq> []"
    by (auto simp: json_ok_def demo_numbers_def)
  from frame_roundtrip [OF this run] run show ?thesis by auto
qed

subsection \<open>Encrypted messages and payloads\<close>

text \<open>
  Two transport states that belong together: what one encrypts is sixteen bytes longer, the other decrypts
  it to the same bytes, and they still belong together.
\<close>

definition ciphers_agree :: "('h, 't) noise \<Rightarrow> ('t \<Rightarrow> 't \<Rightarrow> bool) \<Rightarrow> bool" where
  "ciphers_agree N R \<longleftrightarrow> (\<forall>t u m c t'. R t u \<longrightarrow> nz_encrypt N t m = Inr (c, t') \<longrightarrow>
     length c = length m + 16 \<and> (\<exists>u'. nz_decrypt N u c = Inr (m, u') \<and> R t' u'))"

text \<open>\<open>r\<close> has these bytes before it and the matching transport state.\<close>

definition expects :: "('t \<Rightarrow> 't \<Rightarrow> bool) \<Rightarrow> 't \<Rightarrow> bytes \<Rightarrow> 't secure_stream \<Rightarrow> bool" where
  "expects R t bs r \<longleftrightarrow> R t (ss_transport r) \<and> st_in (ss_stream r) = bs"

lemma send_plaintext_received:
  assumes "ciphers_agree N R" "send_plaintext N m s = (Inr (), s')" "m \<noteq> []" "length m \<le> max_plaintext_frame"
  shows "\<exists>bs. st_out (ss_stream s') = st_out (ss_stream s) @ bs \<and> (\<forall>r rest. expects R (ss_transport s) (bs @ rest) r \<longrightarrow>
    (\<exists>r'. receive_plaintext N r = (Inr m, r') \<and> expects R (ss_transport s') rest r'))"
proof -
  from assms(2) obtain c t' st where c: "nz_encrypt N (ss_transport s) m = Inr (c, t')" "write_binary_frame c (ss_stream s) = (Inr (), st)"
    "s' = s\<lparr>ss_transport := t', ss_stream := st\<rparr>"
    by (auto simp: send_plaintext_def op_bind_eq_Inr on_transport_def on_stream_def split: sum.splits prod.splits)
  note out = write_binary_frame_ok [OF c(2)]
  have "\<exists>r'. receive_plaintext N r = (Inr m, r') \<and> expects R t' rest r'" if r: "expects R (ss_transport s) (frame_bytes c @ rest) r" for r rest
  proof -
    from r have R: "R (ss_transport s) (ss_transport r)" "st_in (ss_stream r) = frame_bytes c @ rest" by (simp_all add: expects_def)
    with assms(1) c(1) obtain u' where u: "length c = length m + 16" "nz_decrypt N (ss_transport r) c = Inr (m, u')" "R t' u'"
      unfolding ciphers_agree_def by blast
    have "c \<noteq> []" using u(1) by auto
    then have "read_binary_frame max_ciphertext_frame (ss_stream r) = (Inr c, (ss_stream r)\<lparr>st_in := rest\<rparr>)"
      using read_binary_frame_bytes [OF R(2)] out u(1) assms(3,4) by (auto simp: max_plaintext_frame_def max_ciphertext_frame_def)
    with u show ?thesis by (simp add: receive_plaintext_def on_stream_def on_transport_def expects_def)
  qed
  with out c(3) show ?thesis by auto
qed

lemma read_chunks_step:
  assumes "receive_plaintext N r = (Inr c, r1)" "c \<noteq> []" "length payload + length c \<le> sz"
  shows "read_payload_chunks N sz payload r = read_payload_chunks N sz (payload @ c) r1"
proof -
  have "length payload < sz" using assms(2,3) by (cases c) auto
  with assms show ?thesis by (subst read_payload_chunks.simps) auto
qed

lemma send_chunks_received:
  assumes "ciphers_agree N R" "send_chunks N cs s = (Inr (), s')" "\<forall>c \<in> set cs. c \<noteq> [] \<and> length c \<le> max_plaintext_frame"
  shows "\<exists>bs. st_out (ss_stream s') = st_out (ss_stream s) @ bs \<and> (\<forall>r rest payload. expects R (ss_transport s) (bs @ rest) r \<longrightarrow>
    (\<exists>r'. read_payload_chunks N (length payload + length (concat cs)) payload r = (Inr (payload @ concat cs), r') \<and> expects R (ss_transport s') rest r'))"
  using assms(2,3)
proof (induction cs arbitrary: s)
  case Nil
  then show ?case by (auto simp: read_payload_chunks.simps)
next
  case (Cons c cs)
  then obtain s1 where s1: "send_plaintext N c s = (Inr (), s1)" "send_chunks N cs s1 = (Inr (), s')" by (auto simp: op_bind_eq_Inr)
  from send_plaintext_received [OF assms(1) s1(1)] Cons.prems(2) obtain b1 where
    b1: "st_out (ss_stream s1) = st_out (ss_stream s) @ b1" and
    r1: "\<And>r rest. expects R (ss_transport s) (b1 @ rest) r \<Longrightarrow> \<exists>r'. receive_plaintext N r = (Inr c, r') \<and> expects R (ss_transport s1) rest r'"
    by auto
  from Cons.IH [OF s1(2)] Cons.prems(2) obtain b2 where
    b2: "st_out (ss_stream s') = st_out (ss_stream s1) @ b2" and
    r2: "\<And>r rest payload. expects R (ss_transport s1) (b2 @ rest) r \<Longrightarrow> \<exists>r'. read_payload_chunks N (length payload + length (concat cs)) payload r
      = (Inr (payload @ concat cs), r') \<and> expects R (ss_transport s') rest r'" by auto
  have "\<exists>r'. read_payload_chunks N (length payload + length (concat (c # cs))) payload r = (Inr (payload @ concat (c # cs)), r') \<and>
      expects R (ss_transport s') rest r'" if r: "expects R (ss_transport s) ((b1 @ b2) @ rest) r" for r rest payload
  proof -
    from r1 [of "b2 @ rest" r] r obtain q where q: "receive_plaintext N r = (Inr c, q)" "expects R (ss_transport s1) (b2 @ rest) q" by auto
    from read_chunks_step [OF q(1), of payload] Cons.prems(2)
    have "read_payload_chunks N (length payload + length (concat (c # cs))) payload r =
      read_payload_chunks N (length (payload @ c) + length (concat cs)) (payload @ c) q" by (simp add: add.assoc)
    with r2 [OF q(2), of "payload @ c"] show ?thesis by simp
  qed
  with b1 b2 show ?case by (intro exI [of _ "b1 @ b2"]) auto
qed

lemma payload_received:
  assumes "ciphers_agree N R" "write_payload N payload s = (Inr (), s')" "length payload \<le> max_transfer"
  shows "\<exists>bs. st_out (ss_stream s') = st_out (ss_stream s) @ bs \<and> (\<forall>r rest. expects R (ss_transport s) (bs @ rest) r \<longrightarrow>
    (\<exists>r'. read_payload N (of_nat (length payload)) r = (Inr payload, r') \<and> expects R (ss_transport s') rest r'))"
proof -
  have pos: "0 < max_plaintext_frame" by (simp add: max_plaintext_frame_def max_ciphertext_frame_def)
  have sz: "unat (of_nat (length payload) :: u64) = length payload"
    using assms(3) by (simp add: unsigned_of_nat take_bit_nat_eq_self max_transfer_def)
  have "\<forall>c \<in> set (chunks max_plaintext_frame payload). c \<noteq> [] \<and> length c \<le> max_plaintext_frame"
    using chunks_bounds [OF pos] by blast
  from send_chunks_received [OF assms(1) assms(2) [unfolded write_payload_def] this] obtain bs where bs: "st_out (ss_stream s') = st_out (ss_stream s) @ bs"
    "\<And>r rest p. expects R (ss_transport s) (bs @ rest) r \<Longrightarrow> \<exists>r'. read_payload_chunks N (length p + length payload) p r = (Inr (p @ payload), r') \<and>
      expects R (ss_transport s') rest r'" by (auto simp: concat_chunks [OF pos])
  from bs(1) bs(2) [where p = "[]"] sz assms(3) show ?thesis by (auto simp: read_payload_def)
qed

text \<open>
  C28: data of up to 256 MiB sent over the encrypted channel without an error arrive: reading as many bytes as were
  announced gives exactly the data, leaves what was sent after them, and the two ends still agree.
  Any cut into frames the sender makes is put together again.
\<close>

theorem payload_roundtrip:
  assumes "ciphers_agree N R" "write_payload N payload s = (Inr (), s')" "length payload \<le> max_transfer"
  shows "\<exists>bs. st_out (ss_stream s') = st_out (ss_stream s) @ bs \<and> (\<forall>r rest. expects R (ss_transport s) (bs @ rest) r \<longrightarrow>
    (\<exists>r'. read_payload N (of_nat (length payload)) r = (Inr payload, r') \<and> expects R (ss_transport s') rest r'))"
  using assms by (rule payload_received)

text \<open>A message that was sent is read as it was, and what was sent after it is left.\<close>

lemma message_received:
  assumes "ciphers_agree N R" "json_ok J" "secure_write N J v s = (Inr (), s')"
  shows "\<exists>bs. st_out (ss_stream s') = st_out (ss_stream s) @ bs \<and> (\<forall>r rest. expects R (ss_transport s) (bs @ rest) r \<longrightarrow>
    (\<exists>r'. secure_read N J r = (Inr v, r') \<and> expects R (ss_transport s') rest r'))"
proof -
  from assms(3) obtain m where m: "to_json J v = Inr m" "m \<noteq> []" "length m \<le> max_plaintext_frame" "send_plaintext N m s = (Inr (), s')"
    unfolding secure_write_def by (cases "to_json J v") (auto split: if_splits)
  have "from_json J m = Inr v" using assms(2) m(1) by (auto simp: json_ok_def)
  with m(2,3) have "secure_read N J r = (Inr v, r')" if "receive_plaintext N r = (Inr m, r')" for r r'
    using that by (simp add: secure_read_def op_bind_def)
  with send_plaintext_received [OF assms(1) m(4,2,3)] show ?thesis by blast
qed

lemma receive_plaintext_out: "receive_plaintext N s = (r, s') \<Longrightarrow> st_out (ss_stream s') = st_out (ss_stream s)"
  unfolding receive_plaintext_def read_binary_frame_def read_exact_def on_stream_def on_transport_def op_bind_def op_lift_def Let_def
  by (auto split: prod.splits sum.splits if_splits)

lemma secure_read_out: "secure_read N J s = (r, s') \<Longrightarrow> st_out (ss_stream s') = st_out (ss_stream s)"
  unfolding secure_read_def op_bind_def op_lift_def by (auto split: prod.splits sum.splits if_splits dest!: receive_plaintext_out)

text \<open>Sending does not touch what is there to be read.\<close>

lemma write_all_in: "write_all bs st = (r, st') \<Longrightarrow> st_in st' = st_in st"
  by (auto simp: write_all_def split: list.splits io_outcome.splits)

lemma write_frame_in: "write_frame J v st = (r, st') \<Longrightarrow> st_in st' = st_in st"
  unfolding write_frame_def flush_def op_bind_def op_lift_def
  by (auto split: prod.splits sum.splits if_splits dest!: write_all_in)

lemma write_binary_frame_in: "write_binary_frame bs st = (r, st') \<Longrightarrow> st_in st' = st_in st"
  unfolding write_binary_frame_def flush_def op_bind_def op_lift_def
  by (auto split: prod.splits sum.splits if_splits dest!: write_all_in)

lemma secure_write_in: "secure_write N J v s = (r, s') \<Longrightarrow> st_in (ss_stream s') = st_in (ss_stream s)"
  unfolding secure_write_def send_plaintext_def on_stream_def on_transport_def op_bind_def op_lift_def Let_def
  by (auto split: prod.splits sum.splits if_splits dest!: write_binary_frame_in)

definition demo_noise :: "(unit, nat) noise" where
  "demo_noise = \<lparr>nz_initiator = (\<lambda>_. Inr ()), nz_responder = (\<lambda>_. Inr ()), nz_hs_write = (\<lambda>h. Inr ([1], h)), nz_hs_read = (\<lambda>h _. Inr h),
     nz_remote_static = (\<lambda>_. None), nz_transport = (\<lambda>_. Inr 0),
     nz_encrypt = (\<lambda>t m. Inr (m @ replicate 16 (of_nat t), Suc t)),
     nz_decrypt = (\<lambda>t c. if drop (length c - 16) c = replicate 16 (of_nat t) then Inr (take (length c - 16) c, Suc t) else Inl ''decrypt error'')\<rparr>"

definition demo_stream :: "bytes \<Rightarrow> nat \<Rightarrow> nat secure_stream" where
  "demo_stream bs t = \<lparr>ss_stream = \<lparr>st_in = bs, st_out = [], st_faults = []\<rparr>, ss_transport = t, ss_remote = DeviceId ''device.a''\<rparr>"

theorem payload_roundtrip_witness:
  "\<exists>s' bs r'. write_payload demo_noise [1, 2, 3] (demo_stream [] 5) = (Inr (), s') \<and> st_out (ss_stream s') = bs \<and>
    read_payload demo_noise 3 (demo_stream (bs @ [9]) 5) = (Inr [1, 2, 3], r') \<and> st_in (ss_stream r') = [9]"
proof -
  have "chunks max_plaintext_frame [1, 2, 3] = [[1, 2, 3 :: byte]]"
    by (simp add: chunks_step max_plaintext_frame_def max_ciphertext_frame_def)
  then have "fst (write_payload demo_noise [1, 2, 3] (demo_stream [] 5)) = Inr ()"
    by (simp add: write_payload_def send_plaintext_def demo_noise_def demo_stream_def on_transport_def on_stream_def
        write_binary_frame_def u32_try_from_def write_all_def flush_def op_bind_def)
  then obtain s' where run: "write_payload demo_noise [1, 2, 3] (demo_stream [] 5) = (Inr (), s')" by (metis prod.collapse)
  have "ciphers_agree demo_noise (=)" by (auto simp: ciphers_agree_def demo_noise_def)
  from payload_roundtrip [OF this run] obtain bs where bs: "st_out (ss_stream s') = bs"
    "\<And>r rest. expects (=) 5 (bs @ rest) r \<Longrightarrow> \<exists>r'. read_payload demo_noise 3 r = (Inr [1, 2, 3], r') \<and> expects (=) (ss_transport s') rest r'"
    by (auto simp: max_transfer_def demo_stream_def)
  have "expects (=) 5 (bs @ [9]) (demo_stream (bs @ [9]) 5)" by (simp add: expects_def demo_stream_def)
  from bs(2) [OF this] bs(1) run show ?thesis by (auto simp: expects_def)
qed

text \<open>A connection is only used if the static key the handshake authenticated is that of the expected device.\<close>

lemma secure_connect_authenticates:
  assumes "secure_connect N sha256 tcp identity expected_remote = Inr s"
  shows "ss_remote s = expected_remote \<and> (\<exists>h key. nz_remote_static N h = Some key \<and> length key = 32 \<and>
    the (public_key_device_id sha256 \<lparr>pk_bytes = key\<rparr>) = expected_remote)"
proof -
  from assms obtain st h0 where *: "(let (result, st1) = initiate N sha256 expected_remote h0 st in
      res_bind result (\<lambda>t. Inr \<lparr>ss_stream = st1, ss_transport = t, ss_remote = expected_remote\<rparr>)) = Inr s"
    by (auto simp: secure_connect_def)
  obtain q st1 where q: "initiate N sha256 expected_remote h0 st = (q, st1)" by fastforce
  with * obtain t where "initiate N sha256 expected_remote h0 st = (Inr t, st1)" and s: "ss_remote s = expected_remote" by auto
  then obtain h2 remote st2 where remote: "remote_device_id N sha256 h2 = Inr remote"
    "(if remote \<noteq> expected_remote then op_lift (Inl (PeerIdentityMismatch expected_remote remote))
      else op_bind (send_handshake N h2) (\<lambda>h3. op_lift (noise_err (nz_transport N h3)))) st2 = (Inr t, st1)"
    unfolding initiate_def op_bind_eq_Inr op_lift_simps by blast
  then have "remote = expected_remote" by (cases "remote = expected_remote") simp_all
  with remote(1) s show ?thesis
    by (auto simp: remote_device_id_def try_from_slice_def public_key_length_def split: if_splits)
qed

end
