(* ===== verification/Presence.thy ===== *)
theory Presence
  imports Wire
begin

section \<open>The presence table\<close>

text \<open>
  \<open>presence.rs\<close>: what an agent last saw of each member, in memory only. Readings of the clock are
  arguments; \<open>sync_members\<close> reads it once for each entry of the device itself, by position in the
  list of members.
\<close>

record presence_table =
  pt_records :: "(device_id, presence_record) btree_map"
  pt_poisoned :: bool

type_synonym 'a presence_op = "(presence_table, transport_error, 'a) op"

definition presence_default :: presence_table where
  "presence_default = \<lparr>pt_records = [], pt_poisoned = False\<rparr>"

definition with_records ::
    "((device_id, presence_record) btree_map \<Rightarrow> 'a \<times> (device_id, presence_record) btree_map) \<Rightarrow> 'a presence_op" where
  "with_records f t = (if pt_poisoned t then (Inl StateConflict, t)
     else (let (x, records) = f (pt_records t) in (Inr x, t\<lparr>pt_records := records\<rparr>)))"

definition sync_member ::
    "device_id \<Rightarrow> u64 \<Rightarrow> cluster_member \<Rightarrow> (device_id, presence_record) btree_map \<Rightarrow> (device_id, presence_record) btree_map" where
  "sync_member local_device now member records =
     (let here = (mb_device_id member = local_device);
          default_state = (if here then PresenceOnline else PresenceUnknown);
          record0 = (case map_of records (mb_device_id member) of
              Some r \<Rightarrow> r
            | None \<Rightarrow> \<lparr>prs_member = member, prs_state = default_state,
                prs_observed_at_millis = (if default_state = PresenceOnline then Some now else None)\<rparr>);
          record1 = record0\<lparr>prs_member := member\<rparr>;
          record2 = (if here then record1\<lparr>prs_state := PresenceOnline, prs_observed_at_millis := Some now\<rparr> else record1)
      in bt_insert (mb_device_id member) record2 records)"

definition sync_members :: "(nat \<Rightarrow> u64) \<Rightarrow> cluster_member list \<Rightarrow> device_id \<Rightarrow> unit presence_op" where
  "sync_members clock members local_device = with_records (\<lambda>records.
     ((), fold (\<lambda>(i, member). sync_member local_device (clock i) member) (enumerate 0 members)
       (bt_retain (\<lambda>d. list_ex (\<lambda>member. mb_device_id member = d) members) records)))"

definition observe :: "u64 \<Rightarrow> cluster_member \<Rightarrow> presence_state \<Rightarrow> unit presence_op" where
  "observe now member state = with_records (\<lambda>records.
     ((), bt_insert (mb_device_id member)
       \<lparr>prs_member = member, prs_state = state, prs_observed_at_millis = Some now\<rparr> records))"

definition presence_snapshot :: "presence_record list presence_op" where
  "presence_snapshot = with_records (\<lambda>records. (bt_values records, records))"

subsection \<open>The table mirrors the roster\<close>

definition presence_ok :: "presence_table \<Rightarrow> bool" where
  "presence_ok t \<longleftrightarrow> bt_ok (pt_records t) \<and> (\<forall>d r. map_of (pt_records t) d = Some r \<longrightarrow> mb_device_id (prs_member r) = d)"

lemma with_records_eq_Inr:
  "with_records f t = (Inr x, t') \<longleftrightarrow> \<not> pt_poisoned t \<and> (\<exists>m. f (pt_records t) = (x, m) \<and> t' = t\<lparr>pt_records := m\<rparr>)"
  by (auto simp: with_records_def split: prod.splits)

lemma with_records_Inl: "with_records f t = (Inl e, t') \<Longrightarrow> t' = t"
  by (auto simp: with_records_def split: if_splits prod.splits)

lemma bt_ok_sync_member [simp]: "bt_ok m \<Longrightarrow> bt_ok (sync_member l now member m)"
  by (simp add: sync_member_def Let_def)

lemma sync_member_other: "d \<noteq> mb_device_id member \<Longrightarrow> map_of (sync_member l now member m) d = map_of m d"
  by (simp add: sync_member_def Let_def)

lemma sync_member_self:
  "\<exists>r. map_of (sync_member l now member m) (mb_device_id member) = Some r \<and> prs_member r = member \<and>
     (mb_device_id member = l \<longrightarrow> prs_state r = PresenceOnline) \<and>
     (mb_device_id member \<noteq> l \<longrightarrow> prs_state r = (case map_of m (mb_device_id member) of None \<Rightarrow> PresenceUnknown | Some q \<Rightarrow> prs_state q))"
  by (auto simp: sync_member_def Let_def split: option.splits)

abbreviation sync_steps ::
    "device_id \<Rightarrow> (nat \<Rightarrow> u64) \<Rightarrow> (nat \<times> cluster_member) list \<Rightarrow> (device_id, presence_record) btree_map \<Rightarrow>
     (device_id, presence_record) btree_map" where
  "sync_steps l clock \<equiv> fold (\<lambda>(i, member). sync_member l (clock i) member)"

lemma sync_steps_ok [simp]: "bt_ok m \<Longrightarrow> bt_ok (sync_steps l clock xs m)"
  by (induction xs arbitrary: m) auto

lemma sync_steps_other: "d \<notin> mb_device_id ` snd ` set xs \<Longrightarrow> map_of (sync_steps l clock xs m) d = map_of m d"
  by (induction xs arbitrary: m) (auto simp: sync_member_other)

lemma sync_steps_self:
  assumes "distinct (map (mb_device_id \<circ> snd) xs)" "(i, member) \<in> set xs"
  shows "\<exists>r. map_of (sync_steps l clock xs m) (mb_device_id member) = Some r \<and> prs_member r = member \<and>
     (mb_device_id member = l \<longrightarrow> prs_state r = PresenceOnline) \<and>
     (mb_device_id member \<noteq> l \<longrightarrow> prs_state r = (case map_of m (mb_device_id member) of None \<Rightarrow> PresenceUnknown | Some q \<Rightarrow> prs_state q))"
  using assms
proof (induction xs arbitrary: m)
  case (Cons x xs)
  obtain j y where x: "x = (j, y)" by fastforce
  show ?case
  proof (cases "(i, member) = x")
    case True
    with Cons.prems(1) have "mb_device_id member \<notin> mb_device_id ` snd ` set xs" by (auto simp: image_iff)
    with True sync_member_self [of l "clock i" member m] show ?thesis by (auto simp: sync_steps_other)
  next
    case False
    with Cons.prems x have "(i, member) \<in> set xs" "mb_device_id member \<noteq> mb_device_id y"
      by (auto simp: image_iff)
    with Cons.IH [of "sync_member l (clock j) y m"] Cons.prems(1) x show ?thesis by (simp add: sync_member_other)
  qed
qed simp

lemma enumerate_devices: "map (f \<circ> snd) (enumerate n xs) = map f xs"
  by (simp flip: map_map)

text \<open>
  After a synchronisation with a roster the table has exactly one record for each member, which carries
  that member's current data; the device itself is online, and others keep the state they were last seen in.
\<close>

lemma sync_members_mirror:
  assumes "sync_members clock members l t = (Inr (), t')" "presence_ok t" "distinct (map mb_device_id members)"
  shows "presence_ok t' \<and> (\<forall>d. d \<in> set (bt_keys (pt_records t')) \<longleftrightarrow> d \<in> mb_device_id ` set members) \<and>
    (\<forall>member \<in> set members. \<exists>r. map_of (pt_records t') (mb_device_id member) = Some r \<and> prs_member r = member \<and>
       prs_state r = (if mb_device_id member = l then PresenceOnline
         else case map_of (pt_records t) (mb_device_id member) of None \<Rightarrow> PresenceUnknown | Some q \<Rightarrow> prs_state q))"
proof -
  let ?keep = "\<lambda>d. list_ex (\<lambda>member. mb_device_id member = d) members"
  let ?m = "bt_retain ?keep (pt_records t)"
  have t': "t' = t\<lparr>pt_records := sync_steps l clock (enumerate 0 members) ?m\<rparr>"
    using assms(1) by (auto simp: sync_members_def with_records_eq_Inr)
  have ids: "mb_device_id ` snd ` set (enumerate 0 members) = mb_device_id ` set members"
    by (metis (no_types) image_set map_snd_enumerate)
  have ok: "bt_ok (pt_records t')" using assms(2) by (simp add: t' presence_ok_def)
  have self: "\<exists>r. map_of (pt_records t') (mb_device_id member) = Some r \<and> prs_member r = member \<and>
       prs_state r = (if mb_device_id member = l then PresenceOnline
         else case map_of (pt_records t) (mb_device_id member) of None \<Rightarrow> PresenceUnknown | Some q \<Rightarrow> prs_state q)"
    if "member \<in> set members" for member
  proof -
    from that have "member \<in> snd ` set (enumerate 0 members)" by (metis list.set_map map_snd_enumerate)
    then obtain i where "(i, member) \<in> set (enumerate 0 members)" by force
    moreover have "?keep (mb_device_id member)" using that by (auto simp: list_ex_iff)
    ultimately show ?thesis
      using sync_steps_self [of "enumerate 0 members" i member l clock ?m] assms(3) by (auto simp: enumerate_devices t')
  qed
  have other: "map_of (pt_records t') d = None" if "d \<notin> mb_device_id ` set members" for d
    using that by (auto simp: t' sync_steps_other ids list_ex_iff)
  have keys: "d \<in> set (bt_keys (pt_records t')) \<longleftrightarrow> d \<in> mb_device_id ` set members" for d
    using self other [of d] by (metis (no_types, lifting) image_iff list.set_map map_of_eq_None_iff option.distinct(1))
  have "mb_device_id (prs_member r) = d" if "map_of (pt_records t') d = Some r" for d r
    using that self other [of d] by (metis image_iff option.distinct(1) option.inject)
  with ok keys self show ?thesis by (auto simp: presence_ok_def)
qed

lemma observe_ok:
  assumes "observe now member state t = (Inr (), t')" "presence_ok t"
  shows "presence_ok t' \<and> map_of (pt_records t') = (map_of (pt_records t))(mb_device_id member \<mapsto>
    \<lparr>prs_member = member, prs_state = state, prs_observed_at_millis = Some now\<rparr>)"
  using assms by (auto simp: observe_def with_records_eq_Inr presence_ok_def)

end
