(* ===== verification/Agent.thy ===== *)
theory Agent
  imports Cluster_Store Presence
begin

section \<open>The agent's handlers\<close>

text \<open>
  \<open>agent.rs\<close>: what an agent does with a request, local or from a peer, and the presence pass. The
  state of a process is \<open>agent\<close>: its disk, presence table, the content it serves, the network as
  its connections see it and the counters of the two fault injections. Each \<open>store.update\<close> closure is
  an edit of the state, a definition of its own. Random identifiers drawn in a call are \<open>rng 0\<close>,
  \<open>rng 1\<close>, \<open>\<dots>\<close>; clock readings are arguments.
\<close>

record ('c, 'n) agent =
  ag_disk :: disk
  ag_presence :: presence_table
  ag_content :: 'c
  ag_net :: 'n
  ag_failed_commits :: nat
  ag_dropped_responses :: nat

type_synonym ('c, 'n, 'a) agent_op = "(('c, 'n) agent, transport_error, 'a) op"

definition on_disk :: "'a disk_op \<Rightarrow> ('c, 'n, 'a) agent_op" where
  "on_disk m w = (let (r, d) = m (ag_disk w) in (r, w\<lparr>ag_disk := d\<rparr>))"

definition on_presence :: "'a presence_op \<Rightarrow> ('c, 'n, 'a) agent_op" where
  "on_presence m w = (let (r, t) = m (ag_presence w) in (r, w\<lparr>ag_presence := t\<rparr>))"

definition on_content :: "('c, transport_error, 'a) op \<Rightarrow> ('c, 'n, 'a) agent_op" where
  "on_content m w = (let (r, c) = m (ag_content w) in (r, w\<lparr>ag_content := c\<rparr>))"

definition on_net :: "('n, transport_error, 'a) op \<Rightarrow> ('c, 'n, 'a) agent_op" where
  "on_net m w = (let (r, n) = m (ag_net w) in (r, w\<lparr>ag_net := n\<rparr>))"

record agent_env =
  ae_store :: cluster_store
  ae_json :: "agent_state json_codec"
  ae_tokens :: token_codec
  ae_sha256 :: hash_function

abbreviation agent_load :: "agent_env \<Rightarrow> agent_state disk_op" where
  "agent_load A \<equiv> cluster_load (ae_json A) (ae_store A)"

abbreviation agent_update :: "agent_env \<Rightarrow> 'a edit \<Rightarrow> 'a disk_op" where
  "agent_update A \<equiv> cluster_update (ae_json A) (ae_store A)"

type_synonym rng = "nat \<Rightarrow> uuid"

subsection \<open>Validation\<close>

definition validate_cluster_name :: "string \<Rightarrow> string tr_result" where
  "validate_cluster_name name = (let name = str_trim name in
     if bad_name name then Inl (InvalidMessage ''cluster name must be 1-128 printable characters'') else Inr name)"

definition validate_member :: "cluster_member \<Rightarrow> unit tr_result" where
  "validate_member member =
     (if str_trim (mb_device_name member) = [] \<or> length (mb_device_name member) > 128 \<or> any_control (mb_device_name member)
      then Inl (InvalidMessage ''device name must be 1-128 printable characters'')
      else if is_unspecified (sa_ip (mb_endpoint member)) \<or> sa_port (mb_endpoint member) = 0
      then Inl (InvalidMessage ''member endpoint must be reachable'')
      else Inr ())"

definition loopback_endpoint :: "socket_addr \<Rightarrow> socket_addr" where
  "loopback_endpoint endpoint = (if is_unspecified (sa_ip endpoint)
     then endpoint\<lparr>sa_ip := (case sa_ip endpoint of Ipv4 _ \<Rightarrow> ipv4_localhost | Ipv6 _ \<Rightarrow> ipv6_localhost)\<rparr>
     else endpoint)"

definition advertised_endpoint :: "socket_addr option \<Rightarrow> socket_addr \<Rightarrow> socket_addr tr_result" where
  "advertised_endpoint configured bound =
     (let endpoint = (case configured of Some e \<Rightarrow> e | None \<Rightarrow> loopback_endpoint bound) in
      if is_unspecified (sa_ip endpoint)
      then Inl (InvalidMessage ''advertised endpoint cannot use an unspecified address'')
      else Inr (if sa_port endpoint = 0 then endpoint\<lparr>sa_port := sa_port bound\<rparr> else endpoint))"

subsection \<open>The coordinator's cluster\<close>

definition create_cluster_edit ::
    "agent_env \<Rightarrow> rng \<Rightarrow> u64 \<Rightarrow> socket_addr \<Rightarrow> string \<Rightarrow> string \<Rightarrow> (cluster_summary \<times> string) edit" where
  "create_cluster_edit A rng now endpoint name own_credential state =
     (if ags_cluster state \<noteq> None then Inl AlreadyInCluster
      else if ags_pending_join state \<noteq> None then Inl StateConflict
      else (let cluster = ClusterId (rng 2) in
        res_bind (invitation_encode (ae_tokens A)
            (invitation_new cluster (ags_device_id state) (new_secret (rng 3) (rng 4)))) (\<lambda>invite_token.
          let stored = \<lparr>scl_id = cluster, scl_name = name, scl_coordinator = endpoint,
             scl_coordinator_device_id = ags_device_id state, scl_role = Coordinator,
             scl_credential = own_credential, scl_invite_token = Some invite_token,
             scl_members = [\<lparr>stm_member = \<lparr>mb_device_id = ags_device_id state, mb_device_name = ags_device_name state,
                 mb_endpoint = endpoint, mb_joined_at_millis = now\<rparr>,
               stm_credential = own_credential, stm_credential_digest = credential_digest (ae_sha256 A) own_credential\<rparr>],
             scl_accepted_joins = []\<rparr>
          in Inr ((cluster_summary_of stored, invite_token), state\<lparr>ags_cluster := Some stored\<rparr>))))"

definition create_cluster :: "agent_env \<Rightarrow> rng \<Rightarrow> u64 \<Rightarrow> socket_addr \<Rightarrow> string \<Rightarrow> control_response disk_op" where
  "create_cluster A rng now endpoint name =
     op_bind (op_lift (validate_cluster_name name)) (\<lambda>name.
     op_bind (agent_update A (create_cluster_edit A rng now endpoint name (new_secret (rng 0) (rng 1)))) (\<lambda>(cluster, invite_token).
     op_lift (Inr (ClusterCreated cluster invite_token))))"

definition create_invite_edit :: "agent_env \<Rightarrow> rng \<Rightarrow> string edit" where
  "create_invite_edit A rng state =
     res_bind (ok_or (ags_cluster state) NotInCluster) (\<lambda>cluster.
       if scl_role cluster \<noteq> Coordinator then Inl NotCoordinator
       else res_bind (invitation_encode (ae_tokens A)
           (invitation_new (scl_id cluster) (scl_coordinator_device_id cluster) (new_secret (rng 0) (rng 1)))) (\<lambda>token.
         Inr (token, state\<lparr>ags_cluster := Some (cluster\<lparr>scl_invite_token := Some token\<rparr>)\<rparr>)))"

definition create_invite :: "agent_env \<Rightarrow> rng \<Rightarrow> control_response disk_op" where
  "create_invite A rng =
     op_bind (agent_update A (create_invite_edit A rng)) (\<lambda>invite_token. op_lift (Inr (InviteCreated invite_token)))"

definition accept_member_edit ::
    "agent_env \<Rightarrow> string \<Rightarrow> cluster_member \<Rightarrow> join_request_id \<Rightarrow> string \<Rightarrow>
     (cluster_summary \<times> string \<times> authorized_member list) edit" where
  "accept_member_edit A invite_token member request credential state =
     res_bind (ok_or (ags_cluster state) NotInCluster) (\<lambda>cluster.
       if scl_role cluster \<noteq> Coordinator then Inl NotCoordinator
       else (case find (\<lambda>accepted. aj_request_id accepted = request) (scl_accepted_joins cluster) of
          Some accepted \<Rightarrow>
            if aj_device_id accepted \<noteq> mb_device_id member then Inl InvalidInvite
            else Inr ((cluster_summary_of cluster, aj_credential accepted, authorized_members (ae_sha256 A) cluster), state)
        | None \<Rightarrow>
            if scl_invite_token cluster \<noteq> Some invite_token then Inl InvalidInvite
            else if list_ex (\<lambda>existing. mb_device_id (stm_member existing) = mb_device_id member) (scl_members cluster)
            then Inl AlreadyInCluster
            else (let cluster1 = cluster\<lparr>
                scl_members := scl_members cluster @ [\<lparr>stm_member = member, stm_credential = credential,
                  stm_credential_digest = credential_digest (ae_sha256 A) credential\<rparr>],
                scl_accepted_joins := scl_accepted_joins cluster @ [\<lparr>aj_request_id = request,
                  aj_device_id = mb_device_id member, aj_credential = credential\<rparr>],
                scl_invite_token := None\<rparr>
              in Inr ((cluster_summary_of cluster1, credential, authorized_members (ae_sha256 A) cluster1),
                   state\<lparr>ags_cluster := Some cluster1\<rparr>))))"

definition accept_member ::
    "agent_env \<Rightarrow> rng \<Rightarrow> string \<Rightarrow> cluster_member \<Rightarrow> join_request_id \<Rightarrow> device_id \<Rightarrow> control_response disk_op" where
  "accept_member A rng invite_token member request peer =
     op_bind (op_lift (validate_member member)) (\<lambda>_.
       if mb_device_id member \<noteq> peer then op_lift (Inl Unauthorized)
       else op_bind (agent_update A (accept_member_edit A invite_token member request (new_secret (rng 0) (rng 1))))
         (\<lambda>(cluster, credential, members). op_lift (Inr (JoinAccepted cluster credential members))))"

subsection \<open>Authorization\<close>

definition authorize_in_cluster ::
    "hash_function \<Rightarrow> stored_cluster \<Rightarrow> peer_authorization \<Rightarrow> device_id \<Rightarrow> cluster_member tr_result" where
  "authorize_in_cluster sha256 cluster authorization peer =
     (if pa_device_id authorization \<noteq> peer \<or> pa_cluster_id authorization \<noteq> scl_id cluster then Inl Unauthorized
      else ok_or (map_option stm_member (find (\<lambda>member.
          mb_device_id (stm_member member) = pa_device_id authorization \<and>
          expected_digest sha256 member = credential_digest sha256 (pa_credential authorization)) (scl_members cluster)))
        Unauthorized)"

definition authorize_peer :: "agent_env \<Rightarrow> peer_authorization \<Rightarrow> device_id \<Rightarrow> cluster_member disk_op" where
  "authorize_peer A authorization peer =
     op_bind (agent_load A) (\<lambda>state.
     op_bind (op_lift (ok_or (ags_cluster state) NotInCluster)) (\<lambda>cluster.
     op_lift (authorize_in_cluster (ae_sha256 A) cluster authorization peer)))"

definition remote_members :: "agent_env \<Rightarrow> peer_authorization \<Rightarrow> device_id \<Rightarrow> control_response disk_op" where
  "remote_members A authorization peer =
     op_bind (agent_load A) (\<lambda>state.
     op_bind (op_lift (ok_or (ags_cluster state) NotInCluster)) (\<lambda>cluster.
       if scl_role cluster \<noteq> Coordinator then op_lift (Inl NotCoordinator)
       else op_bind (op_lift (authorize_in_cluster (ae_sha256 A) cluster authorization peer)) (\<lambda>_.
         op_lift (Inr (MemberRoster (cluster_summary_of cluster) (authorized_members (ae_sha256 A) cluster))))))"

definition own_authorization :: "agent_state \<Rightarrow> stored_cluster \<Rightarrow> peer_authorization" where
  "own_authorization state cluster = \<lparr>pa_cluster_id = scl_id cluster, pa_device_id = ags_device_id state,
     pa_credential = scl_credential cluster\<rparr>"

subsection \<open>The roster of a member\<close>

definition store_roster_edit :: "cluster_summary \<Rightarrow> authorized_member list \<Rightarrow> unit edit" where
  "store_roster_edit summary members state =
     res_bind (ok_or (ags_cluster state) NotInCluster) (\<lambda>cluster.
       if scl_id cluster \<noteq> su_id summary \<or> scl_coordinator_device_id cluster \<noteq> su_coordinator_device_id summary
       then Inl Unauthorized
       else Inr ((), state\<lparr>ags_cluster := Some (cluster\<lparr>
         scl_name := su_name summary,
         scl_coordinator := su_coordinator summary,
         scl_members := map (\<lambda>member. \<lparr>stm_member = aum_member member,
             stm_credential = (if mb_device_id (aum_member member) = ags_device_id state then scl_credential cluster else []),
             stm_credential_digest = aum_credential_digest member\<rparr>) members\<rparr>)\<rparr>))"

definition store_roster :: "agent_env \<Rightarrow> cluster_summary \<Rightarrow> authorized_member list \<Rightarrow> unit disk_op" where
  "store_roster A summary members = agent_update A (store_roster_edit summary members)"

definition local_members :: "agent_env \<Rightarrow> 'n peer_channel \<Rightarrow> ('c, 'n, control_response) agent_op" where
  "local_members A C =
     op_bind (on_disk (agent_load A)) (\<lambda>state.
     op_bind (op_lift (ok_or (ags_cluster state) NotInCluster)) (\<lambda>cluster.
       if scl_role cluster = Coordinator
       then op_lift (Inr (Members (cluster_summary_of cluster) (public_members cluster)))
       else op_bind (on_net (send_request C (scl_coordinator cluster) (scl_coordinator_device_id cluster)
           (RemoteMembers (own_authorization state cluster)))) (\<lambda>response. case response of
             MemberRoster summary members \<Rightarrow>
               op_bind (on_disk (store_roster A summary members)) (\<lambda>_.
               op_lift (Inr (Members summary (map aum_member members))))
           | _ \<Rightarrow> op_lift (Inl (InvalidMessage ''coordinator returned an unexpected member roster response'')))))"

subsection \<open>Joining\<close>

definition begin_join_edit :: "rng \<Rightarrow> pairing_invitation \<Rightarrow> socket_addr \<Rightarrow> string \<Rightarrow> pending_join edit" where
  "begin_join_edit rng invitation coordinator invite_token state =
     (if ags_cluster state \<noteq> None then Inl AlreadyInCluster
      else (case ags_pending_join state of
          Some pending \<Rightarrow>
            if pj_coordinator pending = coordinator \<and> pj_invite_token pending = invite_token
            then Inr (pending, state) else Inl StateConflict
        | None \<Rightarrow>
            (let pending = \<lparr>pj_coordinator = coordinator, pj_invite_token = invite_token,
               pj_request_id = JoinRequestId (rng 0), pj_cluster_id = pin_cluster_id invitation,
               pj_coordinator_device_id = pin_coordinator_device_id invitation\<rparr>
             in Inr (pending, state\<lparr>ags_pending_join := Some pending\<rparr>))))"

definition abandon_join_edit :: "join_request_id \<Rightarrow> unit edit" where
  "abandon_join_edit request state = Inr ((), case ags_pending_join state of
     Some current \<Rightarrow> if pj_request_id current = request then state\<lparr>ags_pending_join := None\<rparr> else state
   | None \<Rightarrow> state)"

definition commit_join_edit ::
    "join_request_id \<Rightarrow> cluster_summary \<Rightarrow> string \<Rightarrow> authorized_member list \<Rightarrow> unit edit" where
  "commit_join_edit request cluster credential members state = (case ags_cluster state of
     Some existing \<Rightarrow>
       if scl_id existing = su_id cluster then Inr ((), state\<lparr>ags_pending_join := None\<rparr>) else Inl AlreadyInCluster
   | None \<Rightarrow>
       if (case ags_pending_join state of None \<Rightarrow> True | Some current \<Rightarrow> pj_request_id current \<noteq> request)
       then Inl StateConflict
       else Inr ((), state\<lparr>ags_cluster := Some \<lparr>scl_id = su_id cluster, scl_name = su_name cluster,
            scl_coordinator = su_coordinator cluster, scl_coordinator_device_id = su_coordinator_device_id cluster,
            scl_role = Member, scl_credential = credential, scl_invite_token = None,
            scl_members = map (\<lambda>member. \<lparr>stm_member = aum_member member, stm_credential = [],
              stm_credential_digest = aum_credential_digest member\<rparr>) members,
            scl_accepted_joins = []\<rparr>, ags_pending_join := None\<rparr>))"

text \<open>A refusal by the peer clears the pending request; other failures keep it for a retry.\<close>

definition is_refusal :: "transport_error \<Rightarrow> bool" where
  "is_refusal error = (case error of Remote _ _ \<Rightarrow> True | PeerIdentityMismatch _ _ \<Rightarrow> True | _ \<Rightarrow> False)"

definition request_join ::
    "agent_env \<Rightarrow> 'n peer_channel \<Rightarrow> socket_addr \<Rightarrow> pending_join \<Rightarrow> cluster_member \<Rightarrow> ('c, 'n, control_response) agent_op" where
  "request_join A C coordinator pending member w =
     (case on_net (send_request C coordinator (pj_coordinator_device_id pending)
         (RemoteJoin (pj_invite_token pending) member (pj_request_id pending))) w of
       (Inr response, w1) \<Rightarrow> (Inr response, w1)
     | (Inl error, w1) \<Rightarrow>
         if is_refusal error
         then op_bind (on_disk (agent_update A (abandon_join_edit (pj_request_id pending)))) (\<lambda>_. op_lift (Inl error)) w1
         else (Inl error, w1))"

definition injected_failure :: "('c, 'n, unit) agent_op" where
  "injected_failure w = (case ag_failed_commits w of
     0 \<Rightarrow> (Inr (), w)
   | Suc n \<Rightarrow> (Inl (Io \<lparr>io_kind = ConnectionAbortedKind, io_message = ''injected failure after coordinator accepted join''\<rparr>),
       w\<lparr>ag_failed_commits := n\<rparr>))"

definition finish_join :: "agent_env \<Rightarrow> pending_join \<Rightarrow> control_response \<Rightarrow> ('c, 'n, control_response) agent_op" where
  "finish_join A pending response = (case response of
     JoinAccepted cluster credential members \<Rightarrow>
       if su_id cluster \<noteq> pj_cluster_id pending \<or> su_coordinator_device_id cluster \<noteq> pj_coordinator_device_id pending
       then op_lift (Inl (PeerIdentityMismatch (pj_coordinator_device_id pending) (su_coordinator_device_id cluster)))
       else op_bind injected_failure (\<lambda>_.
         op_bind (on_disk (agent_update A (commit_join_edit (pj_request_id pending) cluster credential members))) (\<lambda>_.
         op_lift (Inr (Joined cluster))))
   | _ \<Rightarrow> op_lift (Inl (InvalidMessage ''coordinator returned an unexpected join response'')))"

definition own_member :: "agent_state \<Rightarrow> socket_addr \<Rightarrow> u64 \<Rightarrow> cluster_member" where
  "own_member state endpoint now = \<lparr>mb_device_id = ags_device_id state, mb_device_name = ags_device_name state,
     mb_endpoint = endpoint, mb_joined_at_millis = now\<rparr>"

definition join_cluster ::
    "agent_env \<Rightarrow> 'n peer_channel \<Rightarrow> rng \<Rightarrow> u64 \<Rightarrow> socket_addr \<Rightarrow> socket_addr \<Rightarrow> string \<Rightarrow> ('c, 'n, control_response) agent_op" where
  "join_cluster A C rng now endpoint coordinator invite_token =
     op_bind (op_lift (invitation_decode (ae_tokens A) invite_token)) (\<lambda>invitation.
     op_bind (on_disk (agent_load A)) (\<lambda>existing. case ags_cluster existing of
       Some cluster \<Rightarrow>
         if scl_coordinator cluster = coordinator \<and>
            scl_coordinator_device_id cluster = pin_coordinator_device_id invitation \<and>
            scl_id cluster = pin_cluster_id invitation
         then op_lift (Inr (Joined (cluster_summary_of cluster)))
         else op_lift (Inl AlreadyInCluster)
     | None \<Rightarrow>
         op_bind (on_disk (agent_update A (begin_join_edit rng invitation coordinator invite_token))) (\<lambda>pending.
         op_bind (on_disk (agent_load A)) (\<lambda>state.
         op_bind (request_join A C coordinator pending (own_member state endpoint now)) (\<lambda>response.
         finish_join A pending response)))))"

subsection \<open>Serving content to peers\<close>

text \<open>The trait \<open>PeerContentStore\<close>.\<close>

record 'c peer_content_store =
  pcs_get :: "string \<Rightarrow> ('c, transport_error, bytes) op"
  pcs_put :: "string \<Rightarrow> bytes \<Rightarrow> ('c, transport_error, unit) op"
  pcs_exists :: "string \<Rightarrow> ('c, transport_error, bool) op"

definition max_content_transfer_size :: u64 where
  "max_content_transfer_size = 268435456"

definition authorize_and_observe ::
    "agent_env \<Rightarrow> u64 \<Rightarrow> peer_authorization \<Rightarrow> device_id \<Rightarrow> ('c, 'n, unit) agent_op" where
  "authorize_and_observe A now authorization peer =
     op_bind (on_disk (authorize_peer A authorization peer)) (\<lambda>member.
     on_presence (observe now member PresenceOnline))"

text \<open>The last case is \<open>unreachable!\<close>: \<open>handle_remote\<close> takes it before.\<close>

definition dispatch_remote ::
    "agent_env \<Rightarrow> 'c peer_content_store option \<Rightarrow> rng \<Rightarrow> u64 \<Rightarrow> remote_request \<Rightarrow> device_id \<Rightarrow>
     ('c, 'n, control_response \<times> bytes option) agent_op" where
  "dispatch_remote A P rng now request peer = (case request of
     RemoteJoin invite_token member join_request \<Rightarrow>
       op_bind (on_disk (accept_member A rng invite_token member join_request peer)) (\<lambda>response. op_lift (Inr (response, None)))
   | RemoteMembers authorization \<Rightarrow>
       op_bind (on_disk (remote_members A authorization peer)) (\<lambda>response. op_lift (Inr (response, None)))
   | PresenceProbe authorization \<Rightarrow>
       op_bind (authorize_and_observe A now authorization peer) (\<lambda>_. op_lift (Inr (PresenceAck, None)))
   | ContentExists authorization cid \<Rightarrow>
       op_bind (authorize_and_observe A now authorization peer) (\<lambda>_.
       op_bind (op_lift (ok_or P PeerContentDisabled)) (\<lambda>content.
       op_bind (on_content (pcs_exists content cid)) (\<lambda>there.
       op_lift (Inr (ContentExistsReply there, None)))))
   | ContentGet authorization cid \<Rightarrow>
       op_bind (authorize_and_observe A now authorization peer) (\<lambda>_.
       op_bind (op_lift (ok_or P PeerContentDisabled)) (\<lambda>content.
       op_bind (on_content (pcs_get content cid)) (\<lambda>payload.
       op_bind (op_lift (ok_or (u64_try_from (length payload)) ContentTooLarge)) (\<lambda>sz.
         if sz > max_content_transfer_size then op_lift (Inl ContentTooLarge)
         else op_lift (Inr (ContentAvailable sz, Some payload))))))
   | ContentPut authorization cid sz \<Rightarrow>
       op_lift (Inl (InvalidMessage ''content put is handled before dispatch'')))"

text \<open>
  \<open>handle_content_put\<close> up to the answer \<open>ContentReady\<close>, and from the payload on. The payload is
  what \<open>read_payload\<close> returned.
\<close>

definition content_put_prepare ::
    "agent_env \<Rightarrow> 'c peer_content_store option \<Rightarrow> u64 \<Rightarrow> peer_authorization \<Rightarrow> u64 \<Rightarrow> device_id \<Rightarrow>
     ('c, 'n, 'c peer_content_store) agent_op" where
  "content_put_prepare A P now authorization sz peer =
     op_bind (authorize_and_observe A now authorization peer) (\<lambda>_.
     op_bind (op_lift (ok_or P PeerContentDisabled)) (\<lambda>content.
       if sz > max_content_transfer_size then op_lift (Inl ContentTooLarge) else op_lift (Inr content)))"

definition content_put_finish ::
    "'c peer_content_store \<Rightarrow> string \<Rightarrow> bytes tr_result \<Rightarrow> ('c, 'n) agent \<Rightarrow> control_response \<times> ('c, 'n) agent" where
  "content_put_finish content cid payload w =
     (case op_bind (op_lift payload) (\<lambda>bs. on_content (pcs_put content cid bs)) w of
       (Inr _, w1) \<Rightarrow> (ContentStored, w1)
     | (Inl error, w1) \<Rightarrow> (error_response error, w1))"

text \<open>What a connection does after the first message: answer and end, or answer \<open>ContentReady\<close> and take a payload.\<close>

datatype 'c reaction =
    Replies control_response "bytes option"
  | Silent
  | TakesPayload "'c peer_content_store" string u64

definition drop_response :: "remote_request \<Rightarrow> control_response \<Rightarrow> ('c, 'n) agent \<Rightarrow> bool \<times> ('c, 'n) agent" where
  "drop_response request response w =
     (case (request, response, ag_dropped_responses w) of
       (RemoteJoin _ _ _, JoinAccepted _ _ _, Suc n) \<Rightarrow> (True, w\<lparr>ag_dropped_responses := n\<rparr>)
     | _ \<Rightarrow> (False, w))"

definition handle_remote ::
    "agent_env \<Rightarrow> 'c peer_content_store option \<Rightarrow> rng \<Rightarrow> u64 \<Rightarrow> device_id \<Rightarrow> remote_request envelope tr_result \<Rightarrow>
     ('c, 'n) agent \<Rightarrow> 'c reaction \<times> ('c, 'n) agent" where
  "handle_remote A P rng now peer incoming w = (case incoming of
     Inl error \<Rightarrow> (Replies (error_response error) None, w)
   | Inr envelope \<Rightarrow>
       if env_version envelope \<noteq> protocol_version then (Replies (unsupported_version (env_version envelope)) None, w)
       else (case env_body envelope of
           ContentPut authorization cid sz \<Rightarrow>
             (case content_put_prepare A P now authorization sz peer w of
                (Inr content, w1) \<Rightarrow> (TakesPayload content cid sz, w1)
              | (Inl error, w1) \<Rightarrow> (Replies (error_response error) None, w1))
         | request \<Rightarrow>
             (case dispatch_remote A P rng now request peer w of
                (Inl error, w1) \<Rightarrow> (Replies (error_response error) None, w1)
              | (Inr (response, payload), w1) \<Rightarrow>
                  (let (dropped, w2) = drop_response request response w1 in
                   if dropped then (Silent, w2) else (Replies response payload, w2)))))"

subsection \<open>Local requests and the presence pass\<close>

definition dispatch_local ::
    "agent_env \<Rightarrow> 'n peer_channel \<Rightarrow> rng \<Rightarrow> u64 \<Rightarrow> socket_addr \<Rightarrow> local_request \<Rightarrow> ('c, 'n, control_response) agent_op" where
  "dispatch_local A C rng now endpoint request = (case request of
     LocalStatus \<Rightarrow> op_bind (on_disk (agent_load A)) (\<lambda>state. op_lift (Inr (Status (agent_status state))))
   | CreateCluster name \<Rightarrow> on_disk (create_cluster A rng now endpoint name)
   | CreateInvite \<Rightarrow> on_disk (create_invite A rng)
   | JoinCluster coordinator invite_token \<Rightarrow> join_cluster A C rng now endpoint coordinator invite_token
   | LocalMembers \<Rightarrow> local_members A C
   | LocalPresence \<Rightarrow> op_bind (on_presence presence_snapshot) (\<lambda>records. op_lift (Inr (Presence records))))"

definition handle_local ::
    "agent_env \<Rightarrow> 'n peer_channel \<Rightarrow> rng \<Rightarrow> u64 \<Rightarrow> socket_addr \<Rightarrow> local_request envelope tr_result \<Rightarrow>
     ('c, 'n) agent \<Rightarrow> control_response envelope \<times> ('c, 'n) agent" where
  "handle_local A C rng now endpoint incoming w = (case incoming of
     Inl error \<Rightarrow> (enveloped (error_response error), w)
   | Inr envelope \<Rightarrow>
       if env_version envelope = protocol_version
       then (case dispatch_local A C rng now endpoint (env_body envelope) w of
          (Inr response, w1) \<Rightarrow> (enveloped response, w1)
        | (Inl error, w1) \<Rightarrow> (enveloped (error_response error), w1))
       else (enveloped (unsupported_version (env_version envelope)), w))"

definition probe_member ::
    "'n peer_channel \<Rightarrow> u64 \<Rightarrow> peer_authorization \<Rightarrow> cluster_member \<Rightarrow> ('c, 'n, unit) agent_op" where
  "probe_member C now authorization member w =
     (let (result, w1) = on_net (send_request C (mb_endpoint member) (mb_device_id member) (PresenceProbe authorization)) w
      in on_presence (observe now member (if result = Inr PresenceAck then PresenceOnline else PresenceOffline)) w1)"

fun probe_members ::
    "'n peer_channel \<Rightarrow> (nat \<Rightarrow> u64) \<Rightarrow> peer_authorization \<Rightarrow> (nat \<times> cluster_member) list \<Rightarrow> ('c, 'n, unit) agent_op" where
  "probe_members C clock authorization [] = op_lift (Inr ())"
| "probe_members C clock authorization ((i, member) # members) =
     (if mb_device_id member = pa_device_id authorization then probe_members C clock authorization members
      else op_bind (probe_member C (clock i) authorization member) (\<lambda>_. probe_members C clock authorization members))"

definition refresh_roster :: "agent_env \<Rightarrow> 'n peer_channel \<Rightarrow> agent_state \<Rightarrow> stored_cluster \<Rightarrow> ('c, 'n, unit) agent_op" where
  "refresh_roster A C state cluster =
     (if scl_role cluster = Member
      then op_bind (on_net (send_request C (scl_coordinator cluster) (scl_coordinator_device_id cluster)
          (RemoteMembers (own_authorization state cluster)))) (\<lambda>response. case response of
            MemberRoster summary members \<Rightarrow> on_disk (store_roster A summary members)
          | _ \<Rightarrow> op_lift (Inr ()))
      else op_lift (Inr ()))"

definition reconcile_presence ::
    "agent_env \<Rightarrow> 'n peer_channel \<Rightarrow> (nat \<Rightarrow> u64) \<Rightarrow> (nat \<Rightarrow> u64) \<Rightarrow> ('c, 'n, unit) agent_op" where
  "reconcile_presence A C sync_clock probe_clock =
     op_bind (on_disk (agent_load A)) (\<lambda>state. case ags_cluster state of
       None \<Rightarrow> op_lift (Inr ())
     | Some cluster \<Rightarrow>
         op_bind (refresh_roster A C state cluster) (\<lambda>_.
         op_bind (on_disk (agent_load A)) (\<lambda>state.
         op_bind (op_lift (ok_or (ags_cluster state) NotInCluster)) (\<lambda>cluster.
         op_bind (on_presence (sync_members sync_clock (public_members cluster) (ags_device_id state))) (\<lambda>_.
         probe_members C probe_clock (own_authorization state cluster) (enumerate 0 (public_members cluster)))))))"

end
