(* ===== verification/Control_Client.thy ===== *)
theory Control_Client
  imports Framing Agent
begin

section \<open>The local control client and LAN discovery\<close>

text \<open>
  \<open>client.rs\<close>: what a user's program asks of the agent of this device, over frames on a local socket.
  \<open>discovery.rs\<close>: what \<open>discover\<close> makes of the packets it receives, and the announcement an agent
  sends. The socket and how a response prints itself are arguments.
\<close>

subsection \<open>Requests\<close>

definition local_connect_error :: "io_error \<Rightarrow> transport_error" where
  "local_connect_error error = (case io_kind error of
     ConnectionRefusedKind \<Rightarrow> AgentUnavailable
   | NotFoundKind \<Rightarrow> AgentUnavailable
   | _ \<Rightarrow> Io error)"

record control_codecs =
  cc_request :: "local_request envelope json_codec"
  cc_response :: "control_response envelope json_codec"

definition control_request :: "control_codecs \<Rightarrow> io_error + stream \<Rightarrow> local_request \<Rightarrow> control_response tr_result" where
  "control_request K connected request =
     res_bind (map_err local_connect_error connected) (\<lambda>st.
     fst (op_bind (write_frame (cc_request K) (enveloped request)) (\<lambda>_.
          op_bind (read_frame (cc_response K)) (\<lambda>response. op_lift (open_response response))) st))"

text \<open>
  A request is an effect on the agent at the other end: the typed requests run over a link, which sends one and
  gives the answer, and changes whatever is behind the socket.
\<close>

type_synonym 'n agent_link = "local_request \<Rightarrow> ('n, transport_error, control_response) op"

definition unexpected_response :: "(control_response \<Rightarrow> string) \<Rightarrow> control_response \<Rightarrow> 'a tr_result" where
  "unexpected_response debug response = Inl (InvalidMessage (''unexpected response: '' @ debug response))"

definition control_status :: "'n agent_link \<Rightarrow> (control_response \<Rightarrow> string) \<Rightarrow> ('n, transport_error, membership_status) op" where
  "control_status ask debug = op_bind (ask LocalStatus) (\<lambda>response. op_lift (case response of
     Status status \<Rightarrow> Inr status | response \<Rightarrow> unexpected_response debug response))"

definition control_create_cluster ::
    "'n agent_link \<Rightarrow> (control_response \<Rightarrow> string) \<Rightarrow> string \<Rightarrow> ('n, transport_error, cluster_summary \<times> string) op" where
  "control_create_cluster ask debug name = op_bind (ask (CreateCluster name)) (\<lambda>response. op_lift (case response of
     ClusterCreated cluster invite_token \<Rightarrow> Inr (cluster, invite_token) | response \<Rightarrow> unexpected_response debug response))"

definition control_create_invite :: "'n agent_link \<Rightarrow> (control_response \<Rightarrow> string) \<Rightarrow> ('n, transport_error, string) op" where
  "control_create_invite ask debug = op_bind (ask CreateInvite) (\<lambda>response. op_lift (case response of
     InviteCreated invite_token \<Rightarrow> Inr invite_token | response \<Rightarrow> unexpected_response debug response))"

definition control_join_cluster ::
    "'n agent_link \<Rightarrow> (control_response \<Rightarrow> string) \<Rightarrow> socket_addr \<Rightarrow> string \<Rightarrow> ('n, transport_error, cluster_summary) op" where
  "control_join_cluster ask debug coordinator invite_token = op_bind (ask (JoinCluster coordinator invite_token)) (\<lambda>response.
     op_lift (case response of Joined cluster \<Rightarrow> Inr cluster | response \<Rightarrow> unexpected_response debug response))"

definition control_members ::
    "'n agent_link \<Rightarrow> (control_response \<Rightarrow> string) \<Rightarrow> ('n, transport_error, cluster_summary \<times> cluster_member list) op" where
  "control_members ask debug = op_bind (ask LocalMembers) (\<lambda>response. op_lift (case response of
     Members cluster members \<Rightarrow> Inr (cluster, members) | response \<Rightarrow> unexpected_response debug response))"

definition control_presence :: "'n agent_link \<Rightarrow> (control_response \<Rightarrow> string) \<Rightarrow> ('n, transport_error, presence_record list) op" where
  "control_presence ask debug = op_bind (ask LocalPresence) (\<lambda>response. op_lift (case response of
     Presence records \<Rightarrow> Inr records | response \<Rightarrow> unexpected_response debug response))"

subsection \<open>Discovery\<close>

record discovery_announcement =
  dan_device_id :: device_id
  dan_device_name :: string
  dan_endpoint :: socket_addr
  dan_cluster :: "cluster_summary option"

record discovery_packet =
  dpk_magic :: string
  dpk_version :: u16
  dpk_announcement :: discovery_announcement

definition discovery_magic :: string where
  "discovery_magic = ''kubeweft-discovery-v3''"

text \<open>What a receive before the deadline gives: a packet, nothing in time, or an error.\<close>

datatype received = Received bytes | TimedOut | ReceiveFailed io_error

fun discover_loop ::
    "discovery_packet json_codec \<Rightarrow> received list \<Rightarrow> (device_id, discovery_announcement) btree_map \<Rightarrow>
     (device_id, discovery_announcement) btree_map tr_result" where
  "discover_loop J [] found = Inr found"
| "discover_loop J (TimedOut # rest) found = discover_loop J rest found"
| "discover_loop J (ReceiveFailed e # rest) found = Inl (Io e)"
| "discover_loop J (Received bs # rest) found = (case from_json J bs of
     Inl _ \<Rightarrow> discover_loop J rest found
   | Inr packet \<Rightarrow>
       if dpk_magic packet = discovery_magic \<and> dpk_version packet = protocol_version
       then discover_loop J rest (bt_insert (dan_device_id (dpk_announcement packet)) (dpk_announcement packet) found)
       else discover_loop J rest found)"

definition discover :: "discovery_packet json_codec \<Rightarrow> received list \<Rightarrow> discovery_announcement list tr_result" where
  "discover J packets = res_bind (discover_loop J packets []) (\<lambda>found. Inr (bt_values found))"

definition announcement_of :: "agent_state \<Rightarrow> socket_addr \<Rightarrow> discovery_announcement" where
  "announcement_of state endpoint = \<lparr>dan_device_id = ags_device_id state, dan_device_name = ags_device_name state,
     dan_endpoint = endpoint, dan_cluster = mst_cluster (agent_status state)\<rparr>"

text \<open>The three sends are given by their results; the announcement went out if one of them worked.\<close>

definition send_announcement ::
    "agent_env \<Rightarrow> discovery_packet json_codec \<Rightarrow> socket_addr \<Rightarrow> (bytes \<Rightarrow> io_error + unit) \<times> (bytes \<Rightarrow> io_error + unit) \<times> (bytes \<Rightarrow> io_error + unit)
     \<Rightarrow> unit disk_op" where
  "send_announcement A J endpoint sends =
     op_bind (agent_load A) (\<lambda>state.
     op_bind (op_lift (map_err InvalidMessage (to_json J \<lparr>dpk_magic = discovery_magic, dpk_version = protocol_version,
         dpk_announcement = announcement_of state endpoint\<rparr>))) (\<lambda>bs.
       op_lift (case sends of (multicast, broadcast, loopback) \<Rightarrow> (case (multicast bs, broadcast bs, loopback bs) of
           (Inl e, Inl _, Inl _) \<Rightarrow> Inl (Io e)
         | _ \<Rightarrow> Inr ()))))"

text \<open>
  What is found are announcements in packets of this protocol version; there is one for each device that sent
  one, in the order of the device identifiers, and it is the last one of that device.
\<close>

fun announced :: "discovery_packet json_codec \<Rightarrow> received list \<Rightarrow> discovery_announcement list" where
  "announced J [] = []"
| "announced J (Received bs # rest) = (case from_json J bs of
     Inr packet \<Rightarrow> if dpk_magic packet = discovery_magic \<and> dpk_version packet = protocol_version
       then dpk_announcement packet # announced J rest else announced J rest
   | Inl _ \<Rightarrow> announced J rest)"
| "announced J (_ # rest) = announced J rest"

lemma discover_loop_found:
  "discover_loop J packets found = Inr found' \<Longrightarrow>
    map_of found' = map_of found ++ map_of (rev (map (\<lambda>a. (dan_device_id a, a)) (announced J packets)))"
proof (induction J packets found rule: discover_loop.induct)
  case (4 J bs rest found)
  have upd: "map_of (bt_insert k a found) ++ map_of rs = map_of found ++ map_of (rs @ [(k, a)])" for k a rs
    by (rule ext) (simp add: map_add_def split: option.split)
  show ?case
  proof (cases "from_json J bs")
    case (Inr packet)
    show ?thesis
    proof (cases "dpk_magic packet = discovery_magic \<and> dpk_version packet = protocol_version")
      case True
      then have "discover_loop J rest (bt_insert (dan_device_id (dpk_announcement packet)) (dpk_announcement packet) found) = Inr found'"
        using "4.prems" Inr by simp
      from "4.IH"(2) [OF Inr True this] True Inr show ?thesis unfolding upd by simp
    next
      case False
      then have "discover_loop J rest found = Inr found'" using "4.prems" Inr by auto
      from "4.IH"(3) [OF Inr False this] False Inr show ?thesis by auto
    qed
  next
    case (Inl e)
    with 4 show ?thesis by simp
  qed
qed simp_all

lemma discover_loop_ok: "bt_ok found \<Longrightarrow> discover_loop J packets found = Inr found' \<Longrightarrow> bt_ok found'"
  by (induction J packets found rule: discover_loop.induct) (auto split: sum.splits if_splits)

lemma discover_last:
  assumes "discover J packets = Inr as"
  shows "sorted_wrt (<) (map dan_device_id as) \<and> set as \<subseteq> set (announced J packets) \<and>
    dan_device_id ` set as = dan_device_id ` set (announced J packets)"
proof -
  from assms obtain found where found: "discover_loop J packets [] = Inr found" "as = bt_values found" by (auto simp: discover_def)
  let ?m = "map_of (rev (map (\<lambda>a. (dan_device_id a, a)) (announced J packets)))"
  have ok: "bt_ok found" by (rule discover_loop_ok [OF _ found(1)]) simp
  have m: "map_of found = ?m" using discover_loop_found [OF found(1)] by simp
  have key: "dan_device_id a = k \<and> a \<in> set (announced J packets)" if "?m k = Some a" for k a
    using map_of_SomeD [OF that] by auto
  have entry: "dan_device_id a = k \<and> a \<in> set (announced J packets)" if "(k, a) \<in> set found" for k a
    using that key [of k a] unfolding m [symmetric] bt_get_iff [OF ok] by simp
  have ids: "map dan_device_id as = bt_keys found" unfolding found(2) by (simp add: case_prod_beta) (metis entry prod.collapse)
  have sub: "set as \<subseteq> set (announced J packets)" unfolding found(2) using entry by auto
  have "dan_device_id a \<in> dan_device_id ` set as" if "a \<in> set (announced J packets)" for a
  proof -
    have "dan_device_id a \<in> dom ?m" using that by (simp add: dom_map_of_conv_image_fst image_image)
    then have "dan_device_id a \<in> set (bt_keys found)" unfolding m [symmetric] by (simp add: dom_map_of_conv_image_fst)
    then show ?thesis unfolding ids [symmetric] by simp
  qed
  with sub have "dan_device_id ` set as = dan_device_id ` set (announced J packets)" by blast
  moreover have "sorted_wrt (<) (map dan_device_id as)" unfolding ids by (rule bt_ok_sorted [OF ok])
  ultimately show ?thesis using sub by blast
qed

end
