(* ===== verification/Command_Line.thy ===== *)
theory Command_Line
  imports Local_Service Control_Client
begin

section \<open>The command line\<close>

text \<open>
  \<open>apps/cli\<close>: what a command line means, what it does to the local filesystem or asks of the agent, and what
  it prints. The list of arguments is the state the parsing functions consume from the front. The environment, the
  standard input, the opened filesystem and the way to reach the agent are arguments, and so is how the library
  writes and reads socket addresses and cluster identifiers.
\<close>

datatype cli_error =
    Usage string
  | FilesystemFailure filesystem_error
  | TransportFailure transport_error
  | IoFailure io_error

type_synonym 'a arg_op = "(string list, cli_error, 'a) op"

subsection \<open>Arguments\<close>

definition take_os :: "string \<Rightarrow> string arg_op" where
  "take_os name arguments = (case arguments of
     [] \<Rightarrow> (Inl (Usage (''missing '' @ name)), [])
   | argument # rest \<Rightarrow> (Inr argument, rest))"

definition into_string :: "string \<Rightarrow> string \<Rightarrow> cli_error + string" where
  "into_string name argument = (if is_utf8 argument then Inr argument else Inl (Usage (name @ '' must be valid UTF-8'')))"

definition take_utf8 :: "string \<Rightarrow> string arg_op" where
  "take_utf8 name = op_bind (take_os name) (\<lambda>argument. op_lift (into_string name argument))"

definition ensure_empty :: "unit arg_op" where
  "ensure_empty arguments = (case arguments of
     [] \<Rightarrow> (Inr (), arguments)
   | argument # _ \<Rightarrow> (Inl (Usage (''unexpected argument: '' @ lossy argument)), arguments))"

definition optional_utf8 :: "string option arg_op" where
  "optional_utf8 arguments = (if arguments = [] then (Inr None, arguments)
     else op_bind (take_utf8 ''argument'') (\<lambda>argument. op_lift (Inr (Some argument))) arguments)"

definition single_path :: "string arg_op" where
  "single_path = op_bind (take_utf8 ''path'') (\<lambda>path. op_bind ensure_empty (\<lambda>_. op_lift (Inr path)))"

definition take_expected_generation :: "u64 option arg_op" where
  "take_expected_generation arguments = (case arguments of
     option # rest \<Rightarrow>
       if option = ''--expect''
       then op_bind (take_utf8 ''generation'') (\<lambda>value. op_lift (case parse_u64 value of
           None \<Rightarrow> Inl (Usage ''generation must be an unsigned integer'') | Some g \<Rightarrow> Inr (Some g))) rest
       else (Inr None, arguments)
   | [] \<Rightarrow> (Inr None, arguments))"

definition take_utf8_at :: "nat \<Rightarrow> string \<Rightarrow> string arg_op" where
  "take_utf8_at index name arguments = (into_string name (arguments ! index), remove_at index arguments)"

definition take_named_u64 :: "string \<Rightarrow> u64 option arg_op" where
  "take_named_u64 name arguments = (case position (\<lambda>argument. argument = name) arguments of
     None \<Rightarrow> (Inr None, arguments)
   | Some index \<Rightarrow> (let arguments = remove_at index arguments in
       if index \<ge> length arguments then (Inl (Usage (''missing value for '' @ name)), arguments)
       else op_bind (take_utf8_at index name) (\<lambda>value. op_lift (case parse_u64 value of
           None \<Rightarrow> Inl (Usage (''invalid value for '' @ name)) | Some n \<Rightarrow> Inr (Some n))) arguments))"

definition take_named_u16 :: "string \<Rightarrow> u16 option arg_op" where
  "take_named_u16 name = op_bind (take_named_u64 name) (\<lambda>value. op_lift (case value of
     None \<Rightarrow> Inr None
   | Some n \<Rightarrow> if unat n < 2 ^ 16 then Inr (Some (ucast n)) else Inl (Usage (''invalid value for '' @ name))))"

text \<open>The two variables of the environment, and how a relative path is appended to a directory.\<close>

record environment =
  env_data_dir :: "string option"
  env_home :: "string option"

definition push_path :: "string \<Rightarrow> string \<Rightarrow> string" where
  "push_path base relative = (if base = [] \<or> last base = CHR ''/'' then base @ relative else base @ CHR ''/'' # relative)"

definition default_data_directory :: "environment \<Rightarrow> string + string" where
  "default_data_directory env = (case env_data_dir env of
     Some path \<Rightarrow> Inr path
   | None \<Rightarrow> (case env_home env of
       None \<Rightarrow> Inl ''HOME is unset; pass --data-dir or set KUBEWEFT_DATA_DIR''
     | Some home \<Rightarrow> Inr (push_path home ''.local/share/kubeweft'')))"

definition take_data_directory :: "environment \<Rightarrow> string arg_op" where
  "take_data_directory env arguments =
     (if arguments \<noteq> [] \<and> hd arguments = ''--data-dir'' then take_os ''data directory'' (tl arguments)
      else (map_err Usage (default_data_directory env), arguments))"

subsection \<open>Filesystem commands\<close>

datatype fs_command =
    FsInit string
  | FsMkdir string
  | FsCreate string
  | FsLs string
  | FsStat string
  | FsCat string
  | FsWrite string "u64 option"
  | FsMv string string
  | FsRm string

text \<open>What a command takes from the arguments before it does anything.\<close>

definition defaulted :: "string \<Rightarrow> (string \<Rightarrow> 'c) \<Rightarrow> 'c arg_op" where
  "defaulted fallback command = op_bind optional_utf8 (\<lambda>argument. op_bind ensure_empty (\<lambda>_.
     op_lift (Inr (command (case argument of None \<Rightarrow> fallback | Some a \<Rightarrow> a)))))"

definition with_path :: "(string \<Rightarrow> 'c) \<Rightarrow> 'c arg_op" where
  "with_path command = op_bind single_path (\<lambda>path. op_lift (Inr (command path)))"

definition parse_filesystem :: "string \<Rightarrow> fs_command arg_op" where
  "parse_filesystem command =
     (if command = ''init'' then defaulted ''user'' FsInit
      else if command = ''mkdir'' then with_path FsMkdir
      else if command = ''create'' then with_path FsCreate
      else if command = ''ls'' then defaulted ''/'' FsLs
      else if command = ''stat'' then with_path FsStat
      else if command = ''cat'' then with_path FsCat
      else if command = ''write'' then
        op_bind (take_utf8 ''path'') (\<lambda>path. op_bind take_expected_generation (\<lambda>expected.
        op_bind ensure_empty (\<lambda>_. op_lift (Inr (FsWrite path expected)))))
      else if command = ''mv'' then
        op_bind (take_utf8 ''source path'') (\<lambda>source. op_bind (take_utf8 ''destination path'') (\<lambda>destination.
        op_bind ensure_empty (\<lambda>_. op_lift (Inr (FsMv source destination)))))
      else if command = ''rm'' then with_path FsRm
      else op_lift (Inl (Usage (''unknown filesystem command: '' @ command))))"

subsection \<open>What they do\<close>

definition line :: "string \<Rightarrow> string" where
  "line s = s @ [CHR 0x0A]"

abbreviation tab :: string where
  "tab \<equiv> [CHR 0x09]"

definition number :: "u64 \<Rightarrow> string" where
  "number n = decimal (unat n)"

definition type_name :: "entry_metadata \<Rightarrow> string" where
  "type_name metadata = (case entry_file_type metadata of TypeFile \<Rightarrow> ''file'' | TypeDirectory \<Rightarrow> ''directory'')"

definition print_entry :: "listed_entry \<Rightarrow> string" where
  "print_entry entry = line (type_name (le_metadata entry) @ tab @ number (entry_generation (le_metadata entry)) @ tab @ le_name entry)"

definition print_stat :: "entry_metadata \<Rightarrow> string" where
  "print_stat metadata = line (case metadata of
     FileEntry f \<Rightarrow> ''file'' @ tab @ number (fm_generation f) @ tab @ number (fm_size f)
   | DirEntry d \<Rightarrow> ''directory'' @ tab @ number (dm_generation d) @ tab @ ''0'')"

text \<open>The result of a call of the service, as text to print.\<close>

definition printing :: "('a \<Rightarrow> string) \<Rightarrow> 'a fs_result \<times> 'w \<Rightarrow> (cli_error + string) \<times> 'w" where
  "printing text outcome = (case outcome of (r, w) \<Rightarrow> (res_bind (map_err FilesystemFailure r) (\<lambda>x. Inr (text x)), w))"

record cli_inputs =
  ci_clock :: "nat \<Rightarrow> clock"
  ci_now :: u64
  ci_directories :: "nat \<Rightarrow> directory_id"
  ci_file :: file_id
  ci_stdin :: "io_error + bytes"

definition exec_filesystem ::
    "hash_function \<Rightarrow> cli_inputs \<Rightarrow> disk filesystem_service \<Rightarrow> device_id \<Rightarrow> fs_command \<Rightarrow> (disk, 'c) world
     \<Rightarrow> ((cli_error + string) \<times> (disk, 'c) world) option" where
  "exec_filesystem sha256 I svc device command w = (case command of
     FsInit user \<Rightarrow> map_option (printing line) (bootstrap_home svc (ci_clock I) (ci_directories I) user w)
   | FsMkdir path \<Rightarrow> map_option (printing (\<lambda>_. [])) (svc_mkdir svc (ci_clock I 0) (ci_directories I 0) path w)
   | FsCreate path \<Rightarrow> map_option (printing (\<lambda>m. line (number (fm_generation m)))) (svc_create svc (ci_clock I 0) (ci_file I) path w)
   | FsLs path \<Rightarrow> Some (printing (\<lambda>entries. concat (map print_entry entries)) (svc_list svc path w))
   | FsStat path \<Rightarrow> Some (printing print_stat (svc_stat svc path w))
   | FsCat path \<Rightarrow> Some (printing bytes_text (svc_read svc sha256 path w))
   | FsWrite path expected \<Rightarrow> (case ci_stdin I of
         Inl error \<Rightarrow> Some (Inl (IoFailure error), w)
       | Inr data \<Rightarrow> Some (printing (\<lambda>m. line (number (fm_generation m))) (svc_write svc (ci_now I) path data expected device w)))
   | FsMv source destination \<Rightarrow> map_option (printing (\<lambda>_. [])) (svc_rename svc (ci_clock I 0) source destination w)
   | FsRm path \<Rightarrow> map_option (printing (\<lambda>_. [])) (svc_remove svc (ci_clock I 0) path w))"

text \<open>
  The process opens the filesystem once it has read which command to run, and before it looks at the other arguments.
  The disk is returned as the two stores have left their files of it.
\<close>

definition run_filesystem ::
    "hash_function \<Rightarrow> cli_inputs \<Rightarrow> (disk, filesystem_error, local_filesystem) op \<Rightarrow> string list \<Rightarrow> disk
     \<Rightarrow> ((cli_error + string) \<times> disk \<times> disk) option" where
  "run_filesystem sha256 I opening arguments d = (case take_utf8 ''filesystem command'' arguments of
     (Inl error, _) \<Rightarrow> Some (Inl error, d, d)
   | (Inr command, rest) \<Rightarrow> (case opening d of
         (Inl error, d1) \<Rightarrow> Some (Inl (FilesystemFailure error), d1, d1)
       | (Inr lf, d1) \<Rightarrow> (case fst (parse_filesystem command rest) of
             Inl error \<Rightarrow> Some (Inl error, d1, d1)
           | Inr command \<Rightarrow> map_option (\<lambda>(r, w). (r, w_metadata w, w_contents w))
               (exec_filesystem sha256 I (lf_service lf) (lf_device_id lf) command (local_world lf d1)))))"

subsection \<open>Cluster commands\<close>

datatype cluster_command =
    ClDiscover u16 u64
  | ClStatus
  | ClCreate string
  | ClInvite
  | ClJoin socket_addr string
  | ClMembers
  | ClPresence

record text_forms =
  tf_endpoint :: "socket_addr \<Rightarrow> string"
  tf_cluster_id :: "cluster_id \<Rightarrow> string"
  tf_parse_endpoint :: "string \<Rightarrow> socket_addr option"

definition parse_discover :: "cluster_command arg_op" where
  "parse_discover =
     op_bind (take_named_u16 ''--port'') (\<lambda>port. op_bind (take_named_u64 ''--timeout-ms'') (\<lambda>timeout.
     op_bind ensure_empty (\<lambda>_. op_lift (Inr (ClDiscover
       (case port of None \<Rightarrow> 37845 | Some p \<Rightarrow> p) (case timeout of None \<Rightarrow> 1200 | Some t \<Rightarrow> t))))))"

definition bare :: "'c \<Rightarrow> 'c arg_op" where
  "bare command = op_bind ensure_empty (\<lambda>_. op_lift (Inr command))"

definition parse_cluster :: "text_forms \<Rightarrow> string \<Rightarrow> cluster_command arg_op" where
  "parse_cluster F command =
     (if command = ''discover'' then parse_discover
      else if command = ''status'' then bare ClStatus
      else if command = ''create'' then
        op_bind (take_utf8 ''cluster name'') (\<lambda>name. op_bind ensure_empty (\<lambda>_. op_lift (Inr (ClCreate name))))
      else if command = ''invite'' then bare ClInvite
      else if command = ''join'' then
        op_bind (take_utf8 ''coordinator endpoint'') (\<lambda>coordinator.
        op_bind (op_lift (ok_or (tf_parse_endpoint F coordinator) (Usage ''invalid coordinator endpoint''))) (\<lambda>coordinator.
        op_bind (take_utf8 ''pairing code'') (\<lambda>invite_token.
        op_bind ensure_empty (\<lambda>_. op_lift (Inr (ClJoin coordinator invite_token))))))
      else if command = ''members'' then bare ClMembers
      else if command = ''presence'' then bare ClPresence
      else op_lift (Inl (Usage (''unknown cluster command: '' @ command))))"

definition role_name :: "cluster_role \<Rightarrow> string" where
  "role_name role = (case role of Coordinator \<Rightarrow> ''coordinator'' | Member \<Rightarrow> ''member'')"

definition presence_state_name :: "presence_state \<Rightarrow> string" where
  "presence_state_name state = (case state of PresenceUnknown \<Rightarrow> ''unknown'' | PresenceOnline \<Rightarrow> ''online'' | PresenceOffline \<Rightarrow> ''offline'')"

definition tabbed :: "string list \<Rightarrow> string" where
  "tabbed columns = line (join_with (CHR 0x09) columns)"

definition print_instance :: "text_forms \<Rightarrow> discovery_announcement \<Rightarrow> string" where
  "print_instance F i = tabbed [device_id_str (dan_device_id i), dan_device_name i, tf_endpoint F (dan_endpoint i),
     case dan_cluster i of None \<Rightarrow> ''-'' | Some cluster \<Rightarrow> su_name cluster]"

definition print_status :: "text_forms \<Rightarrow> membership_status \<Rightarrow> string" where
  "print_status F status = tabbed [''device'', device_id_str (mst_device_id status), mst_device_name status] @
     (case (mst_cluster status, mst_role status) of
        (Some cluster, Some role) \<Rightarrow>
          tabbed [''cluster'', tf_cluster_id F (su_id cluster), su_name cluster, tf_endpoint F (su_coordinator cluster), role_name role]
      | _ \<Rightarrow> tabbed [''cluster'', ''-''])"

definition print_cluster :: "text_forms \<Rightarrow> cluster_summary \<Rightarrow> string" where
  "print_cluster F cluster = tabbed [''cluster'', tf_cluster_id F (su_id cluster), su_name cluster]"

definition print_member :: "text_forms \<Rightarrow> cluster_summary \<Rightarrow> cluster_member \<Rightarrow> string" where
  "print_member F cluster m = tabbed [device_id_str (mb_device_id m), mb_device_name m, tf_endpoint F (mb_endpoint m),
     if mb_endpoint m = su_coordinator cluster then ''coordinator'' else ''member'']"

definition print_presence :: "text_forms \<Rightarrow> presence_record \<Rightarrow> string" where
  "print_presence F r = tabbed [device_id_str (mb_device_id (prs_member r)), mb_device_name (prs_member r),
     tf_endpoint F (mb_endpoint (prs_member r)), presence_state_name (prs_state r)]"

text \<open>
  \<open>ask\<close> sends a request to the agent; \<open>discovered\<close> is what discovery on a port for some time finds. Both are effects on
  the world outside the process.
\<close>

definition exec_cluster ::
    "text_forms \<Rightarrow> (control_response \<Rightarrow> string) \<Rightarrow> 'n agent_link \<Rightarrow>
     (u16 \<Rightarrow> u64 \<Rightarrow> ('n, transport_error, discovery_announcement list) op) \<Rightarrow> cluster_command \<Rightarrow> ('n, cli_error, string) op" where
  "exec_cluster F debug ask discovered command = io_err TransportFailure (case command of
     ClDiscover port timeout \<Rightarrow> op_bind (discovered port timeout) (\<lambda>instances. op_lift (Inr (concat (map (print_instance F) instances))))
   | ClStatus \<Rightarrow> op_bind (control_status ask debug) (\<lambda>status. op_lift (Inr (print_status F status)))
   | ClCreate name \<Rightarrow> op_bind (control_create_cluster ask debug name) (\<lambda>(cluster, invite_token). op_lift (
       Inr (print_cluster F cluster @ tabbed [''coordinator'', tf_endpoint F (su_coordinator cluster)] @ tabbed [''pairing'', invite_token])))
   | ClInvite \<Rightarrow> op_bind (control_create_invite ask debug) (\<lambda>invite_token. op_lift (Inr (tabbed [''pairing'', invite_token])))
   | ClJoin coordinator invite_token \<Rightarrow> op_bind (control_join_cluster ask debug coordinator invite_token) (\<lambda>cluster. op_lift (
       Inr (print_cluster F cluster @ tabbed [''coordinator'', tf_endpoint F (su_coordinator cluster)])))
   | ClMembers \<Rightarrow> op_bind (control_members ask debug) (\<lambda>(cluster, members). op_lift (
       Inr (print_cluster F cluster @ concat (map (print_member F cluster) members))))
   | ClPresence \<Rightarrow> op_bind (control_presence ask debug) (\<lambda>records. op_lift (Inr (concat (map (print_presence F) records)))))"

definition run_cluster ::
    "text_forms \<Rightarrow> (control_response \<Rightarrow> string) \<Rightarrow> 'n agent_link \<Rightarrow>
     (u16 \<Rightarrow> u64 \<Rightarrow> ('n, transport_error, discovery_announcement list) op) \<Rightarrow> string list \<Rightarrow> ('n, cli_error, string) op" where
  "run_cluster F debug ask discovered arguments =
     op_bind (op_lift (fst (op_bind (take_utf8 ''cluster command'') (parse_cluster F) arguments))) (exec_cluster F debug ask discovered)"

subsection \<open>The program\<close>

datatype invocation =
    PrintVersion
  | PrintHelp
  | PrintDoctor
  | RunFilesystem string "string list"
  | RunCluster string "string list"

definition run_invocation :: "environment \<Rightarrow> string list \<Rightarrow> cli_error + invocation" where
  "run_invocation env arguments =
     (if arguments = [''--version''] then Inr PrintVersion
      else if arguments = [''--help''] \<or> arguments = [] then Inr PrintHelp
      else if arguments = [''doctor''] then Inr PrintDoctor
      else fst (op_bind (take_data_directory env) (\<lambda>directory. op_bind (take_utf8 ''command'') (\<lambda>group rest.
        (if group = ''fs'' then Inr (RunFilesystem directory rest)
         else if group = ''cluster'' then Inr (RunCluster directory rest)
         else Inl (Usage (''unknown command: '' @ group)), []))) arguments))"

definition help_text :: string where
  "help_text = concat (map line
     [''kubeweft [--data-dir DIR] <fs|cluster> <command>'',
      ''filesystem: init [USER], mkdir PATH, create PATH, ls [PATH], stat PATH'',
      ''          cat PATH, write PATH [--expect GENERATION], mv FROM TO, rm PATH'',
      ''cluster:  status, create NAME, invite, join ENDPOINT PAIRING_CODE, members, presence'',
      ''          discover [--port PORT] [--timeout-ms MILLISECONDS]''])"

definition doctor_text :: string where
  "doctor_text = concat (map line
     [''local filesystem: ready'', ''cluster connectivity: available through kubeweft-agent'',
      ''platform capabilities: not configured''])"

text \<open>
  \<open>opening\<close> and \<open>ask\<close> take the data directory; \<open>version\<close> is the version of the package. What the process leaves behind is the
  disk, as the two stores have left their files of it, and the world outside.
\<close>

definition run_cli ::
    "environment \<Rightarrow> string \<Rightarrow> hash_function \<Rightarrow> cli_inputs \<Rightarrow> (string \<Rightarrow> (disk, filesystem_error, local_filesystem) op) \<Rightarrow>
     text_forms \<Rightarrow> (control_response \<Rightarrow> string) \<Rightarrow> (string \<Rightarrow> 'n agent_link) \<Rightarrow>
     (u16 \<Rightarrow> u64 \<Rightarrow> ('n, transport_error, discovery_announcement list) op) \<Rightarrow> string list \<Rightarrow> disk \<Rightarrow> 'n
     \<Rightarrow> ((cli_error + string) \<times> (disk \<times> disk) \<times> 'n) option" where
  "run_cli env version sha256 I opening F debug ask discovered arguments d n = (case run_invocation env arguments of
     Inl error \<Rightarrow> Some (Inl error, (d, d), n)
   | Inr PrintVersion \<Rightarrow> Some (Inr (line (''kubeweft '' @ version)), (d, d), n)
   | Inr PrintHelp \<Rightarrow> Some (Inr help_text, (d, d), n)
   | Inr PrintDoctor \<Rightarrow> Some (Inr doctor_text, (d, d), n)
   | Inr (RunFilesystem directory rest) \<Rightarrow> map_option (\<lambda>(r, disks). (r, disks, n)) (run_filesystem sha256 I (opening directory) rest d)
   | Inr (RunCluster directory rest) \<Rightarrow> (let (r, n1) = run_cluster F debug (ask directory) discovered rest n in Some (r, (d, d), n1)))"

text \<open>What the process returns and writes to the two output streams.\<close>

definition exit_code :: "cli_error + 'a \<Rightarrow> nat" where
  "exit_code result = (case result of Inr _ \<Rightarrow> 0 | Inl (Usage _) \<Rightarrow> 2 | Inl _ \<Rightarrow> 1)"

definition error_text :: "cli_error \<Rightarrow> string" where
  "error_text error = line (case error of
     Usage message \<Rightarrow> message
   | FilesystemFailure e \<Rightarrow> ''filesystem error: '' @ filesystem_error_display e
   | IoFailure e \<Rightarrow> ''I/O error: '' @ io_message e
   | TransportFailure e \<Rightarrow> ''transport error: '' @ transport_error_display e)"

subsection \<open>Parsing\<close>

text \<open>How the help text spells a command.\<close>

fun fs_line :: "fs_command \<Rightarrow> string list" where
  "fs_line (FsInit user) = [''init'', user]"
| "fs_line (FsMkdir path) = [''mkdir'', path]"
| "fs_line (FsCreate path) = [''create'', path]"
| "fs_line (FsLs path) = [''ls'', path]"
| "fs_line (FsStat path) = [''stat'', path]"
| "fs_line (FsCat path) = [''cat'', path]"
| "fs_line (FsWrite path None) = [''write'', path]"
| "fs_line (FsWrite path (Some g)) = [''write'', path, ''--expect'', number g]"
| "fs_line (FsMv source destination) = [''mv'', source, destination]"
| "fs_line (FsRm path) = [''rm'', path]"

fun cluster_line :: "text_forms \<Rightarrow> cluster_command \<Rightarrow> string list" where
  "cluster_line F (ClDiscover port timeout) = [''discover'', ''--port'', decimal (unat port), ''--timeout-ms'', number timeout]"
| "cluster_line F ClStatus = [''status'']"
| "cluster_line F (ClCreate name) = [''create'', name]"
| "cluster_line F ClInvite = [''invite'']"
| "cluster_line F (ClJoin coordinator code) = [''join'', tf_endpoint F coordinator, code]"
| "cluster_line F ClMembers = [''members'']"
| "cluster_line F ClPresence = [''presence'']"

lemma decimal_utf8 [simp]: "is_utf8 (decimal n)" "is_utf8 (number g)"
proof -
  show "is_utf8 (decimal n)" for n
    using decimal_digits [of n] by (intro ascii_is_utf8) (auto simp: list_all_iff is_ascii_digit_def less_eq_char_def)
  then show "is_utf8 (number g)" by (simp add: number_def)
qed

lemma take_utf8_simps [simp]:
  "take_utf8 name [] = (Inl (Usage (''missing '' @ name)), [])"
  "take_utf8 name (a # rest) = ((if is_utf8 a then Inr a else Inl (Usage (name @ '' must be valid UTF-8''))), rest)"
  by (simp_all add: take_utf8_def take_os_def into_string_def op_bind_def op_lift_def)

lemma ensure_empty_simps [simp]:
  "ensure_empty [] = (Inr (), [])"
  "ensure_empty (a # rest) = (Inl (Usage (''unexpected argument: '' @ lossy a)), a # rest)"
  by (simp_all add: ensure_empty_def)

lemma command_words_utf8: "list_all is_utf8 [''init'', ''mkdir'', ''create'', ''ls'', ''stat'', ''cat'', ''write'', ''mv'', ''rm'',
    ''discover'', ''status'', ''invite'', ''join'', ''members'', ''presence'']"
  by code_simp

lemma parse_number [simp]: "parse_u64 (number g) = Some g"
  by (simp add: number_def)

lemmas parsing = op_bind_def op_lift_def defaulted_def with_path_def optional_utf8_def single_path_def
  take_expected_generation_def bare_def

lemma parse_fs_line:
  "list_all is_utf8 (fs_line command) \<Longrightarrow> op_bind (take_utf8 ''filesystem command'') parse_filesystem (fs_line command) = (Inr command, [])"
  using command_words_utf8 by (cases command rule: fs_line.cases) (auto simp: parse_filesystem_def parsing)

lemma take_named_first:
  "take_named_u64 name (name # value # rest) = ((if is_utf8 value then ok_or (map_option Some (parse_u64 value)) (Usage (''invalid value for '' @ name))
     else Inl (Usage (name @ '' must be valid UTF-8''))), rest)"
  by (auto simp: take_named_u64_def take_utf8_at_def into_string_def parsing Let_def remove_at_def split: option.split)

lemma widened_port [simp]: "unat (ucast (p :: u16) :: u64) = unat p" "unat p < 65536" "ucast (ucast p :: u64) = p"
proof -
  show small: "unat p < 65536" using unsigned_less [of p, where ?'a = nat] by simp
  show wide: "unat (ucast p :: u64) = unat p" using small by (simp add: unsigned_ucast_eq unsigned_take_bit_eq take_bit_nat_eq_self)
  have "unat (ucast (ucast p :: u64) :: u16) = unat p" using small wide by (simp add: unsigned_ucast_eq unsigned_take_bit_eq take_bit_nat_eq_self)
  then show "ucast (ucast p :: u64) = p" by (simp only: word_unat_eq_iff)
qed

lemma parse_small_number [simp]: "parse_u64 (decimal (unat (p :: u16))) = Some (ucast p)"
  using parse_u64_decimal [of "ucast p"] by (simp only: widened_port)

lemma parse_cluster_line:
  assumes "\<And>a. tf_parse_endpoint F (tf_endpoint F a) = Some a" "list_all is_utf8 (cluster_line F command)"
  shows "op_bind (take_utf8 ''cluster command'') (parse_cluster F) (cluster_line F command) = (Inr command, [])"
  using assms command_words_utf8
  by (cases command) (auto simp: parse_cluster_def parse_discover_def take_named_u16_def take_named_first parsing)

text \<open>
  C38: every command has a command line, the one the help text gives, whatever UTF-8 text its arguments
  are: reading the line takes all of its arguments and gives the command back.
\<close>

theorem command_lines_parse:
  assumes "\<And>a. tf_parse_endpoint F (tf_endpoint F a) = Some a"
  shows "(list_all is_utf8 (fs_line command) \<longrightarrow>
      op_bind (take_utf8 ''filesystem command'') parse_filesystem (fs_line command) = (Inr command, [])) \<and>
    (list_all is_utf8 (cluster_line F request) \<longrightarrow>
      op_bind (take_utf8 ''cluster command'') (parse_cluster F) (cluster_line F request) = (Inr request, []))"
  using parse_fs_line parse_cluster_line [OF assms] by blast

text \<open>A text form of addresses.\<close>

definition demo_endpoint :: "socket_addr \<Rightarrow> string" where
  "demo_endpoint a = (case sa_ip a of Ipv4 w \<Rightarrow> CHR ''4'' # decimal (unat w) | Ipv6 w \<Rightarrow> CHR ''6'' # decimal (unat w)) @
     CHR '':'' # decimal (unat (sa_port a))"

definition demo_parse_endpoint :: "string \<Rightarrow> socket_addr option" where
  "demo_parse_endpoint s = (let ip = takeWhile (\<lambda>c. c \<noteq> CHR '':'') s; port = tl (dropWhile (\<lambda>c. c \<noteq> CHR '':'') s) in
     Some \<lparr>sa_ip = (if hd ip = CHR ''4'' then Ipv4 (of_nat (digits_value (tl ip))) else Ipv6 (of_nat (digits_value (tl ip)))),
       sa_port = of_nat (digits_value port)\<rparr>)"

definition demo_forms :: text_forms where
  "demo_forms = \<lparr>tf_endpoint = demo_endpoint, tf_cluster_id = (\<lambda>_. ''cluster''), tf_parse_endpoint = demo_parse_endpoint\<rparr>"

lemma demo_forms_parse: "tf_parse_endpoint demo_forms (tf_endpoint demo_forms a) = Some a"
proof -
  have colon: "c \<noteq> CHR '':''" if "c \<in> set (decimal n)" for c n
    using that decimal_digits [of n] by (auto simp: list_all_iff is_ascii_digit_def)
  have "takeWhile (\<lambda>c. c \<noteq> CHR '':'') (decimal n @ CHR '':'' # p) = decimal n"
    "dropWhile (\<lambda>c. c \<noteq> CHR '':'') (decimal n @ CHR '':'' # p) = CHR '':'' # p" for n p
    using colon by (simp_all add: takeWhile_append dropWhile_append3)
  then show ?thesis
    using decimal_digits by (simp add: demo_forms_def demo_endpoint_def demo_parse_endpoint_def Let_def split: ip_addr.split)
qed

theorem command_lines_parse_witness:
  "op_bind (take_utf8 ''filesystem command'') parse_filesystem [''write'', ''/a'', ''--expect'', ''12''] = (Inr (FsWrite ''/a'' (Some 12)), []) \<and>
   op_bind (take_utf8 ''cluster command'') (parse_cluster demo_forms) (cluster_line demo_forms (ClDiscover 99 1)) = (Inr (ClDiscover 99 1), [])"
proof -
  have "fs_line (FsWrite ''/a'' (Some 12)) = [''write'', ''/a'', ''--expect'', ''12'']" by code_simp
  moreover have "list_all is_utf8 [''write'', ''/a'', ''--expect'', ''12'']" "list_all is_utf8 (cluster_line demo_forms (ClDiscover 99 1))"
    by code_simp+
  ultimately show ?thesis
    using command_lines_parse [OF demo_forms_parse, of "FsWrite ''/a'' (Some 12)" "ClDiscover 99 1"] by simp
qed

subsection \<open>Errors\<close>

text \<open>What a process leaves behind when it does not accept its arguments: what opening the filesystem did, at most.\<close>

lemma printing_not_usage: "printing text outcome = (Inl e, w) \<Longrightarrow> \<exists>x. e = FilesystemFailure x"
  by (cases outcome; cases "fst outcome") (auto simp: printing_def)

lemma exec_not_usage: "exec_filesystem sha256 I svc device command w \<noteq> Some (Inl (Usage message), w')"
  by (cases command) (auto simp: exec_filesystem_def split: sum.splits dest!: printing_not_usage)

lemma run_filesystem_usage:
  assumes "run_filesystem sha256 I opening arguments d = Some (Inl (Usage message), dm, dc)"
  shows "dm = dc \<and> (dm = d \<or> dm = snd (opening d))"
  using assms by (auto simp: run_filesystem_def split: prod.splits sum.splits dest: exec_not_usage [THEN notE])

lemma io_err_failed: "io_err f m w = (Inl e, w') \<Longrightarrow> \<exists>x. e = f x"
  by (cases "fst (m w)") (auto simp: io_err_def split: prod.splits)

lemma exec_cluster_not_usage: "exec_cluster F debug ask discovered command n \<noteq> (Inl (Usage message), n')"
  unfolding exec_cluster_def by (rule notI, drule io_err_failed) simp

lemma run_cluster_usage: "run_cluster F debug ask discovered arguments n = (Inl (Usage message), n') \<Longrightarrow> n' = n"
  by (cases "fst (op_bind (take_utf8 ''cluster command'') (parse_cluster F) arguments)")
     (simp_all add: run_cluster_def exec_cluster_not_usage)

text \<open>
  C39: a process that ends with status 2 complained about its arguments and changed nothing: the files on the
  disk are as they were, or as opening the filesystem left them, no command of the service ran, and no request was sent to
  an agent.
\<close>

theorem refused_arguments_change_nothing:
  assumes "run_cli env version sha256 I opening F debug ask discovered arguments d n = Some (r, (dm, dc), n')" "exit_code r = 2"
  shows "(\<exists>message. r = Inl (Usage message)) \<and> dm = dc \<and> (dm = d \<or> (\<exists>directory. dm = snd (opening directory d))) \<and> n' = n"
proof -
  have usage: "\<exists>message. r = Inl (Usage message)" using assms(2) by (auto simp: exit_code_def split: sum.splits cli_error.splits)
  show ?thesis
  proof (cases "run_invocation env arguments")
    case (Inr invocation)
    show ?thesis
    proof (cases invocation)
      case (RunFilesystem directory rest)
      with assms(1) Inr have "run_filesystem sha256 I (opening directory) rest d = Some (r, dm, dc)" "n' = n" by (auto simp: run_cli_def)
      with usage run_filesystem_usage show ?thesis by blast
    next
      case (RunCluster directory rest)
      obtain q n1 where run: "run_cluster F debug (ask directory) discovered rest n = (q, n1)" by fastforce
      with assms(1) Inr RunCluster have "r = q" "dm = d" "dc = d" "n' = n1" by (auto simp: run_cli_def)
      with run usage show ?thesis by (auto dest: run_cluster_usage)
    qed (use assms(1) usage Inr in \<open>auto simp: run_cli_def\<close>)
  qed (use assms(1) usage in \<open>auto simp: run_cli_def\<close>)
qed

subsection \<open>Writing and reading a file\<close>

text \<open>
  The disk a process leaves behind when it is done with a directory: the files of the content store as that store left them,
  all others as the metadata store did.
\<close>

definition left_behind :: "path_buf \<Rightarrow> disk \<Rightarrow> disk \<Rightarrow> disk \<Rightarrow> bool" where
  "left_behind dir dm dc d \<longleftrightarrow> (\<forall>p. file_at d p =
     (if p \<noteq> [] \<and> butlast p = lc_root (local_content_at dir) then file_at dc p else file_at dm p))"

lemma left_behind_files:
  assumes "left_behind dir dm dc d"
  shows "file_at d (lm_path (local_metadata_at dir)) = file_at dm (lm_path (local_metadata_at dir))"
    "file_at d (identity_path dir) = file_at dm (identity_path dir)"
    "file_at d (cst_state_path (cluster_store_at dir)) = file_at dm (cst_state_path (cluster_store_at dir))"
    "local_blob (local_content_at dir) d cid = local_blob (local_content_at dir) dc cid"
  using assms
  by (simp_all add: left_behind_def local_blob_def path_for_def local_content_at_def local_metadata_at_def identity_path_def
      cluster_store_at_def path_join_def butlast_append)

text \<open>
  C10: what one process writes with \<open>kubeweft fs write\<close>, a later one prints with \<open>kubeweft fs cat\<close>. The write may meet
  any failures of the disk but of the \<open>stat\<close> behind \<open>Path::exists\<close>, as long as it reports success. The later process runs on the
  disk the first left behind, working by then, under whatever host name and whatever key pair its generator would draw;
  it opens the directory as the same device. The blob store is assumed to hold no second preimage of the digest of the data.
\<close>

theorem cli_write_then_cat:
  assumes "local_ok J (local_metadata_at dir) d" "identity_env_ok E" "json_ok K" "ci_stdin I = Inr data"
    and wrote: "run_filesystem sha256 I (local_filesystem_open E draw sha256 K J dir hostname) (''write'' # path # options) d = Some (Inr out, dm, dc)"
    and later: "left_behind dir dm dc d2" "healthy d2"
    and coll: "\<And>b. local_blob (local_content_at dir) dc (for_bytes sha256 data) = Some b \<Longrightarrow> sha256 b = sha256 data \<Longrightarrow> b = data"
  shows "\<exists>dm' dc'. run_filesystem sha256 I2 (local_filesystem_open E draw2 sha256 K J dir hostname2) [''cat'', path] d2 = Some (Inr (bytes_text data), dm', dc')"
proof -
  let ?open = "local_filesystem_open E draw sha256 K J dir hostname"
  have utf8: "is_utf8 ''write''" "is_utf8 ''cat''" using command_words_utf8 by simp_all
  obtain o1 d1 where o1: "?open d = (o1, d1)" by fastforce
  from wrote utf8 o1 obtain lf where lf: "o1 = Inr lf" by (auto simp: run_filesystem_def split: sum.splits)
  with wrote utf8 o1 obtain command w1 where parsed: "fst (parse_filesystem ''write'' (path # options)) = Inr command"
    and run: "exec_filesystem sha256 I (lf_service lf) (lf_device_id lf) command (local_world lf d1) = Some (Inr out, w1)"
    and w1: "dm = w_metadata w1" "dc = w_contents w1"
    by (auto simp: run_filesystem_def split: sum.splits)
  from parsed obtain expected where path: "is_utf8 path" "command = FsWrite path expected"
    by (auto simp: parse_filesystem_def op_bind_def op_lift_def ensure_empty_def split: if_splits prod.splits sum.splits list.splits)
  with run assms(4) obtain m where wr: "svc_write (lf_service lf) (ci_now I) path data expected (lf_device_id lf) (local_world lf d1) = (Inr m, w1)"
    by (auto simp: exec_filesystem_def printing_def split: prod.splits)
  note opened = o1 [unfolded lf] and files = left_behind_files [OF later(1)]
  have ok1: "local_ok J (local_metadata_at dir) (w_metadata (local_world lf d1))"
    using local_open_keeps(1) [OF o1 assms(1)] by (simp add: local_world_def)
  have okm: "local_ok J (local_metadata_at dir) dm"
    using opened _ ok1 wr unfolding w1 by (rule local_write_effect) (simp add: local_world_def)
  have "device_bound E sha256 K dir (lf_device_id lf) d1"
    using local_open_bound [OF assms(3,2) _ opened] assms(1) by (simp add: local_ok_def)
  then have bound: "device_bound E sha256 K dir (lf_device_id lf) d2"
    using files(2,3) local_write_frame [OF opened wr] device_files_mem(1,3) w1 by (auto simp: local_world_def elim!: device_bound_cong)
  have "readable J (local_metadata_at dir) d2" using okm files(1) by (simp add: local_ok_def readable_def)
  from local_open_again [OF opened bound later(2) this] obtain d3
    where o2: "local_filesystem_open E draw2 sha256 K J dir hostname2 d2 = (Inr lf, d3)" by blast
  have ok2: "local_ok J (local_metadata_at dir) d2"
    using okm files(1) later(2) by (simp add: local_ok_def readable_def healthy_def stat_reliable_def)
  have "\<exists>w3. svc_read (lf_service lf) sha256 path (local_world lf d3) = (Inr data, w3)"
  proof (rule local_read_after_write [OF opened _ ok1 wr])
    show "local_ok J (local_metadata_at dir) (w_metadata (local_world lf d3))"
      using local_open_keeps(1) [OF o2 ok2] by (simp add: local_world_def)
    show "file_kept J dir path (w_metadata w1) (w_metadata (local_world lf d3))"
      "placement_kept J dir (lf_device_id lf) (for_bytes sha256 data) (w_metadata w1) (w_metadata (local_world lf d3))"
      using local_open_keeps(2) [OF o2] files(1) w1 by (auto simp: local_world_def intro!: kept_same)
  qed (use w1 files(4) later(2) coll local_open_keeps [OF o2] in \<open>simp_all add: local_world_def\<close>)
  with o2 utf8 path show ?thesis
    by (auto simp: run_filesystem_def parse_filesystem_def parsing exec_filesystem_def printing_def)
qed

definition demo_inputs :: cli_inputs where
  "demo_inputs = \<lparr>ci_clock = (\<lambda>_ _ _. 9), ci_now = 9, ci_directories = (\<lambda>j. DirectoryId (of_nat (Suc j))), ci_file = FileId 8,
     ci_stdin = Inr [1, 2]\<rparr>"

text \<open>The world outside is the list of requests an agent got.\<close>

definition demo_link :: "local_request list agent_link" where
  "demo_link request sent = (Inl AgentUnavailable, sent @ [request])"

theorem refused_arguments_change_nothing_witness:
  "snd (the (run_cli \<lparr>env_data_dir = Some ''/data'', env_home = None\<rparr> ''0.1.0'' demo_hash demo_inputs (\<lambda>_. op_lift (Inl NotFound)) demo_forms (\<lambda>_. [])
     (\<lambda>_. demo_link) (\<lambda>_ _. op_lift (Inr [])) [''cluster'', ''create'', ''home'', ''x''] demo_data_disk [])) = ((demo_data_disk, demo_data_disk), [])"
proof -
  let ?run = "run_cli \<lparr>env_data_dir = Some ''/data'', env_home = None\<rparr> ''0.1.0'' demo_hash demo_inputs (\<lambda>_. op_lift (Inl NotFound)) demo_forms (\<lambda>_. [])
     (\<lambda>_. demo_link) (\<lambda>_ _. op_lift (Inr [])) [''cluster'', ''create'', ''home'', ''x''] demo_data_disk []"
  have "?run \<noteq> None" "exit_code (fst (the ?run)) = 2" by code_simp+
  then obtain r dm dc sent where run: "?run = Some (r, (dm, dc), sent)" "exit_code r = 2" by auto
  from refused_arguments_change_nothing [OF run] show ?thesis unfolding run(1) by (auto simp: op_lift_def)
qed

definition demo_cli_write :: "((cli_error + string) \<times> disk \<times> disk) option" where
  "demo_cli_write = run_filesystem demo_hash demo_inputs
     (local_filesystem_open demo_identity_env demo_draw demo_hash demo_agent_codec demo_snapshot_codec [''data''] None)
     [''write'', ''/a/f''] demo_data_disk"

text \<open>The disk afterwards: the blobs as the content store left them, the other files as the metadata store did.\<close>

definition demo_disk_after :: disk where
  "demo_disk_after = \<lparr>dk_files = [([''data'', ''cluster.json''], [0]), ([''data'', ''cluster.lock''], []),
      ([''data'', ''content'', ''blobs'', ''.lock''], []), ([''data'', ''content'', ''blobs'', ''0102''], [1, 2]),
      ([''data'', ''identity.json''], [0]), ([''data'', ''metadata.json''], [1]), ([''data'', ''metadata.lock''], [])],
     dk_faults = [], dk_stat_faults = []\<rparr>"

lemma demo_cli_writes:
  "map_option fst demo_cli_write = Some (Inr (line ''2''))"
  "map_option (\<lambda>(r, dm, dc). (dk_files dm, dk_files dc)) demo_cli_write =
     Some ([([''data'', ''cluster.json''], [0]), ([''data'', ''cluster.lock''], []),
        ([''data'', ''identity.json''], [0]), ([''data'', ''metadata.json''], [1]), ([''data'', ''metadata.lock''], [])],
       [([''data'', ''cluster.json''], [0]), ([''data'', ''cluster.lock''], []),
        ([''data'', ''content'', ''blobs'', ''.lock''], []), ([''data'', ''content'', ''blobs'', ''0102''], [1, 2]),
        ([''data'', ''identity.json''], [0]), ([''data'', ''metadata.json''], [0])])"
  by code_simp+

theorem cli_write_then_cat_witness:
  "\<exists>dm' dc'. run_filesystem demo_hash demo_inputs
      (local_filesystem_open demo_identity_env demo_draw_later demo_hash demo_agent_codec demo_snapshot_codec [''data''] (Some ''desk''))
      [''cat'', ''/a/f''] demo_disk_after = Some (Inr (bytes_text [1, 2]), dm', dc')"
proof -
  obtain out dm dc where run: "demo_cli_write = Some (Inr out, dm, dc)" using demo_cli_writes(1) by fastforce
  have "left_behind [''data''] dm dc demo_disk_after"
    using demo_cli_writes(2) unfolding run by (auto simp: left_behind_def demo_disk_after_def local_content_at_def path_join_def)
  moreover have "json_ok demo_agent_codec" by (auto simp: json_ok_def demo_agent_codec_def Let_def split: if_splits)
  moreover have "healthy demo_disk_after" by (simp add: healthy_def demo_disk_after_def)
  moreover have "b = [1, 2]" if "demo_hash b = demo_hash [1, 2]" for b using that by (simp add: demo_hash_def split: if_splits)
  ultimately show ?thesis
    by (intro cli_write_then_cat [OF demo_device_ok demo_identity_env_ok _ _ run [unfolded demo_cli_write_def]])
      (simp_all add: demo_inputs_def)
qed

end
