(* ===== verification/Desktop_Bridge.thy ===== *)
theory Desktop_Bridge
  imports Local_Service Rust_Text
begin

section \<open>The desktop bridge\<close>

text \<open>
  \<open>apps/desktop/bridge\<close>: the C functions the desktop shell calls. A pointer to a C string is the memory it
  points to, up to and past the first NUL, or nothing when it is null; a handle is the filesystem it owns, or nothing.
  Every operation answers with one JSON text. How \<open>serde_json\<close> prints a value is an argument.
\<close>

datatype json_value =
    JBool bool
  | JNumber u64
  | JString string
  | JArray "json_value list"
  | JObject "(string \<times> json_value) list"

type_synonym c_pointer = "string option"

subsection \<open>Crossing the boundary\<close>

definition c_string :: "c_pointer \<Rightarrow> string option" where
  "c_string pointer = (case pointer of
     None \<Rightarrow> None
   | Some memory \<Rightarrow> (let bs = takeWhile (\<lambda>c. c \<noteq> CHR 0x00) memory in if is_utf8 bs then Some bs else None))"

text \<open>\<open>call\<close>: an operation returns a result or panics; \<open>CString::new\<close> takes no text with a NUL.\<close>

datatype 'a unwound = Returned 'a | Panicked

definition bridge_response :: "(string + json_value) unwound \<Rightarrow> json_value" where
  "bridge_response outcome =
     (case (case outcome of Panicked \<Rightarrow> Inl ''desktop bridge panicked'' | Returned result \<Rightarrow> result) of
        Inr value \<Rightarrow> JObject [(''ok'', JBool True), (''value'', value)]
      | Inl error \<Rightarrow> JObject [(''ok'', JBool False), (''error'', JString error)])"

definition replace_char :: "char \<Rightarrow> string \<Rightarrow> string \<Rightarrow> string" where
  "replace_char c replacement s = concat (map (\<lambda>x. if x = c then replacement else [x]) s)"

definition cstring_new :: "string \<Rightarrow> string option" where
  "cstring_new s = (if CHR 0x00 \<in> set s then None else Some s)"

definition bridge_call :: "(json_value \<Rightarrow> string) \<Rightarrow> (string + json_value) unwound \<Rightarrow> string option" where
  "bridge_call print outcome = cstring_new (replace_char (CHR 0x00) [CHR 0x5C, CHR ''u'', CHR ''0'', CHR ''0'', CHR ''0'', CHR ''0''] (print (bridge_response outcome)))"

subsection \<open>Operations\<close>

type_synonym bridge_world = "(disk, disk) world"

type_synonym bridge_op = "bridge_world \<Rightarrow> ((string + json_value) \<times> bridge_world) option"

definition bridge_path :: "c_pointer \<Rightarrow> string + string" where
  "bridge_path path = ok_or (c_string path) ''invalid UTF-8 path''"

definition bridge_local :: "local_filesystem option \<Rightarrow> string + local_filesystem" where
  "bridge_local handle = ok_or handle ''filesystem is not open''"

text \<open>The operation on a path through a handle that both functions accept.\<close>

definition on_path :: "local_filesystem option \<Rightarrow> c_pointer \<Rightarrow> (local_filesystem \<Rightarrow> string \<Rightarrow> bridge_op) \<Rightarrow> bridge_op" where
  "on_path handle path operation w = (case bridge_path path of
     Inl e \<Rightarrow> Some (Inl e, w)
   | Inr path \<Rightarrow> (case bridge_local handle of Inl e \<Rightarrow> Some (Inl e, w) | Inr lf \<Rightarrow> operation lf path w))"

definition answering :: "('a \<Rightarrow> json_value) \<Rightarrow> 'a fs_result \<times> bridge_world \<Rightarrow> (string + json_value) \<times> bridge_world" where
  "answering value outcome = (case outcome of (r, w) \<Rightarrow>
     (case r of Inl e \<Rightarrow> (Inl (filesystem_error_display e), w) | Inr x \<Rightarrow> (Inr (value x), w)))"

definition entry_value :: "listed_entry \<Rightarrow> json_value" where
  "entry_value entry = JObject
     [(''name'', JString (le_name entry)),
      (''kind'', JString (case entry_file_type (le_metadata entry) of TypeFile \<Rightarrow> ''file'' | TypeDirectory \<Rightarrow> ''directory'')),
      (''size'', JNumber (case le_metadata entry of FileEntry f \<Rightarrow> fm_size f | DirEntry _ \<Rightarrow> 0)),
      (''generation'', JNumber (entry_generation (le_metadata entry)))]"

definition desktop_list :: "local_filesystem option \<Rightarrow> c_pointer \<Rightarrow> bridge_op" where
  "desktop_list handle path = on_path handle path (\<lambda>lf path w.
     Some (answering (\<lambda>entries. JObject [(''entries'', JArray (map entry_value entries))]) (svc_list (lf_service lf) path w)))"

text \<open>
  Reading takes two calls of the service, and other processes may change the files between them: \<open>between\<close>
  is what they do.
\<close>

definition desktop_read :: "hash_function \<Rightarrow> (bridge_world \<Rightarrow> bridge_world) \<Rightarrow> local_filesystem option \<Rightarrow> c_pointer \<Rightarrow> bridge_op" where
  "desktop_read sha256 between handle path = on_path handle path (\<lambda>lf path w.
     (case svc_read (lf_service lf) sha256 path w of
        (Inl e, w1) \<Rightarrow> Some (Inl (filesystem_error_display e), w1)
      | (Inr data, w1) \<Rightarrow>
          if \<not> is_utf8 (bytes_text data) then Some (Inl ''file is not UTF-8 text'', w1)
          else Some (answering (\<lambda>metadata. JObject [(''content'', JString (bytes_text data)), (''generation'', JNumber (entry_generation metadata))])
            (svc_stat (lf_service lf) path (between w1)))))"

definition desktop_mkdir :: "clock \<Rightarrow> directory_id \<Rightarrow> local_filesystem option \<Rightarrow> c_pointer \<Rightarrow> bridge_op" where
  "desktop_mkdir clk new handle path = on_path handle path (\<lambda>lf path w.
     map_option (answering (\<lambda>_. JObject [])) (svc_mkdir (lf_service lf) clk new path w))"

definition generation_value :: "file_metadata \<Rightarrow> json_value" where
  "generation_value metadata = JObject [(''generation'', JNumber (fm_generation metadata))]"

definition desktop_create :: "clock \<Rightarrow> file_id \<Rightarrow> local_filesystem option \<Rightarrow> c_pointer \<Rightarrow> bridge_op" where
  "desktop_create clk new handle path = on_path handle path (\<lambda>lf path w.
     map_option (answering generation_value) (svc_create (lf_service lf) clk new path w))"

definition desktop_write :: "u64 \<Rightarrow> local_filesystem option \<Rightarrow> c_pointer \<Rightarrow> c_pointer \<Rightarrow> u64 \<Rightarrow> bridge_op" where
  "desktop_write now handle path content expected_generation w = (case bridge_path path of
     Inl e \<Rightarrow> Some (Inl e, w)
   | Inr path \<Rightarrow> (case ok_or (c_string content) ''invalid UTF-8 content'' of
       Inl e \<Rightarrow> Some (Inl e, w)
     | Inr content \<Rightarrow> (case bridge_local handle of
         Inl e \<Rightarrow> Some (Inl e, w)
       | Inr lf \<Rightarrow> Some (answering generation_value
           (svc_write (lf_service lf) now path (text_bytes content) (Some expected_generation) (lf_device_id lf) w)))))"

definition desktop_remove :: "clock \<Rightarrow> local_filesystem option \<Rightarrow> c_pointer \<Rightarrow> bridge_op" where
  "desktop_remove clk handle path = on_path handle path (\<lambda>lf path w.
     map_option (answering (\<lambda>_. JObject [])) (svc_remove (lf_service lf) clk path w))"

text \<open>Opening makes the home directory of the one user; every failure is a null handle.\<close>

definition desktop_open ::
    "(string \<Rightarrow> (disk, filesystem_error, local_filesystem) op) \<Rightarrow> (nat \<Rightarrow> clock) \<Rightarrow> (nat \<Rightarrow> directory_id) \<Rightarrow> c_pointer \<Rightarrow> disk
     \<Rightarrow> (local_filesystem option \<times> disk \<times> disk) option" where
  "desktop_open opening clk ids data_directory d = (case c_string data_directory of
     None \<Rightarrow> Some (None, d, d)
   | Some data_directory \<Rightarrow> (case opening data_directory d of
       (Inl _, d1) \<Rightarrow> Some (None, d1, d1)
     | (Inr lf, d1) \<Rightarrow> map_option (\<lambda>(r, w). ((case r of Inl _ \<Rightarrow> None | Inr _ \<Rightarrow> Some lf), w_metadata w, w_contents w))
         (bootstrap_home (lf_service lf) clk ids ''user'' (local_world lf d1))))"

subsection \<open>Responses\<close>

text \<open>
  Whatever an operation does, the shell gets a C string: the text that answers it holds no NUL, so that
  making it cannot panic where no handler is left, and it is the JSON text itself when that has none.
\<close>

theorem bridge_call_total:
  "\<exists>text. bridge_call print outcome = Some text \<and> CHR 0x00 \<notin> set text \<and>
     (CHR 0x00 \<notin> set (print (bridge_response outcome)) \<longrightarrow> text = print (bridge_response outcome))"
proof -
  have "CHR 0x00 \<notin> set (replace_char (CHR 0x00) [CHR 0x5C, CHR ''u'', CHR ''0'', CHR ''0'', CHR ''0'', CHR ''0''] s)" for s
    by (auto simp: replace_char_def split: if_splits)
  moreover have "CHR 0x00 \<notin> set s \<Longrightarrow> replace_char (CHR 0x00) r s = s" for r s
    by (induction s) (auto simp: replace_char_def)
  ultimately show ?thesis by (simp add: bridge_call_def cstring_new_def)
qed

subsection \<open>Writing and reading\<close>

lemma answering_Inr: "answering value outcome = (Inr v, w) \<longleftrightarrow> (\<exists>x. outcome = (Inr x, w) \<and> v = value x)"
  by (auto simp: answering_def split: prod.splits sum.splits)

lemma c_string_utf8: "c_string p = Some s \<Longrightarrow> is_utf8 s"
  by (auto simp: c_string_def Let_def split: option.splits if_splits)

lemma desktop_write_Inr:
  assumes "desktop_write now handle path content g w = Some (Inr reply, w1)"
  obtains lf p body m where "handle = Some lf" "c_string path = Some p" "c_string content = Some body" "reply = generation_value m"
    "svc_write (lf_service lf) now p (text_bytes body) (Some g) (lf_device_id lf) w = (Inr m, w1)"
  using assms by (auto simp: desktop_write_def bridge_path_def bridge_local_def answering_Inr split: sum.splits option.splits)

text \<open>
  What reading a file that was written answers: the text that the first call finds, and the generation that
  the second call finds. The two calls see the worlds \<open>w2\<close> and \<open>wb\<close>.
\<close>

lemma desktop_read_written:
  assumes opened: "local_filesystem_open E draw sha256 K J dir hostname d = (Inr lf, d')"
    and w: "w_registry w = lf_registry lf" "local_ok J (local_metadata_at dir) (w_metadata w)"
    and wr: "desktop_write now (Some lf) path content g w = Some (Inr reply, w1)" "c_string content = Some body" "c_string path = Some p"
    and kept: "local_ok J (local_metadata_at dir) (w_metadata w2)" "file_kept J dir p (w_metadata w1) (w_metadata w2)"
      "placement_kept J dir (lf_device_id lf) (for_bytes sha256 (text_bytes body)) (w_metadata w1) (w_metadata w2)"
    and blob: "local_blob (local_content_at dir) (w_contents w2) (for_bytes sha256 (text_bytes body)) =
       local_blob (local_content_at dir) (w_contents w1) (for_bytes sha256 (text_bytes body))"
    and later: "healthy (w_metadata w2)" "healthy (w_contents w2)" "w_registry w2 = lf_registry lf"
    and coll: "\<And>b. local_blob (local_content_at dir) (w_contents w1) (for_bytes sha256 (text_bytes body)) = Some b \<Longrightarrow>
      sha256 b = sha256 (text_bytes body) \<Longrightarrow> b = text_bytes body"
    and second: "local_ok J (local_metadata_at dir) (w_metadata wb)" "healthy (w_metadata wb)" "fs_path_parse p = Inr cs"
      "paths (local_view J (local_metadata_at dir) (w_metadata wb)) cs = Some (FileTarget f)"
      "map_of (ms_files (local_view J (local_metadata_at dir) (w_metadata wb))) f = Some m"
  shows "\<exists>w3. desktop_read sha256 (\<lambda>_. wb) (Some lf) path w2 =
    Some (Inr (JObject [(''content'', JString body), (''generation'', JNumber (fm_generation m))]), w3)"
proof -
  from wr obtain m0 where sw: "svc_write (lf_service lf) now p (text_bytes body) (Some g) (lf_device_id lf) w = (Inr m0, w1)"
    by (auto elim!: desktop_write_Inr)
  from local_read_after_write [OF opened w sw kept blob later coll] obtain w3 where
    rd: "svc_read (lf_service lf) sha256 p w2 = (Inr (text_bytes body), w3)" by blast
  obtain d3 where "stat (local_metadata_ops J (local_metadata_at dir)) p (w_metadata wb) = (Inr (FileEntry m), d3)"
    using local_stat_healthy [OF second(1,2) _ second(3-5)] by (auto simp: local_metadata_at_def)
  then have "\<exists>w4. svc_stat (lf_service lf) p wb = (Inr (FileEntry m), w4)"
    by (simp add: svc_stat_def on_metadata_eq local_filesystem_open_parts(1) [OF opened])
  with rd wr(3) c_string_utf8 [OF wr(2)] show ?thesis
    by (auto simp: desktop_read_def on_path_def bridge_path_def bridge_local_def answering_def)
qed

text \<open>
  C17: the desktop shell reads what it wrote, with the generation that the write answered with, which is the one the next
  write has to expect. Whatever failed on the disk during the write but the \<open>stat\<close> behind \<open>Path::exists\<close>, and whatever others
  did to other files since, between the write and the read or between the two calls the read makes: all that is asked is that
  the path still names the file with the metadata that the write left, that its content is still placed on this device
  with its blob unchanged, that the calls of the read do not fail, and that the blob is no second preimage of the digest.
\<close>

theorem desktop_read_after_write:
  assumes opened: "local_filesystem_open E draw sha256 K J dir hostname d = (Inr lf, d')"
    and w: "w_registry w = lf_registry lf" "local_ok J (local_metadata_at dir) (w_metadata w)"
    and wr: "desktop_write now (Some lf) path content g w = Some (Inr reply, w1)" "c_string content = Some body" "c_string path = Some p"
    and first: "local_ok J (local_metadata_at dir) (w_metadata w2)" "file_kept J dir p (w_metadata w1) (w_metadata w2)"
      "placement_kept J dir (lf_device_id lf) (for_bytes sha256 (text_bytes body)) (w_metadata w1) (w_metadata w2)"
    and blob: "local_blob (local_content_at dir) (w_contents w2) (for_bytes sha256 (text_bytes body)) =
       local_blob (local_content_at dir) (w_contents w1) (for_bytes sha256 (text_bytes body))"
    and later: "healthy (w_metadata w2)" "healthy (w_contents w2)" "w_registry w2 = lf_registry lf"
    and coll: "\<And>b. local_blob (local_content_at dir) (w_contents w1) (for_bytes sha256 (text_bytes body)) = Some b \<Longrightarrow>
      sha256 b = sha256 (text_bytes body) \<Longrightarrow> b = text_bytes body"
    and second: "local_ok J (local_metadata_at dir) (w_metadata wb)" "healthy (w_metadata wb)" "file_kept J dir p (w_metadata w1) (w_metadata wb)"
  shows "\<exists>generation w3. reply = JObject [(''generation'', JNumber generation)] \<and>
    desktop_read sha256 (\<lambda>_. wb) (Some lf) path w2 =
      Some (Inr (JObject [(''content'', JString body), (''generation'', JNumber generation)]), w3)"
  using wr(1)
proof (rule desktop_write_Inr)
  fix lf' p' body' m
  assume "Some lf = Some lf'" "c_string path = Some p'" "c_string content = Some body'" "reply = generation_value m"
    and "svc_write (lf_service lf') now p' (text_bytes body') (Some g) (lf_device_id lf') w = (Inr m, w1)"
  then have reply: "reply = generation_value m"
    and sw: "svc_write (lf_service lf) now p (text_bytes body) (Some g) (lf_device_id lf) w = (Inr m, w1)"
    using wr(2,3) by simp_all
  show ?thesis
    using opened w sw
  proof (rule local_write_effect)
    fix f cs
    assume cs: "fs_path_parse p = Inr cs" and "paths (local_view J (local_metadata_at dir) (w_metadata w1)) cs = Some (FileTarget f)"
      "map_of (ms_files (local_view J (local_metadata_at dir) (w_metadata w1))) f = Some m"
    with second(3) have "paths (local_view J (local_metadata_at dir) (w_metadata wb)) cs = Some (FileTarget f)"
      "map_of (ms_files (local_view J (local_metadata_at dir) (w_metadata wb))) f = Some m"
      by (auto simp: file_kept_def Let_def)
    from desktop_read_written [OF opened w wr first blob later coll second(1,2) cs this] reply show ?thesis
      by (auto simp: generation_value_def)
  qed
qed

text \<open>The shell writes two bytes to a file and reads them.\<close>

definition demo_opened :: "local_filesystem fs_result \<times> disk" where
  "demo_opened = local_filesystem_open demo_identity_env demo_draw demo_hash demo_agent_codec demo_snapshot_codec [''data''] None demo_data_disk"

definition demo_local_filesystem :: local_filesystem where
  "demo_local_filesystem = \<lparr>lf_service = filesystem_service_new (local_metadata_ops demo_snapshot_codec (local_metadata_at [''data''])),
     lf_registry = \<lparr>reg_nodes = [(demo_device_id, \<lparr>rn_state = local_node demo_device_id,
       rn_store = local_content_store demo_hash (local_content_at [''data''])\<rparr>)], reg_poisoned = False\<rparr>,
     lf_device_id = demo_device_id\<rparr>"

lemma demo_opens: "\<exists>d'. demo_opened = (Inr demo_local_filesystem, d')"
proof -
  have run: "\<not> isl (fst demo_opened)" "lf_device_id (projr (fst demo_opened)) = demo_device_id" by code_simp+
  then obtain lf d' where lf: "demo_opened = (Inr lf, d')" by (metis prod.collapse sum.collapse(2))
  from run(2) have "lf_device_id lf = demo_device_id" unfolding lf by simp
  with local_filesystem_open_eq [OF lf [unfolded demo_opened_def]] have "lf = demo_local_filesystem"
    by (simp add: demo_local_filesystem_def)
  with lf show ?thesis by blast
qed

definition demo_desktop_write :: "((string + json_value) \<times> bridge_world) option" where
  "demo_desktop_write = desktop_write 9 (Some demo_local_filesystem) (Some ''/a/f'') (Some [CHR 0x01, CHR 0x02, CHR 0x00, CHR ''x'']) 1
     (local_world demo_local_filesystem demo_data_disk)"

lemma demo_desktop_writes:
  "map_option fst demo_desktop_write = Some (Inr (JObject [(''generation'', JNumber 2)]))"
  "map_option (\<lambda>(r, w). healthy (w_metadata w) \<and> healthy (w_contents w)) demo_desktop_write = Some True"
  by code_simp+

theorem desktop_read_after_write_witness:
  "\<exists>w1 w3. demo_desktop_write = Some (Inr (JObject [(''generation'', JNumber 2)]), w1) \<and>
    desktop_read demo_hash (\<lambda>_. w1) (Some demo_local_filesystem) (Some ''/a/f'') w1 =
      Some (Inr (JObject [(''content'', JString [CHR 0x01, CHR 0x02]), (''generation'', JNumber 2)]), w3)"
proof -
  from demo_opens obtain d' where opened: "demo_opened = (Inr demo_local_filesystem, d')" by blast
  obtain w1 where wr: "demo_desktop_write = Some (Inr (JObject [(''generation'', JNumber 2)]), w1)"
    using demo_desktop_writes(1) by fastforce
  have ok: "healthy (w_metadata w1)" "healthy (w_contents w1)" using demo_desktop_writes(2) unfolding wr by simp_all
  have content: "c_string (Some [CHR 0x01, CHR 0x02, CHR 0x00, CHR ''x'']) = Some [CHR 0x01, CHR 0x02]" by code_simp
  have name: "c_string (Some ''/a/f'') = Some ''/a/f''" by code_simp
  have bytes: "text_bytes [CHR 0x01, CHR 0x02] = [1, 2]" by code_simp
  have w: "w_registry (local_world demo_local_filesystem demo_data_disk) = lf_registry demo_local_filesystem"
    "local_ok demo_snapshot_codec (local_metadata_at [''data'']) (w_metadata (local_world demo_local_filesystem demo_data_disk))"
    using demo_device_ok by (simp_all add: local_world_def)
  from wr obtain p m where sw: "svc_write (lf_service demo_local_filesystem) 9 p [1, 2] (Some 1) (lf_device_id demo_local_filesystem)
      (local_world demo_local_filesystem demo_data_disk) = (Inr m, w1)"
    unfolding demo_desktop_write_def using content bytes by (auto elim!: desktop_write_Inr)
  then have reg: "w_registry w1 = lf_registry demo_local_filesystem" by (rule svc_write_steps) (simp add: local_world_def)
  have ok1: "local_ok demo_snapshot_codec (local_metadata_at [''data'']) (w_metadata w1)"
    using opened [unfolded demo_opened_def] w sw by (rule local_write_effect)
  have "b = [1, 2]" if "demo_hash b = demo_hash [1, 2]" for b using that by (simp add: demo_hash_def split: if_splits)
  then show ?thesis
    using desktop_read_after_write [OF opened [unfolded demo_opened_def] w wr [unfolded demo_desktop_write_def] content _ ok1
        kept_same(1) [OF refl] kept_same(2) [OF refl] refl ok reg _ ok1 ok(1) kept_same(1) [OF refl]] name bytes wr
    by simp blast
qed

end
