(* ===== verification/Agent_Inv.thy ===== *)
theory Agent_Inv
  imports Agent
begin

section \<open>The membership state over whole runs\<close>

text \<open>
  Every change of the persistent state is one of seven edits under the store's exclusive lock. They are the
  steps of \<open>agent_edit\<close>; the handlers, whatever fails in between, are sequences of them, and so are
  interleavings of the handlers of several threads and processes. The well-formedness of the state and the
  bound on members are invariants of the steps.
\<close>

subsection \<open>Well-formed states\<close>

definition member_devices :: "stored_cluster \<Rightarrow> device_id list" where
  "member_devices c = map (\<lambda>m. mb_device_id (stm_member m)) (scl_members c)"

definition invite_for :: "token_codec \<Rightarrow> string \<Rightarrow> cluster_id \<Rightarrow> device_id \<Rightarrow> bool" where
  "invite_for K token cluster coordinator \<longleftrightarrow> (case invitation_decode K token of Inl _ \<Rightarrow> False
     | Inr invitation \<Rightarrow> pin_cluster_id invitation = cluster \<and> pin_coordinator_device_id invitation = coordinator)"

definition coordinator_wf :: "agent_env \<Rightarrow> device_id \<Rightarrow> stored_cluster \<Rightarrow> bool" where
  "coordinator_wf A device c \<longleftrightarrow>
     scl_coordinator_device_id c = device \<and>
     distinct (member_devices c) \<and>
     distinct (map aj_request_id (scl_accepted_joins c)) \<and>
     (\<forall>m \<in> set (scl_members c). stm_credential_digest m = credential_digest (ae_sha256 A) (stm_credential m)) \<and>
     (\<exists>m \<in> set (scl_members c). mb_device_id (stm_member m) = device \<and> stm_credential m = scl_credential c) \<and>
     (\<forall>a \<in> set (scl_accepted_joins c). \<exists>m \<in> set (scl_members c).
        mb_device_id (stm_member m) = aj_device_id a \<and> stm_credential m = aj_credential a) \<and>
     length (scl_members c) = Suc (length (scl_accepted_joins c)) \<and>
     (\<forall>token. scl_invite_token c = Some token \<longrightarrow> invite_for (ae_tokens A) token (scl_id c) device)"

definition agent_wf :: "agent_env \<Rightarrow> agent_state \<Rightarrow> bool" where
  "agent_wf A s \<longleftrightarrow>
     (\<forall>c. ags_cluster s = Some c \<longrightarrow> ags_pending_join s = None \<and>
        (scl_role c = Coordinator \<longrightarrow> coordinator_wf A (ags_device_id s) c) \<and>
        (scl_role c = Member \<longrightarrow> scl_accepted_joins c = [] \<and> scl_invite_token c = None)) \<and>
     (\<forall>p. ags_pending_join s = Some p \<longrightarrow> invite_for (ae_tokens A) (pj_invite_token p) (pj_cluster_id p) (pj_coordinator_device_id p))"

lemma bump_sel [simp]:
  "ags_cluster (bump s) = ags_cluster s" "ags_pending_join (bump s) = ags_pending_join s"
  "ags_device_id (bump s) = ags_device_id s" "ags_device_name (bump s) = ags_device_name s"
  by (simp_all add: bump_def)

lemma agent_wf_bump [simp]: "agent_wf A (bump s) = agent_wf A s"
  by (simp add: agent_wf_def)

lemma initial_state_wf: "agent_wf A (initial_state device name)"
  by (simp add: agent_wf_def initial_state_def)

lemma new_invite_for:
  assumes "token_codec_ok K" "invitation_encode K (invitation_new cluster device (new_secret a b)) = Inr token"
  shows "invite_for K token cluster device"
proof -
  let ?i = "invitation_new cluster device (new_secret a b)"
  have "invitation_decode K token = Inr ?i"
    by (rule invitation_roundtrip [OF assms]) (simp_all add: invitation_new_def)
  then show ?thesis by (simp add: invite_for_def invitation_new_def)
qed

subsection \<open>Steps\<close>

text \<open>The flag says whether the step issues an invitation.\<close>

inductive agent_edit :: "agent_env \<Rightarrow> bool \<Rightarrow> agent_state \<Rightarrow> agent_state \<Rightarrow> bool" for A where
  create: "create_cluster_edit A rng now endpoint name credential s = Inr (x, s') \<Longrightarrow> agent_edit A True s (bump s')"
| invite: "create_invite_edit A rng s = Inr (y, s') \<Longrightarrow> agent_edit A True s (bump s')"
| accept: "accept_member_edit A token member request credential s = Inr (z, s') \<Longrightarrow> agent_edit A False s (bump s')"
| begin_join: "invitation_decode (ae_tokens A) token = Inr invitation \<Longrightarrow>
    begin_join_edit rng invitation coordinator token s = Inr (p, s') \<Longrightarrow> agent_edit A False s (bump s')"
| abandon: "abandon_join_edit request s = Inr (u, s') \<Longrightarrow> agent_edit A False s (bump s')"
| commit: "commit_join_edit request summary credential members s = Inr (u, s') \<Longrightarrow> agent_edit A False s (bump s')"
| roster: "ags_cluster s = Some c \<Longrightarrow> scl_role c = Member \<Longrightarrow>
    store_roster_edit summary members s = Inr (u, s') \<Longrightarrow> agent_edit A False s (bump s')"

lemma create_cluster_edit_ok:
  assumes "create_cluster_edit A rng now endpoint name credential s = Inr (x, s')"
  obtains c token where "s' = s\<lparr>ags_cluster := Some c\<rparr>" "x = (cluster_summary_of c, token)" "ags_cluster s = None"
    "ags_pending_join s = None" "scl_role c = Coordinator" "scl_members c \<noteq> []"
    "invitation_encode (ae_tokens A) (invitation_new (scl_id c) (ags_device_id s) (new_secret (rng 3) (rng 4))) = Inr token"
    "scl_invite_token c = Some token" "scl_accepted_joins c = []" "scl_coordinator_device_id c = ags_device_id s"
    "scl_credential c = credential" "scl_coordinator c = endpoint"
    "scl_members c = [\<lparr>stm_member = own_member s endpoint now, stm_credential = credential,
      stm_credential_digest = credential_digest (ae_sha256 A) credential\<rparr>]"
  using assms by (auto simp: create_cluster_edit_def Let_def own_member_def split: if_splits)

lemma create_invite_edit_ok:
  assumes "create_invite_edit A rng s = Inr (token, s')"
  obtains c where "ags_cluster s = Some c" "scl_role c = Coordinator"
    "invitation_encode (ae_tokens A) (invitation_new (scl_id c) (scl_coordinator_device_id c) (new_secret (rng 0) (rng 1))) = Inr token"
    "s' = s\<lparr>ags_cluster := Some (c\<lparr>scl_invite_token := Some token\<rparr>)\<rparr>"
  using assms by (auto simp: create_invite_edit_def split: if_splits)

lemma accept_member_edit_cases:
  assumes "accept_member_edit A token member request credential s = Inr ((summary, issued, roster), s')"
  obtains (again) c a where "ags_cluster s = Some c" "scl_role c = Coordinator" "s' = s"
      "a \<in> set (scl_accepted_joins c)" "aj_request_id a = request" "aj_device_id a = mb_device_id member" "issued = aj_credential a"
      "summary = cluster_summary_of c" "roster = authorized_members (ae_sha256 A) c"
      "find (\<lambda>a. aj_request_id a = request) (scl_accepted_joins c) = Some a"
    | (fresh) c c' where "ags_cluster s = Some c" "scl_role c = Coordinator" "s' = s\<lparr>ags_cluster := Some c'\<rparr>"
      "request \<notin> aj_request_id ` set (scl_accepted_joins c)" "scl_invite_token c = Some token"
      "mb_device_id member \<notin> set (member_devices c)" "issued = credential"
      "summary = cluster_summary_of c'" "roster = authorized_members (ae_sha256 A) c'"
      "c' = c\<lparr>scl_members := scl_members c @ [\<lparr>stm_member = member, stm_credential = credential,
                  stm_credential_digest = credential_digest (ae_sha256 A) credential\<rparr>],
                scl_accepted_joins := scl_accepted_joins c @ [\<lparr>aj_request_id = request,
                  aj_device_id = mb_device_id member, aj_credential = credential\<rparr>],
                scl_invite_token := None\<rparr>"
proof -
  from assms obtain c where c: "ags_cluster s = Some c" "scl_role c = Coordinator"
    by (auto simp: accept_member_edit_def split: if_splits)
  show thesis
  proof (cases "find (\<lambda>a. aj_request_id a = request) (scl_accepted_joins c)")
    case (Some a)
    with assms c have "aj_device_id a = mb_device_id member" "s' = s" "issued = aj_credential a"
      "summary = cluster_summary_of c" "roster = authorized_members (ae_sha256 A) c"
      by (simp_all add: accept_member_edit_def split: if_splits)
    with find_SomeD [OF Some] Some c show thesis by (intro again) simp_all
  next
    case None
    then have "request \<notin> aj_request_id ` set (scl_accepted_joins c)" by (auto simp: find_None_iff)
    moreover from None assms c have "scl_invite_token c = Some token" "mb_device_id member \<notin> set (member_devices c)"
      by (auto simp: accept_member_edit_def member_devices_def list_ex_iff split: if_splits)
    ultimately show thesis using None assms c
      by (intro fresh) (auto simp: accept_member_edit_def Let_def split: if_splits)
  qed
qed

lemma begin_join_edit_cases:
  assumes "begin_join_edit rng invitation coordinator token s = Inr (p, s')"
  obtains "ags_cluster s = None" "s' = s\<lparr>ags_pending_join := Some p\<rparr>" "pj_coordinator p = coordinator" "pj_invite_token p = token"
    "ags_pending_join s = Some p \<or> ags_pending_join s = None \<and> pj_request_id p = JoinRequestId (rng 0) \<and>
       pj_cluster_id p = pin_cluster_id invitation \<and> pj_coordinator_device_id p = pin_coordinator_device_id invitation"
  using assms by (auto simp: begin_join_edit_def Let_def split: if_splits option.splits)

lemma agent_edit_wf:
  assumes "agent_edit A b s s'" "token_codec_ok (ae_tokens A)" "agent_wf A s"
  shows "agent_wf A s'"
  using assms(1)
proof cases
  case (create rng now endpoint name credential x s1)
  from create(3) show ?thesis
    by (rule create_cluster_edit_ok)
       (use create(2) assms(2) in \<open>auto simp: agent_wf_def coordinator_wf_def member_devices_def own_member_def intro: new_invite_for\<close>)
next
  case (invite rng y s1)
  from invite(3) show ?thesis
    by (rule create_invite_edit_ok)
       (use invite(2) assms(2,3) in \<open>auto simp: agent_wf_def coordinator_wf_def member_devices_def intro: new_invite_for\<close>)
next
  case (accept token member request credential z s1)
  obtain summary issued roster where z: "z = (summary, issued, roster)" by (metis prod_cases3)
  from accept(3) [unfolded z] show ?thesis
  proof (cases rule: accept_member_edit_cases)
    case again
    with accept(2) assms(3) show ?thesis by simp
  next
    case (fresh c c')
    with assms(3) have "coordinator_wf A (ags_device_id s) c" "ags_pending_join s = None" by (simp_all add: agent_wf_def)
    with fresh accept(2) show ?thesis by (auto simp: agent_wf_def coordinator_wf_def member_devices_def)
  qed
next
  case (begin_join token invitation rng coordinator p s1)
  from begin_join(4) show ?thesis
    by (rule begin_join_edit_cases) (use begin_join(2,3) assms(3) in \<open>auto simp: agent_wf_def invite_for_def\<close>)
next
  case (abandon request u s1)
  with assms(3) show ?thesis by (auto simp: abandon_join_edit_def agent_wf_def split: option.splits if_splits)
next
  case (commit request summary credential members u s1)
  with assms(3) show ?thesis by (auto simp: commit_join_edit_def agent_wf_def split: option.splits if_splits)
next
  case (roster c summary members u s1)
  with assms(3) show ?thesis by (auto simp: store_roster_edit_def agent_wf_def split: if_splits)
qed

lemma agent_edit_device: "agent_edit A b s s' \<Longrightarrow> ags_device_id s' = ags_device_id s"
  by (cases rule: agent_edit.cases, assumption)
     (auto simp: abandon_join_edit_def commit_join_edit_def store_roster_edit_def split: option.splits if_splits
       elim!: create_cluster_edit_ok create_invite_edit_ok begin_join_edit_cases accept_member_edit_cases)

text \<open>A device that is in a cluster stays in it, in the same role: a roster fetched by a member is stored by a member.\<close>

lemma agent_edit_role:
  assumes "agent_edit A b s s'" "ags_cluster s = Some c"
  shows "\<exists>c'. ags_cluster s' = Some c' \<and> scl_id c' = scl_id c \<and> scl_role c' = scl_role c"
  using assms
  by (cases rule: agent_edit.cases)
     (auto simp: abandon_join_edit_def commit_join_edit_def store_roster_edit_def split: option.splits if_splits
       elim!: create_cluster_edit_ok create_invite_edit_ok begin_join_edit_cases accept_member_edit_cases)

text \<open>Members and outstanding invitations of a coordinator; a place for the device itself otherwise.\<close>

definition places :: "agent_state \<Rightarrow> nat" where
  "places s = (case ags_cluster s of
     None \<Rightarrow> 1
   | Some c \<Rightarrow> if scl_role c = Coordinator then length (scl_members c) + (if scl_invite_token c = None then 0 else 1) else 1)"

lemma places_bump [simp]: "places (bump s) = places s"
  by (simp add: places_def)

lemma agent_edit_places:
  assumes "agent_edit A b s s'"
  shows "places s' \<le> places s + (if b then 1 else 0)"
  using assms
  by (cases rule: agent_edit.cases)
     (auto simp: abandon_join_edit_def commit_join_edit_def store_roster_edit_def places_def split: option.splits if_splits
       elim!: create_cluster_edit_ok create_invite_edit_ok begin_join_edit_cases accept_member_edit_cases)

inductive agent_edits :: "agent_env \<Rightarrow> nat \<Rightarrow> agent_state \<Rightarrow> agent_state \<Rightarrow> bool" for A where
  none: "agent_edits A 0 s s"
| step: "agent_edits A n s t \<Longrightarrow> agent_edit A b t u \<Longrightarrow> agent_edits A (if b then Suc n else n) s u"

lemma agent_edits_trans: "agent_edits A k t u \<Longrightarrow> agent_edits A n s t \<Longrightarrow> agent_edits A (n + k) s u"
proof (induction rule: agent_edits.induct)
  case (step k t v b u)
  from agent_edits.step [OF step.IH [OF step.prems] step.hyps(2)] show ?case by (cases b) simp_all
qed simp

lemma agent_edits_one: "agent_edit A b s t \<Longrightarrow> agent_edits A (if b then 1 else 0) s t"
  using agent_edits.step [OF agent_edits.none] by fastforce

lemma agent_edits_wf: "agent_edits A n s t \<Longrightarrow> token_codec_ok (ae_tokens A) \<Longrightarrow> agent_wf A s \<Longrightarrow> agent_wf A t"
  by (induction rule: agent_edits.induct) (auto intro: agent_edit_wf)

lemma agent_edits_places: "agent_edits A n s t \<Longrightarrow> places t \<le> places s + n"
proof (induction rule: agent_edits.induct)
  case (step n s t b u)
  with agent_edit_places [OF step.hyps(2)] show ?case by (auto split: if_splits)
qed simp

lemma agent_edits_device: "agent_edits A n s t \<Longrightarrow> ags_device_id t = ags_device_id s"
  by (induction rule: agent_edits.induct) (auto dest: agent_edit_device)

end
