(* ===== verification/Agent_Runs.thy ===== *)
theory Agent_Runs
  imports Agent_Inv
begin

section \<open>Handlers are sequences of edits\<close>

text \<open>
  Whatever the disk, the network and the peers do, a handler leaves a readable state that comes from the
  state before by edits. The invariants of edits are those of every run of the agent.
\<close>

abbreviation agent_ok :: "agent_env \<Rightarrow> ('c, 'n) agent \<Rightarrow> bool" where
  "agent_ok A w \<equiv> cluster_ok (ae_json A) (ae_store A) (ag_disk w)"

abbreviation agent_view :: "agent_env \<Rightarrow> ('c, 'n) agent \<Rightarrow> agent_state" where
  "agent_view A w \<equiv> cluster_view (ae_json A) (ae_store A) (ag_disk w)"

definition evolves :: "agent_env \<Rightarrow> nat \<Rightarrow> ('c, 'n) agent \<Rightarrow> ('c, 'n) agent \<Rightarrow> bool" where
  "evolves A n w w' \<longleftrightarrow> agent_ok A w' \<and> (\<exists>k \<le> n. agent_edits A k (agent_view A w) (agent_view A w'))"

text \<open>At most \<open>n\<close> invitations are issued.\<close>

definition edits_only :: "agent_env \<Rightarrow> nat \<Rightarrow> ('c, 'n, 'a) agent_op \<Rightarrow> bool" where
  "edits_only A n m \<longleftrightarrow> (\<forall>w r w'. agent_ok A w \<longrightarrow> m w = (r, w') \<longrightarrow> evolves A n w w')"

named_theorems edits_intros \<open>operations that only make edits\<close>

lemma evolves_refl [simp]: "agent_ok A w \<Longrightarrow> evolves A n w w"
  unfolding evolves_def using agent_edits.none by blast

lemma evolves_same: "agent_ok A w \<Longrightarrow> ag_disk w' = ag_disk w \<Longrightarrow> evolves A n w w'"
  unfolding evolves_def using agent_edits.none by auto

lemma evolves_trans: "evolves A n w w1 \<Longrightarrow> evolves A k w1 w2 \<Longrightarrow> evolves A (n + k) w w2"
  unfolding evolves_def by (meson add_mono agent_edits_trans)

lemma evolves_mono: "evolves A n w w' \<Longrightarrow> n \<le> k \<Longrightarrow> evolves A k w w'"
  unfolding evolves_def using le_trans by blast

lemma edits_lift [edits_intros]: "edits_only A n (op_lift r)"
  by (auto simp: edits_only_def)

lemma edits_other [edits_intros]:
  "edits_only A n (on_net m)" "edits_only A n (on_presence p)" "edits_only A n (on_content c)" "edits_only A n injected_failure"
  by (auto simp: edits_only_def on_net_def on_presence_def on_content_def injected_failure_def intro!: evolves_same
      split: prod.splits nat.splits)

lemma edits_bind [edits_intros]:
  assumes "edits_only A n m" "\<And>x. edits_only A k (f x)"
  shows "edits_only A (n + k) (op_bind m f)"
  unfolding edits_only_def
proof (intro allI impI)
  fix w r w'
  assume "agent_ok A w" "op_bind m f w = (r, w')"
  from this(2) show "evolves A (n + k) w w'"
  proof (cases rule: op_bind_cases)
    case (err e)
    with assms(1) \<open>agent_ok A w\<close> have "evolves A n w w'" unfolding edits_only_def by blast
    then show ?thesis by (rule evolves_mono) simp
  next
    case (ok x w1)
    with assms(1) \<open>agent_ok A w\<close> have 1: "evolves A n w w1" unfolding edits_only_def by blast
    then have "agent_ok A w1" by (simp add: evolves_def)
    with assms(2) [of x] ok(2) have "evolves A k w1 w'" unfolding edits_only_def by blast
    with 1 show ?thesis by (rule evolves_trans)
  qed
qed

lemma edits_bind0 [edits_intros]:
  "edits_only A 0 m \<Longrightarrow> (\<And>x. edits_only A 0 (f x)) \<Longrightarrow> edits_only A 0 (op_bind m f)"
  using edits_bind [of A 0 m 0 f] by simp

lemma edits_load [edits_intros]: "edits_only A n (on_disk (agent_load A) :: ('c, 'n, agent_state) agent_op)"
  unfolding edits_only_def
proof (intro allI impI)
  fix w :: "('c, 'n) agent" and r w'
  assume "agent_ok A w" "on_disk (agent_load A) w = (r, w')"
  then obtain d where "agent_load A (ag_disk w) = (r, d)" "w' = w\<lparr>ag_disk := d\<rparr>"
    by (auto simp: on_disk_def split: prod.splits)
  with cs.load_keeps [of "ae_json A" "ae_store A" "ag_disk w" r d] \<open>agent_ok A w\<close> agent_edits.none
  show "evolves A n w w'" by (auto simp: evolves_def)
qed

lemma edits_update:
  assumes "\<And>s x s'. f s = Inr (x, s') \<Longrightarrow> \<exists>b. agent_edit A b s (bump s') \<and> (b \<longrightarrow> 0 < n)"
  shows "edits_only A n (on_disk (agent_update A f) :: ('c, 'n, 'a) agent_op)"
  unfolding edits_only_def
proof (intro allI impI)
  fix w :: "('c, 'n) agent" and r w'
  assume ok: "agent_ok A w" and "on_disk (agent_update A f) w = (r, w')"
  then obtain d where d: "agent_update A f (ag_disk w) = (r, d)" "w' = w\<lparr>ag_disk := d\<rparr>"
    by (auto simp: on_disk_def split: prod.splits)
  from cs.update_law [OF ok d(1)] show "evolves A n w w'"
  proof (elim conjE disjE exE)
    fix x s
    assume *: "cluster_ok (ae_json A) (ae_store A) d" "f (agent_view A w) = Inr (x, s)"
      "cluster_view (ae_json A) (ae_store A) d = bump s"
    then obtain b where b: "agent_edit A b (agent_view A w) (bump s)" "b \<longrightarrow> 0 < n" using assms by blast
    have "(if b then 1 else 0) \<le> n" using b(2) by auto
    with agent_edits_one [OF b(1)] * d(2) show "evolves A n w w'" by (auto simp: evolves_def)
  qed (use d(2) agent_edits.none in \<open>auto simp: evolves_def\<close>)
qed

lemma on_disk_bind: "on_disk (op_bind m f) = op_bind (on_disk m) (\<lambda>x. on_disk (f x))"
  by (auto intro!: ext simp: on_disk_def op_bind_def split: prod.splits sum.splits)

lemma on_disk_lift: "on_disk (op_lift r) w = (r, w)"
  by (simp add: on_disk_def)

lemma edits_on_disk_bind [edits_intros]:
  fixes m :: "'a disk_op" and f :: "'a \<Rightarrow> 'b disk_op"
  assumes "edits_only A n (on_disk m :: ('c, 'n, 'a) agent_op)" "\<And>x. edits_only A 0 (on_disk (f x) :: ('c, 'n, 'b) agent_op)"
  shows "edits_only A n (on_disk (op_bind m f) :: ('c, 'n, 'b) agent_op)"
  unfolding on_disk_bind using edits_bind [OF assms] by simp

lemma edits_on_disk_lift [edits_intros]: "edits_only A n (on_disk (op_lift r))"
  by (auto simp: edits_only_def on_disk_lift)

lemma edits_updates [edits_intros]:
  "edits_only A 1 (on_disk (agent_update A (create_cluster_edit A rng now endpoint name credential)))"
  "edits_only A 1 (on_disk (agent_update A (create_invite_edit A rng)))"
  "edits_only A n (on_disk (agent_update A (accept_member_edit A token member request credential)))"
  "edits_only A n (on_disk (agent_update A (abandon_join_edit request)))"
  "edits_only A n (on_disk (agent_update A (commit_join_edit request summary credential members)))"
  by (rule edits_update; blast intro: agent_edit.intros)+

lemma edits_begin_join [edits_intros]:
  "invitation_decode (ae_tokens A) token = Inr invitation \<Longrightarrow>
    edits_only A n (on_disk (agent_update A (begin_join_edit rng invitation coordinator token)))"
  by (rule edits_update) (blast intro: agent_edit.intros)

subsection \<open>Requests of peers\<close>

lemma edits_accept_member [edits_intros]: "edits_only A n (on_disk (accept_member A rng token member request peer))"
  unfolding accept_member_def by (auto intro!: edits_intros split: prod.splits)

lemma edits_authorize_peer [edits_intros]: "edits_only A n (on_disk (authorize_peer A authorization peer))"
  unfolding authorize_peer_def by (auto intro!: edits_intros)

lemma edits_remote_members [edits_intros]: "edits_only A n (on_disk (remote_members A authorization peer))"
  unfolding remote_members_def by (auto intro!: edits_intros)

lemma edits_authorize_and_observe [edits_intros]: "edits_only A 0 (authorize_and_observe A now authorization peer)"
  unfolding authorize_and_observe_def by (auto intro!: edits_intros)

lemma edits_dispatch_remote [edits_intros]: "edits_only A 0 (dispatch_remote A P rng now request peer)"
  unfolding dispatch_remote_def by (cases request) (auto intro!: edits_intros)

lemma edits_content_put [edits_intros]: "edits_only A 0 (content_put_prepare A P now authorization sz peer)"
  unfolding content_put_prepare_def by (auto intro!: edits_intros)

lemma edits_onlyD: "edits_only A n m \<Longrightarrow> agent_ok A w \<Longrightarrow> m w = (r, w') \<Longrightarrow> evolves A n w w'"
  by (simp add: edits_only_def)

lemma drop_response_disk: "drop_response request response w = (b, w') \<Longrightarrow> ag_disk w' = ag_disk w"
  by (auto simp: drop_response_def split: prod.splits remote_request.splits control_response.splits nat.splits)

lemma handle_remote_evolves:
  assumes "agent_ok A w" "handle_remote A P rng now peer incoming w = (reaction, w')"
  shows "evolves A 0 w w'"
proof (cases "\<exists>envelope. incoming = Inr envelope \<and> env_version envelope = protocol_version")
  case False
  with assms show ?thesis by (auto simp: handle_remote_def split: sum.splits if_splits)
next
  case True
  then obtain envelope where env: "incoming = Inr envelope" "env_version envelope = protocol_version" by blast
  show ?thesis
  proof (cases "\<exists>authorization cid sz. env_body envelope = ContentPut authorization cid sz")
    case True
    then obtain authorization cid sz where put: "env_body envelope = ContentPut authorization cid sz" by blast
    obtain r w1 where run: "content_put_prepare A P now authorization sz peer w = (r, w1)" by fastforce
    with assms(2) env put have "w' = w1" by (cases r) (auto simp: handle_remote_def)
    with edits_onlyD [OF edits_content_put assms(1) run] show ?thesis by simp
  next
    case False
    obtain r w1 where run: "dispatch_remote A P rng now (env_body envelope) peer w = (r, w1)" by fastforce
    have step: "evolves A 0 w w1" by (rule edits_onlyD [OF edits_dispatch_remote assms(1) run])
    have "ag_disk w' = ag_disk w1"
      using assms(2) env False run
      by (cases r; cases "env_body envelope")
         (auto simp: handle_remote_def Let_def split: prod.splits if_splits dest: drop_response_disk)
    with step show ?thesis by (simp add: evolves_def)
  qed
qed

lemma content_put_finish_evolves:
  "agent_ok A w \<Longrightarrow> content_put_finish content cid payload w = (response, w') \<Longrightarrow> evolves A 0 w w'"
  by (cases payload) (auto simp: content_put_finish_def on_content_def intro!: evolves_same split: prod.splits sum.splits)

subsection \<open>Local requests and the presence pass\<close>

lemma edits_create_cluster: "edits_only A 1 (on_disk (create_cluster A rng now endpoint name))"
proof -
  have "edits_only A 1 (on_disk (op_bind (agent_update A (create_cluster_edit A rng now endpoint name credential))
      (\<lambda>(cluster, invite_token). op_lift (Inr (ClusterCreated cluster invite_token)))))" for name credential
    by (rule edits_on_disk_bind [OF edits_updates(1)]) (auto intro: edits_intros split: prod.splits)
  from edits_bind [OF edits_on_disk_lift [of A 0 "validate_cluster_name name"] this] show ?thesis
    by (simp add: create_cluster_def on_disk_bind)
qed

lemma edits_create_invite: "edits_only A 1 (on_disk (create_invite A rng))"
  unfolding create_invite_def by (intro edits_intros)

lemma on_disk_load:
  assumes "agent_ok A w" "on_disk (agent_load A) w = (Inr state, w1)"
  shows "agent_ok A w1 \<and> state = agent_view A w1 \<and> agent_view A w1 = agent_view A w"
  using assms cs.load_ok [of "ae_json A" "ae_store A" "ag_disk w" state] by (auto simp: on_disk_def split: prod.splits)

lemma on_net_disk: "on_net m w = (r, w') \<Longrightarrow> ag_disk w' = ag_disk w"
  by (auto simp: on_net_def split: prod.splits)

lemma store_roster_evolves:
  assumes "agent_ok A w" "ags_cluster (agent_view A w) = Some c" "scl_role c = Member"
    and "on_disk (store_roster A summary members) w = (r, w')"
  shows "evolves A 0 w w'"
proof -
  obtain d where d: "agent_update A (store_roster_edit summary members) (ag_disk w) = (r, d)" "w' = w\<lparr>ag_disk := d\<rparr>"
    using assms(4) by (auto simp: on_disk_def store_roster_def split: prod.splits)
  from cs.update_law [OF assms(1) d(1)] consider
      (changed) s where "cluster_ok (ae_json A) (ae_store A) d" "store_roster_edit summary members (agent_view A w) = Inr ((), s)"
        "cluster_view (ae_json A) (ae_store A) d = bump s"
    | (kept) "cluster_ok (ae_json A) (ae_store A) d" "cluster_view (ae_json A) (ae_store A) d = agent_view A w" by auto
  then show ?thesis
  proof cases
    case (changed s)
    from agent_edits_one [OF roster [OF assms(2,3) changed(2)]] changed d(2) show ?thesis by (auto simp: evolves_def)
  next
    case kept
    with d(2) agent_edits.none show ?thesis by (auto simp: evolves_def)
  qed
qed

text \<open>Asking the coordinator for the roster and storing it, as both users do it.\<close>

lemma roster_exchange_evolves:
  assumes "agent_ok A w" "ags_cluster (agent_view A w) = Some c" "scl_role c = Member"
    and "op_bind (on_net m) (\<lambda>response. case response of
        MemberRoster summary members \<Rightarrow> op_bind (on_disk (store_roster A summary members)) (\<lambda>_. op_lift (f summary members))
      | _ \<Rightarrow> op_lift e) w = (r, w')"
  shows "evolves A 0 w w'"
  using assms(4)
proof (cases rule: op_bind_cases)
  case (err e)
  with on_net_disk assms(1) evolves_same show ?thesis by blast
next
  case (ok response w1)
  note same = on_net_disk [OF ok(1)]
  show ?thesis
  proof (cases "\<exists>summary members. response = MemberRoster summary members")
    case True
    with ok(2) obtain summary members q where "on_disk (store_roster A summary members) w1 = (q, w')"
      by (auto elim!: op_bind_cases)
    with store_roster_evolves [of A w1 c summary members q w'] assms same show ?thesis by (auto simp: evolves_def)
  next
    case False
    with ok(2) have "w' = w1" by (cases response) auto
    with same assms(1) show ?thesis by (auto intro: evolves_same)
  qed
qed

lemma edits_local_members: "edits_only A 0 (local_members A C)"
  unfolding edits_only_def
proof (intro allI impI)
  fix w r w'
  assume ok: "agent_ok A w" and run: "local_members A C w = (r, w')"
  from run show "evolves A 0 w w'" unfolding local_members_def
  proof (cases rule: op_bind_cases)
    case (err e)
    with ok edits_load [of A 0] show ?thesis unfolding edits_only_def by blast
  next
    case (ok state w1)
    note load = on_disk_load [OF \<open>agent_ok A w\<close> ok(1)]
    have "evolves A 0 w1 w'"
    proof (cases "\<exists>c. ags_cluster state = Some c \<and> scl_role c = Member")
      case True
      then obtain c where c: "ags_cluster state = Some c" "scl_role c = Member" by blast
      with ok(2) load roster_exchange_evolves [of A w1 c] show ?thesis by simp
    next
      case False
      then have "ags_cluster state = None \<or> (\<exists>c. ags_cluster state = Some c \<and> scl_role c = Coordinator)"
        using cluster_role.exhaust by blast
      with ok(2) load show ?thesis by auto
    qed
    with load show ?thesis by (simp add: evolves_def)
  qed
qed

lemma op_bind_unit: "op_bind m (\<lambda>_. op_lift (Inr ())) = m"
  by (intro ext) (auto simp: op_bind_def split: prod.splits sum.splits)

lemma edits_refresh_roster:
  assumes "agent_ok A w" "ags_cluster (agent_view A w) = Some c" "refresh_roster A C state c w = (r, w')"
  shows "evolves A 0 w w'"
proof (cases "scl_role c = Member")
  case True
  with roster_exchange_evolves [OF assms(1,2) True, where f = "\<lambda>_ _. Inr ()" and e = "Inr ()", unfolded op_bind_unit] assms(3)
  show ?thesis by (simp add: refresh_roster_def)
next
  case False
  with assms show ?thesis by (simp add: refresh_roster_def)
qed

lemma edits_probe_members [edits_intros]: "edits_only A 0 (probe_members C clock authorization members)"
proof (induction C clock authorization members rule: probe_members.induct)
  case (2 C clock authorization i member members)
  have "edits_only A 0 (probe_member C (clock i) authorization member)"
    by (auto simp: edits_only_def probe_member_def on_net_def on_presence_def intro!: evolves_same split: prod.splits)
  with 2 show ?case by (auto intro!: edits_intros)
qed (unfold probe_members.simps, rule edits_lift)

lemma edits_reconcile_presence: "edits_only A 0 (reconcile_presence A C sync_clock probe_clock)"
  unfolding edits_only_def
proof (intro allI impI)
  fix w r w'
  assume ok: "agent_ok A w" and run: "reconcile_presence A C sync_clock probe_clock w = (r, w')"
  from run show "evolves A 0 w w'" unfolding reconcile_presence_def
  proof (cases rule: op_bind_cases)
    case (err e)
    with ok edits_load [of A 0] show ?thesis unfolding edits_only_def by blast
  next
    case (ok state w1)
    note load = on_disk_load [OF \<open>agent_ok A w\<close> ok(1)]
    have "evolves A 0 w1 w'"
    proof (cases "ags_cluster state")
      case None
      with ok(2) load show ?thesis by simp
    next
      case (Some c)
      let ?rest = "op_bind (on_disk (agent_load A)) (\<lambda>state.
         op_bind (op_lift (ok_or (ags_cluster state) NotInCluster)) (\<lambda>cluster.
         op_bind (on_presence (sync_members sync_clock (public_members cluster) (ags_device_id state))) (\<lambda>_.
         probe_members C probe_clock (own_authorization state cluster) (enumerate 0 (public_members cluster)))))"
      have rest: "edits_only A 0 ?rest" by (intro edits_intros)
      from ok(2) Some have "op_bind (refresh_roster A C state c) (\<lambda>_. ?rest) w1 = (r, w')" by simp
      then show ?thesis
      proof (cases rule: op_bind_cases)
        case (err e)
        with edits_refresh_roster [of A w1 c] load Some show ?thesis by auto
      next
        case (ok u w2)
        with edits_refresh_roster [of A w1 c] load Some have step: "evolves A 0 w1 w2" by auto
        then have "evolves A 0 w2 w'" using edits_onlyD [OF rest _ ok(2)] by (simp add: evolves_def)
        with evolves_trans [OF step] show ?thesis by simp
      qed
    qed
    with load show ?thesis by (simp add: evolves_def)
  qed
qed

lemma edits_request_join: "edits_only A 0 (request_join A C coordinator pending member)"
  unfolding edits_only_def
proof (intro allI impI)
  fix w r w'
  assume ok: "agent_ok A w" and run: "request_join A C coordinator pending member w = (r, w')"
  obtain q w1 where send: "on_net (send_request C coordinator (pj_coordinator_device_id pending)
      (RemoteJoin (pj_invite_token pending) member (pj_request_id pending))) w = (q, w1)" by fastforce
  note same = on_net_disk [OF send]
  have abandon: "edits_only A 0 (op_bind (on_disk (agent_update A (abandon_join_edit (pj_request_id pending)))) (\<lambda>_. op_lift (Inl e)))" for e
    by (intro edits_intros)
  have "evolves A 0 w1 w'"
  proof (cases q)
    case (Inl e)
    with run send same ok show ?thesis
      using edits_onlyD [OF abandon [of e], of w1 r w'] by (auto simp: request_join_def split: if_splits)
  next
    case (Inr response)
    with run send same ok show ?thesis by (simp add: request_join_def)
  qed
  with same show "evolves A 0 w w'" by (simp add: evolves_def)
qed

lemma edits_finish_join: "edits_only A 0 (finish_join A pending response)"
  unfolding finish_join_def by (cases response) (auto intro!: edits_intros)

lemma edits_join_cluster: "edits_only A 0 (join_cluster A C rng now endpoint coordinator token)"
proof (cases "invitation_decode (ae_tokens A) token")
  case (Inl e)
  then show ?thesis by (auto simp: edits_only_def join_cluster_def)
next
  case (Inr invitation)
  have rest: "edits_only A 0 (op_bind (on_disk (agent_load A)) (\<lambda>existing. case ags_cluster existing of
       Some cluster \<Rightarrow>
         if scl_coordinator cluster = coordinator \<and>
            scl_coordinator_device_id cluster = pin_coordinator_device_id invitation \<and>
            scl_id cluster = pin_cluster_id invitation
         then op_lift (Inr (Joined (cluster_summary_of cluster)))
         else op_lift (Inl AlreadyInCluster)
     | None \<Rightarrow>
         op_bind (on_disk (agent_update A (begin_join_edit rng invitation coordinator token))) (\<lambda>pending.
         op_bind (on_disk (agent_load A)) (\<lambda>state.
         op_bind (request_join A C coordinator pending (own_member state endpoint now)) (\<lambda>response.
         finish_join A pending response)))))"
    by (intro edits_bind0 edits_load)
       (auto split: option.split intro!: edits_intros edits_begin_join [OF Inr] edits_request_join edits_finish_join)
  then show ?thesis using Inr unfolding join_cluster_def edits_only_def by simp
qed

text \<open>An invitation is issued when its token is handed out; a request for one that fails issues none.\<close>

definition issued_invites :: "control_response \<Rightarrow> nat" where
  "issued_invites response = (case response of ClusterCreated _ _ \<Rightarrow> 1 | InviteCreated _ \<Rightarrow> 1 | _ \<Rightarrow> 0)"

definition result_invites :: "control_response tr_result \<Rightarrow> nat" where
  "result_invites r = (case r of Inl _ \<Rightarrow> 0 | Inr response \<Rightarrow> issued_invites response)"

lemma update_failed_evolves:
  assumes "agent_ok A w" "agent_update A f (ag_disk w) = (Inl e, d)"
  shows "evolves A 0 w (w\<lparr>ag_disk := d\<rparr>)"
  using cs.update_err [OF assms] agent_edits.none by (auto simp: evolves_def)

lemma create_cluster_evolves:
  assumes "agent_ok A w" "on_disk (create_cluster A rng now endpoint name) w = (r, w')"
  shows "evolves A (result_invites r) w w'"
proof (cases r)
  case (Inr response)
  from assms(2) Inr have "result_invites r = 1"
    by (auto simp: on_disk_def create_cluster_def result_invites_def issued_invites_def op_bind_eq_Inr split: prod.splits)
  with edits_onlyD [OF edits_create_cluster assms] show ?thesis by simp
next
  case (Inl e)
  show ?thesis
  proof (cases "validate_cluster_name name")
    case (Inl e')
    with assms \<open>r = Inl e\<close> show ?thesis by (auto simp: on_disk_def create_cluster_def)
  next
    case (Inr checked)
    with Inl assms(2) obtain d where "agent_update A (create_cluster_edit A rng now endpoint checked
        (new_secret (rng 0) (rng 1))) (ag_disk w) = (Inl e, d)" "w' = w\<lparr>ag_disk := d\<rparr>"
      by (auto simp: on_disk_def create_cluster_def elim!: op_bind_cases split: prod.splits)
    then show ?thesis using update_failed_evolves [OF assms(1)] Inl by (auto simp: result_invites_def)
  qed
qed

lemma create_invite_evolves:
  assumes "agent_ok A w" "on_disk (create_invite A rng) w = (r, w')"
  shows "evolves A (result_invites r) w w'"
proof (cases r)
  case (Inr response)
  from assms(2) Inr have "result_invites r = 1"
    by (auto simp: on_disk_def create_invite_def result_invites_def issued_invites_def op_bind_eq_Inr split: prod.splits)
  with edits_onlyD [OF edits_create_invite assms] show ?thesis by simp
next
  case (Inl e)
  with assms(2) obtain d where "agent_update A (create_invite_edit A rng) (ag_disk w) = (Inl e, d)" "w' = w\<lparr>ag_disk := d\<rparr>"
    by (auto simp: on_disk_def create_invite_def elim!: op_bind_cases split: prod.splits)
  then show ?thesis using update_failed_evolves [OF assms(1)] Inl by (auto simp: result_invites_def)
qed

lemma dispatch_local_evolves:
  assumes "agent_ok A w" "dispatch_local A C rng now endpoint request w = (r, w')"
  shows "evolves A (result_invites r) w w'"
proof (cases "(\<exists>name. request = CreateCluster name) \<or> request = CreateInvite")
  case True
  with assms create_cluster_evolves create_invite_evolves show ?thesis by (auto simp: dispatch_local_def)
next
  case False
  then have "edits_only A 0 (dispatch_local A C rng now endpoint request)"
    using edits_join_cluster edits_local_members
    by (cases request) (auto simp: dispatch_local_def intro!: edits_intros)
  from edits_onlyD [OF this assms] show ?thesis by (rule evolves_mono) simp
qed

end
