(* ===== verification/Demo_Agents.thy ===== *)
theory Demo_Agents
  imports Agent_Runs "HOL-Library.Countable"
begin

section \<open>Concrete codecs and agents\<close>

text \<open>
  Every value the agent stores is one of countably many, so there is a codec that prints and reads all of
  them: a string of as many zero bytes as the value's number. With it and a codec for invitations, an
  agent with a fresh state, one that coordinates a cluster with an outstanding invitation, and disks that
  hold these states.
\<close>

instance word :: (len) countable
  by (rule countable_classI [of unat]) (rule unsigned_word_eqI)

instance ip_addr :: countable by countable_datatype
instance cluster_id :: countable by countable_datatype
instance join_request_id :: countable by countable_datatype
instance device_id :: countable by countable_datatype
instance cluster_role :: countable by countable_datatype

instance socket_addr_ext :: (countable) countable
  by (rule countable_classI [of "\<lambda>r. to_nat (sa_ip r, sa_port r, socket_addr.more r)"]) simp

instance cluster_member_ext :: (countable) countable
  by (rule countable_classI [of "\<lambda>r. to_nat (mb_device_id r, mb_device_name r, mb_endpoint r, mb_joined_at_millis r,
      cluster_member.more r)"]) simp

instance stored_member_ext :: (countable) countable
  by (rule countable_classI [of "\<lambda>r. to_nat (stm_member r, stm_credential r, stm_credential_digest r, stored_member.more r)"]) simp

instance accepted_join_ext :: (countable) countable
  by (rule countable_classI [of "\<lambda>r. to_nat (aj_request_id r, aj_device_id r, aj_credential r, accepted_join.more r)"]) simp

instance pending_join_ext :: (countable) countable
  by (rule countable_classI [of "\<lambda>r. to_nat (pj_coordinator r, pj_invite_token r, pj_request_id r, pj_cluster_id r,
      pj_coordinator_device_id r, pending_join.more r)"]) simp

instance stored_cluster_ext :: (countable) countable
  by (rule countable_classI [of "\<lambda>r. to_nat (scl_id r, scl_name r, scl_coordinator r, scl_coordinator_device_id r, scl_role r,
      scl_credential r, scl_invite_token r, scl_members r, scl_accepted_joins r, stored_cluster.more r)"]) simp

instance agent_state_ext :: (countable) countable
  by (rule countable_classI [of "\<lambda>r. to_nat (ags_revision r, ags_device_id r, ags_device_name r, ags_cluster r, ags_pending_join r,
      agent_state.more r)"]) simp

instance pairing_invitation_ext :: (countable) countable
  by (rule countable_classI [of "\<lambda>r. to_nat (pin_version r, pin_cluster_id r, pin_coordinator_device_id r, pin_secret r,
      pairing_invitation.more r)"]) simp

definition unary_codec :: "('a :: countable) json_codec" where
  "unary_codec = \<lparr>to_json = (\<lambda>x. Inr (replicate (to_nat x) 0)), from_json = (\<lambda>bs. Inr (from_nat (length bs)))\<rparr>"

lemma unary_codec_ok [simp]: "json_ok unary_codec" "json_total unary_codec"
  by (auto simp: json_ok_def json_total_def unary_codec_def)

definition demo_tokens :: token_codec where
  "demo_tokens = \<lparr>tk_json = unary_codec, tk_b64_encode = map (char_of \<circ> unat),
     tk_b64_decode = (\<lambda>s. Some (map (word_of_nat \<circ> of_char) s))\<rparr>"

lemma demo_tokens_ok [simp]: "token_codec_ok demo_tokens"
proof -
  have "(word_of_nat (of_char (char_of (unat b) :: char) :: nat) :: byte) = b" for b :: byte
  proof -
    have "unat b < 256" using unsigned_less [of b, where 'a = nat] by simp
    then show ?thesis by simp
  qed
  then show ?thesis by (simp add: token_codec_ok_def demo_tokens_def comp_def map_idI)
qed

definition demo_env :: agent_env where
  "demo_env = \<lparr>ae_store = cluster_store_at [''data''], ae_json = unary_codec, ae_tokens = demo_tokens, ae_sha256 = (\<lambda>bs. bs)\<rparr>"

definition demo_state_disk :: "agent_state \<Rightarrow> disk" where
  "demo_state_disk s = \<lparr>dk_files = [([''data'', ''cluster.json''], replicate (to_nat s) 0)], dk_faults = [], dk_stat_faults = []\<rparr>"

definition demo_agent :: "agent_state \<Rightarrow> 'c \<Rightarrow> 'n \<Rightarrow> ('c, 'n) agent" where
  "demo_agent s content net = \<lparr>ag_disk = demo_state_disk s, ag_presence = presence_default, ag_content = content, ag_net = net,
     ag_failed_commits = 0, ag_dropped_responses = 0\<rparr>"

lemma demo_state_disk_ok [simp]:
  "cluster_ok unary_codec (cluster_store_at [''data'']) (demo_state_disk s)"
  "cluster_view unary_codec (cluster_store_at [''data'']) (demo_state_disk s) = s" "healthy (demo_state_disk s)"
  "\<not> cst_poisoned (cluster_store_at dir)"
proof -
  have "cst_state_path (cluster_store_at [''data'']) = [''data'', ''cluster.json'']"
    by (simp add: cluster_store_at_def path_join_def)
  then show "cluster_ok unary_codec (cluster_store_at [''data'']) (demo_state_disk s)"
    "cluster_view unary_codec (cluster_store_at [''data'']) (demo_state_disk s) = s" "healthy (demo_state_disk s)"
    by (simp_all add: cluster_ok_def cluster_view_def demo_state_disk_def healthy_def)
       (simp_all add: unary_codec_def)
qed (simp add: cluster_store_at_def)

lemma demo_agent_sel [simp]:
  "ag_disk (demo_agent s content net) = demo_state_disk s" "ag_presence (demo_agent s content net) = presence_default"
  "ag_content (demo_agent s content net) = content" "ag_net (demo_agent s content net) = net"
  "ag_failed_commits (demo_agent s content net) = 0" "ag_dropped_responses (demo_agent s content net) = 0"
  by (simp_all add: demo_agent_def)

lemma demo_env_sel [simp]: "ae_tokens demo_env = demo_tokens" "ae_json demo_env = unary_codec" "ae_sha256 demo_env = (\<lambda>bs. bs)"
  "ae_store demo_env = cluster_store_at [''data'']"
  by (simp_all add: demo_env_def)

definition demo_address :: "u16 \<Rightarrow> socket_addr" where
  "demo_address port = \<lparr>sa_ip = ipv4_localhost, sa_port = port\<rparr>"

definition demo_coordinator :: device_id where
  "demo_coordinator = DeviceId ''device.sha256.c0''"

definition demo_joiner :: device_id where
  "demo_joiner = DeviceId ''device.sha256.d1''"

definition demo_invitation :: pairing_invitation where
  "demo_invitation = invitation_new (ClusterId 7) demo_coordinator (new_secret 1 2)"

definition demo_token :: string where
  "demo_token = projr (invitation_encode demo_tokens demo_invitation)"

lemma demo_token_encoded: "invitation_encode demo_tokens demo_invitation = Inr demo_token"
  by (simp add: demo_token_def invitation_encode_def demo_tokens_def unary_codec_def)

lemma demo_token_decoded [simp]: "invitation_decode demo_tokens demo_token = Inr demo_invitation"
  by (rule invitation_roundtrip [OF demo_tokens_ok demo_token_encoded]) (simp_all add: demo_invitation_def invitation_new_def)

definition demo_member :: "device_id \<Rightarrow> u16 \<Rightarrow> cluster_member" where
  "demo_member device port = \<lparr>mb_device_id = device, mb_device_name = ''desk'', mb_endpoint = demo_address port, mb_joined_at_millis = 5\<rparr>"

definition demo_cluster :: stored_cluster where
  "demo_cluster = \<lparr>scl_id = ClusterId 7, scl_name = ''home'', scl_coordinator = demo_address 1, scl_coordinator_device_id = demo_coordinator,
     scl_role = Coordinator, scl_credential = ''secret'', scl_invite_token = Some demo_token,
     scl_members = [\<lparr>stm_member = demo_member demo_coordinator 1, stm_credential = ''secret'',
       stm_credential_digest = credential_digest (\<lambda>bs. bs) ''secret''\<rparr>],
     scl_accepted_joins = []\<rparr>"

definition demo_coordinator_state :: agent_state where
  "demo_coordinator_state = (initial_state demo_coordinator ''desk'')\<lparr>ags_cluster := Some demo_cluster\<rparr>"

lemma demo_coordinator_state_sel [simp]:
  "ags_cluster demo_coordinator_state = Some demo_cluster" "ags_pending_join demo_coordinator_state = None"
  "ags_device_id demo_coordinator_state = demo_coordinator"
  by (simp_all add: demo_coordinator_state_def initial_state_def)

lemma demo_cluster_sel [simp]:
  "scl_role demo_cluster = Coordinator" "scl_invite_token demo_cluster = Some demo_token" "scl_accepted_joins demo_cluster = []"
  "scl_id demo_cluster = ClusterId 7" "member_devices demo_cluster = [demo_coordinator]"
  "scl_coordinator demo_cluster = demo_address 1" "scl_coordinator_device_id demo_cluster = demo_coordinator"
  by (simp_all add: demo_cluster_def member_devices_def demo_member_def)

lemma demo_devices_differ [simp]: "demo_joiner \<noteq> demo_coordinator" "demo_coordinator \<noteq> demo_joiner"
  by (simp_all add: demo_joiner_def demo_coordinator_def)

lemma demo_coordinator_wf [simp]: "agent_wf demo_env demo_coordinator_state"
  by (simp add: agent_wf_def coordinator_wf_def invite_for_def demo_invitation_def invitation_new_def)
     (simp add: demo_cluster_def demo_member_def)

end
