(* ===== verification/Agent_Props.thy ===== *)
theory Agent_Props
  imports Demo_Agents
begin

section \<open>What every run of an agent keeps\<close>

text \<open>
  Runs: requests of local clients and of peers, payloads, presence passes, restarts and changes of what
  the disk is going to do, in any order, with any network. The count is the number of invitations that
  were handed out.
\<close>

inductive agent_run :: "agent_env \<Rightarrow> 'c peer_content_store option \<Rightarrow> nat \<Rightarrow> ('c, 'n) agent \<Rightarrow> ('c, 'n) agent \<Rightarrow> bool"
  for A P where
  start: "agent_run A P 0 w w"
| local_request: "agent_run A P n w w1 \<Longrightarrow> handle_local A C rng now endpoint incoming w1 = (response, w2) \<Longrightarrow>
    agent_run A P (n + issued_invites (env_body response)) w w2"
| peer_request: "agent_run A P n w w1 \<Longrightarrow> handle_remote A P rng now peer incoming' w1 = (reaction, w2) \<Longrightarrow> agent_run A P n w w2"
| peer_payload: "agent_run A P n w w1 \<Longrightarrow> content_put_finish content cid payload w1 = (response', w2) \<Longrightarrow> agent_run A P n w w2"
| presence_pass: "agent_run A P n w w1 \<Longrightarrow> reconcile_presence A C' sync_clock probe_clock w1 = (r, w2) \<Longrightarrow> agent_run A P n w w2"
| restart: "agent_run A P n w w1 \<Longrightarrow> dk_files (ag_disk w2) = dk_files (ag_disk w1) \<Longrightarrow> agent_run A P n w w2"

lemma handle_local_evolves:
  assumes "agent_ok A w" "handle_local A C rng now endpoint incoming w = (response, w')"
  shows "evolves A (issued_invites (env_body response)) w w'"
proof (cases "\<exists>envelope. incoming = Inr envelope \<and> env_version envelope = protocol_version")
  case True
  then obtain envelope where env: "incoming = Inr envelope" "env_version envelope = protocol_version" by blast
  obtain r w1 where run: "dispatch_local A C rng now endpoint (env_body envelope) w = (r, w1)" by fastforce
  with assms(2) env have "w' = w1" "result_invites r \<le> issued_invites (env_body response)"
    by (cases r; force simp: handle_local_def result_invites_def enveloped_def)+
  with dispatch_local_evolves [OF assms(1) run] evolves_mono show ?thesis by blast
next
  case False
  with assms show ?thesis by (auto simp: handle_local_def split: sum.splits if_splits)
qed

lemma restart_evolves:
  assumes "agent_ok A w" "dk_files (ag_disk w') = dk_files (ag_disk w)"
  shows "evolves A 0 w w'"
proof -
  have "same_state (ae_store A) (ag_disk w) (ag_disk w')" using assms(2) by (simp add: same_state_def)
  from same_state_kept [OF this, of "ae_json A"] assms(1) agent_edits.none show ?thesis by (auto simp: evolves_def)
qed

lemma agent_run_evolves: "agent_run A P n w w' \<Longrightarrow> agent_ok A w \<Longrightarrow> evolves A n w w'"
proof (induction rule: agent_run.induct)
  case (local_request n w w1 C rng now endpoint incoming response w2)
  then have 1: "evolves A n w w1" by simp
  then have "agent_ok A w1" by (simp add: evolves_def)
  from evolves_trans [OF 1 handle_local_evolves [OF this local_request.hyps(2)]] show ?case .
next
  case (peer_request n w w1 rng now peer incoming' reaction w2)
  then have 1: "evolves A n w w1" by simp
  then have "agent_ok A w1" by (simp add: evolves_def)
  from evolves_trans [OF 1 handle_remote_evolves [OF this peer_request.hyps(2)]] show ?case by simp
next
  case (peer_payload n w w1 content cid payload response' w2)
  then have 1: "evolves A n w w1" by simp
  then have "agent_ok A w1" by (simp add: evolves_def)
  from evolves_trans [OF 1 content_put_finish_evolves [OF this peer_payload.hyps(2)]] show ?case by simp
next
  case (presence_pass n w w1 C' sync_clock probe_clock r w2)
  then have 1: "evolves A n w w1" by simp
  then have "agent_ok A w1" by (simp add: evolves_def)
  from evolves_trans [OF 1 edits_onlyD [OF edits_reconcile_presence this presence_pass.hyps(2)]] show ?case by simp
next
  case (restart n w w1 w2)
  then have 1: "evolves A n w w1" by simp
  then have "agent_ok A w1" by (simp add: evolves_def)
  from evolves_trans [OF 1 restart_evolves [OF this restart.hyps(2)]] show ?case by simp
qed simp

text \<open>
  Whatever requests an agent gets from users and peers, in any order, with any answers of the network,
  any failures of the disk and any restarts in between, its membership state stays well formed: it keeps
  its device, it never waits for a join while in a cluster, a coordinator has one entry per device and a
  credential with its digest for each, a member for every accepted join and the other way round, and an
  outstanding invitation that names this cluster and this coordinator.
\<close>

theorem agent_state_wf:
  assumes "agent_run A P n w w'" "agent_ok A w" "agent_view A w = initial_state device name" "token_codec_ok (ae_tokens A)"
  shows "agent_wf A (agent_view A w') \<and> ags_device_id (agent_view A w') = device"
proof -
  from agent_run_evolves [OF assms(1,2)] obtain k where "agent_edits A k (agent_view A w) (agent_view A w')"
    by (auto simp: evolves_def)
  with agent_edits_wf [OF this assms(4)] agent_edits_device [OF this] initial_state_wf assms(3)
  show ?thesis by (simp add: initial_state_def)
qed

text \<open>A run in which a user has a cluster created.\<close>

definition demo_rng :: rng where
  "demo_rng i = of_nat i"

definition demo_create :: "(unit, unit) agent \<Rightarrow> control_response envelope \<times> (unit, unit) agent" where
  "demo_create = handle_local demo_env \<lparr>ch_connect = (\<lambda>_ _ n. (Inl AgentUnavailable, n)), ch_write = (\<lambda>_ n. (Inl AgentUnavailable, n)),
      ch_read = (\<lambda>n. (Inl AgentUnavailable, n)), ch_write_payload = (\<lambda>_ n. (Inl AgentUnavailable, n)),
      ch_read_payload = (\<lambda>_ n. (Inl AgentUnavailable, n))\<rparr> demo_rng 5 (demo_address 1) (Inr (enveloped (CreateCluster ''home'')))"

definition demo_created :: "(unit, unit) agent" where
  "demo_created = snd (demo_create (demo_agent (initial_state demo_coordinator ''desk'') () ()))"

lemma demo_name: "str_trim ''home'' = ''home''" "\<not> bad_name ''home''"
  by code_simp+

lemma demo_created_cluster:
  "\<exists>c. ags_cluster (agent_view demo_env demo_created) = Some c \<and> scl_role c = Coordinator"
  "issued_invites (env_body (fst (demo_create (demo_agent (initial_state demo_coordinator ''desk'') () ())))) = 1"
proof -
  let ?s = "initial_state demo_coordinator ''desk''"
  let ?edit = "create_cluster_edit demo_env demo_rng 5 (demo_address 1) ''home'' (new_secret (demo_rng 0) (demo_rng 1))"
  obtain token where "invitation_encode demo_tokens (invitation_new (ClusterId (demo_rng 2)) demo_coordinator
      (new_secret (demo_rng 3) (demo_rng 4))) = Inr token"
    by (simp add: invitation_encode_def demo_tokens_def unary_codec_def)
  then obtain x s where edit: "?edit ?s = Inr (x, s)"
    by (simp add: create_cluster_edit_def initial_state_def Let_def)
  obtain d where d: "agent_update demo_env ?edit (demo_state_disk ?s) = (Inr x, d)"
    "cluster_view (ae_json demo_env) (ae_store demo_env) d = bump s"
    using cluster_update_healthy [of "demo_state_disk ?s" "ae_json demo_env" "ae_store demo_env" ?edit x s] edit
    by auto
  obtain summary invite where x: "x = (summary, invite)" by fastforce
  have "ag_disk demo_created = d"
    using d(1) x demo_name
    by (simp add: demo_created_def demo_create_def handle_local_def dispatch_local_def on_disk_def create_cluster_def
        validate_cluster_name_def)
  moreover from edit have "\<exists>c. ags_cluster s = Some c \<and> scl_role c = Coordinator" by (rule create_cluster_edit_ok) auto
  ultimately show "\<exists>c. ags_cluster (agent_view demo_env demo_created) = Some c \<and> scl_role c = Coordinator" using d(2) by simp
  show "issued_invites (env_body (fst (demo_create (demo_agent ?s () ())))) = 1"
    using d(1) x demo_name
    by (simp add: demo_create_def handle_local_def dispatch_local_def on_disk_def create_cluster_def
        validate_cluster_name_def issued_invites_def enveloped_def)
qed

lemma demo_run: "agent_run demo_env None 1 (demo_agent (initial_state demo_coordinator ''desk'') () ()) demo_created"
proof -
  let ?w = "demo_agent (initial_state demo_coordinator ''desk'') () ()"
  have "demo_create ?w = (fst (demo_create ?w), demo_created)" by (simp add: demo_created_def)
  with local_request [OF start [of demo_env None ?w]] demo_created_cluster(2) show ?thesis unfolding demo_create_def by fastforce
qed

theorem agent_state_wf_witness:
  "agent_wf demo_env (agent_view demo_env demo_created) \<and> ags_device_id (agent_view demo_env demo_created) = demo_coordinator"
  using agent_state_wf [OF demo_run, of demo_coordinator "''desk''"] by simp

text \<open>
  C25: an invitation lets in one device: over any such run that starts with an empty membership state,
  the members of a coordinator's cluster and its outstanding invitation are together at most one more, for
  the coordinator itself, than the invitations it handed out to its users, with the new cluster or on request.
  A request for an invitation that failed counts for nothing.
\<close>

theorem members_bounded_by_invites:
  assumes "agent_run A P n w w'" "agent_ok A w" "agent_view A w = initial_state device name"
    and "ags_cluster (agent_view A w') = Some c" "scl_role c = Coordinator"
  shows "length (scl_members c) + (if scl_invite_token c = None then 0 else 1) \<le> n + 1"
proof -
  from agent_run_evolves [OF assms(1,2)] obtain k where "k \<le> n" "agent_edits A k (agent_view A w) (agent_view A w')"
    by (auto simp: evolves_def)
  with agent_edits_places [OF this(2)] assms(3-5) show ?thesis by (simp add: places_def initial_state_def)
qed

theorem members_bounded_by_invites_witness:
  "\<exists>c. ags_cluster (agent_view demo_env demo_created) = Some c \<and>
    length (scl_members c) + (if scl_invite_token c = None then 0 else 1) \<le> 1 + 1"
proof -
  obtain c where "ags_cluster (agent_view demo_env demo_created) = Some c" "scl_role c = Coordinator"
    using demo_created_cluster(1) by blast
  with members_bounded_by_invites [OF demo_run, of demo_coordinator "''desk''" c] show ?thesis by simp
qed

subsection \<open>Joining and authorization at the coordinator\<close>

text \<open>
  C11: a coordinator hands out a credential only to the device at the other end of the authenticated
  connection, and only in two cases. Either this very request was accepted before, and the credential is
  the same again with nothing changed but the revision; or the request carries the outstanding invitation
  and the device is no member, and then exactly this device is added under a digest of exactly this
  credential and the invitation is used up. In every other case the state is untouched.
\<close>

theorem accept_member_exact:
  assumes "cluster_ok (ae_json A) (ae_store A) d" "accept_member A rng token member request peer d = (r, d')"
  defines "s \<equiv> cluster_view (ae_json A) (ae_store A) d" and "s' \<equiv> cluster_view (ae_json A) (ae_store A) d'"
  shows "case r of
      Inl e \<Rightarrow> s' = s
    | Inr response \<Rightarrow> mb_device_id member = peer \<and> (\<exists>c. ags_cluster s = Some c \<and> scl_role c = Coordinator \<and>
        ((\<exists>a \<in> set (scl_accepted_joins c). aj_request_id a = request \<and> aj_device_id a = peer \<and> s' = bump s \<and>
            response = JoinAccepted (cluster_summary_of c) (aj_credential a) (authorized_members (ae_sha256 A) c)) \<or>
         (\<exists>c'. scl_invite_token c = Some token \<and> peer \<notin> set (member_devices c) \<and>
            ags_cluster s' = Some c' \<and> scl_invite_token c' = None \<and>
            scl_members c' = scl_members c @ [\<lparr>stm_member = member, stm_credential = new_secret (rng 0) (rng 1),
              stm_credential_digest = credential_digest (ae_sha256 A) (new_secret (rng 0) (rng 1))\<rparr>] \<and>
            response = JoinAccepted (cluster_summary_of c) (new_secret (rng 0) (rng 1)) (authorized_members (ae_sha256 A) c'))))"
proof (cases "validate_member member = Inr () \<and> mb_device_id member = peer")
  case False
  with assms(2) show ?thesis by (cases "validate_member member") (auto simp: accept_member_def s_def s'_def)
next
  case True
  let ?secret = "new_secret (rng 0) (rng 1)"
  obtain q d1 where run: "agent_update A (accept_member_edit A token member request ?secret) d = (q, d1)" by fastforce
  show ?thesis
  proof (cases q)
    case (Inl e)
    with run True assms(2) have "r = Inl e" "d' = d1" by (auto simp: accept_member_def)
    with cs.update_err [OF assms(1) run [unfolded Inl]] show ?thesis by (simp add: s_def s'_def)
  next
    case (Inr x)
    obtain summary issued members where x: "x = (summary, issued, members)" by (metis prod_cases3)
    with Inr run True assms(2) have r: "r = Inr (JoinAccepted summary issued members)" "d' = d1"
      by (auto simp: accept_member_def)
    obtain s1 where s1: "accept_member_edit A token member request ?secret s = Inr ((summary, issued, members), s1)" "s' = bump s1"
      using cs.update_ok [OF assms(1) run [unfolded Inr x]] r(2) by (auto simp: s_def s'_def)
    from s1(1) show ?thesis
    proof (cases rule: accept_member_edit_cases)
      case (again c a)
      with r s1(2) True show ?thesis by auto
    next
      case (fresh c c')
      then have "ags_cluster s' = Some c'" "cluster_summary_of c' = cluster_summary_of c"
        using s1(2) by (simp_all add: cluster_summary_of_def)
      with fresh r True show ?thesis by auto
    qed
  qed
qed

theorem accept_member_exact_witness:
  "\<exists>d' c'. accept_member demo_env demo_rng demo_token (demo_member demo_joiner 2) (JoinRequestId 9) demo_joiner
      (demo_state_disk demo_coordinator_state) = (Inr (JoinAccepted (cluster_summary_of demo_cluster) (new_secret 0 1)
        (authorized_members (\<lambda>bs. bs) c')), d') \<and>
    ags_cluster (cluster_view unary_codec (cluster_store_at [''data'']) d') = Some c' \<and> scl_invite_token c' = None"
proof -
  let ?d = "demo_state_disk demo_coordinator_state"
  let ?m = "demo_member demo_joiner 2"
  let ?edit = "accept_member_edit demo_env demo_token ?m (JoinRequestId 9) (new_secret 0 1)"
  have valid: "validate_member ?m = Inr ()" by code_simp
  have "\<not> list_ex (\<lambda>existing. mb_device_id (stm_member existing) = demo_joiner) (scl_members demo_cluster)"
    by (simp add: demo_cluster_def demo_member_def)
  then obtain x s where edit: "?edit demo_coordinator_state = Inr (x, s)"
    by (simp add: accept_member_edit_def demo_member_def Let_def)
  obtain d' where d': "agent_update demo_env ?edit ?d = (Inr x, d')"
    using cluster_update_healthy [of ?d "ae_json demo_env" "ae_store demo_env" ?edit x s] edit
    by auto
  obtain summary issued roster where x: "x = (summary, issued, roster)" by (metis prod_cases3)
  have run: "accept_member demo_env demo_rng demo_token ?m (JoinRequestId 9) demo_joiner ?d = (Inr (JoinAccepted summary issued roster), d')"
    using d' x valid by (simp add: accept_member_def demo_rng_def) (simp add: demo_member_def)
  from accept_member_exact [OF _ run] run show ?thesis by (auto simp: demo_rng_def)
qed

definition request_authorization :: "remote_request \<Rightarrow> peer_authorization option" where
  "request_authorization request = (case request of
     RemoteJoin _ _ _ \<Rightarrow> None
   | RemoteMembers a \<Rightarrow> Some a
   | PresenceProbe a \<Rightarrow> Some a
   | ContentExists a _ \<Rightarrow> Some a
   | ContentGet a _ \<Rightarrow> Some a
   | ContentPut a _ _ \<Rightarrow> Some a)"

text \<open>Whether the state has a member with this device and the digest of this credential.\<close>

definition entitled :: "hash_function \<Rightarrow> agent_state \<Rightarrow> peer_authorization \<Rightarrow> device_id \<Rightarrow> bool" where
  "entitled sha256 s a peer \<longleftrightarrow> (\<exists>c m. ags_cluster s = Some c \<and> pa_cluster_id a = scl_id c \<and> m \<in> set (scl_members c) \<and>
     mb_device_id (stm_member m) = peer \<and> pa_device_id a = peer \<and>
     expected_digest sha256 m = credential_digest sha256 (pa_credential a))"

lemma authorize_in_cluster_entitled:
  "authorize_in_cluster sha256 c a peer = Inr member \<Longrightarrow> ags_cluster s = Some c \<Longrightarrow> entitled sha256 s a peer"
  by (auto simp: authorize_in_cluster_def entitled_def split: if_splits dest!: find_SomeD)

lemma not_entitled_refused:
  assumes "\<not> entitled sha256 s a peer" "t = s" "ags_cluster t = Some c"
  obtains e where "authorize_in_cluster sha256 c a peer = Inl e"
  using assms authorize_in_cluster_entitled [of sha256 c a peer _ s] that
  by (cases "authorize_in_cluster sha256 c a peer") auto

lemma authorize_peer_refuses:
  assumes "cluster_ok (ae_json A) (ae_store A) d" "\<not> entitled (ae_sha256 A) (cluster_view (ae_json A) (ae_store A) d) a peer"
    and "authorize_peer A a peer d = (r, d')"
  shows "(\<exists>e. r = Inl e) \<and> cluster_view (ae_json A) (ae_store A) d' = cluster_view (ae_json A) (ae_store A) d"
proof -
  obtain q d1 where run: "agent_load A d = (q, d1)" by fastforce
  note load = cs.load_law [OF assms(1) run]
  show ?thesis
  proof (cases q)
    case (Inl e)
    with run assms(3) load show ?thesis by (auto simp: authorize_peer_def)
  next
    case (Inr s)
    with load have s: "s = cluster_view (ae_json A) (ae_store A) d" by simp
    show ?thesis
    proof (cases "ags_cluster s")
      case None
      with run Inr assms(3) load show ?thesis by (auto simp: authorize_peer_def)
    next
      case (Some c)
      with assms(2) s obtain e where "authorize_in_cluster (ae_sha256 A) c a peer = Inl e" by (rule not_entitled_refused)
      with Some run Inr assms(3) load have "r = Inl e" "d' = d1" by (auto simp: authorize_peer_def)
      with load show ?thesis by simp
    qed
  qed
qed

lemma remote_members_refuses:
  assumes "cluster_ok (ae_json A) (ae_store A) d" "\<not> entitled (ae_sha256 A) (cluster_view (ae_json A) (ae_store A) d) a peer"
    and "remote_members A a peer d = (r, d')"
  shows "(\<exists>e. r = Inl e) \<and> cluster_view (ae_json A) (ae_store A) d' = cluster_view (ae_json A) (ae_store A) d"
proof -
  obtain q d1 where run: "agent_load A d = (q, d1)" by fastforce
  note load = cs.load_law [OF assms(1) run]
  show ?thesis
  proof (cases q)
    case (Inl e)
    with run assms(3) load show ?thesis by (auto simp: remote_members_def)
  next
    case (Inr s)
    with load have s: "s = cluster_view (ae_json A) (ae_store A) d" by simp
    show ?thesis
    proof (cases "ags_cluster s")
      case None
      with run Inr assms(3) load show ?thesis by (auto simp: remote_members_def)
    next
      case (Some c)
      with assms(2) s obtain e where "authorize_in_cluster (ae_sha256 A) c a peer = Inl e" by (rule not_entitled_refused)
      with Some run Inr assms(3) load show ?thesis by (auto simp: remote_members_def split: if_splits)
    qed
  qed
qed

lemma authorize_and_observe_refuses:
  assumes "agent_ok A w" "\<not> entitled (ae_sha256 A) (agent_view A w) a peer"
  shows "\<exists>e d'. authorize_and_observe A now a peer w = (Inl e, w\<lparr>ag_disk := d'\<rparr>) \<and>
    cluster_view (ae_json A) (ae_store A) d' = agent_view A w"
proof -
  obtain r d' where run: "authorize_peer A a peer (ag_disk w) = (r, d')" by fastforce
  with authorize_peer_refuses [OF assms run] show ?thesis
    by (auto simp: authorize_and_observe_def on_disk_def)
qed

text \<open>
  What a request has to show: a join, that it is made for the device at the other end and either was
  accepted before or carries the outstanding invitation of a coordinator the device is no member of yet; any
  other request, the credential of the member at the other end.
\<close>

definition admissible :: "hash_function \<Rightarrow> agent_state \<Rightarrow> remote_request \<Rightarrow> device_id \<Rightarrow> bool" where
  "admissible sha256 s request peer \<longleftrightarrow> (case request of
     RemoteJoin token member join_request \<Rightarrow> mb_device_id member = peer \<and>
       (\<exists>c. ags_cluster s = Some c \<and> scl_role c = Coordinator \<and>
         ((\<exists>a \<in> set (scl_accepted_joins c). aj_request_id a = join_request \<and> aj_device_id a = peer) \<or>
          scl_invite_token c = Some token \<and> peer \<notin> set (member_devices c)))
   | _ \<Rightarrow> (\<exists>a. request_authorization request = Some a \<and> entitled sha256 s a peer))"

lemma accept_member_refuses:
  assumes "cluster_ok (ae_json A) (ae_store A) d" "accept_member A rng token member request peer d = (r, d')"
    and "\<not> admissible (ae_sha256 A) (cluster_view (ae_json A) (ae_store A) d) (RemoteJoin token member request) peer"
  shows "(\<exists>e. r = Inl e) \<and> cluster_view (ae_json A) (ae_store A) d' = cluster_view (ae_json A) (ae_store A) d"
proof (cases "validate_member member = Inr () \<and> mb_device_id member = peer")
  case False
  with assms(2) show ?thesis by (cases "validate_member member") (auto simp: accept_member_def)
next
  case True
  let ?edit = "accept_member_edit A token member request (new_secret (rng 0) (rng 1))"
  obtain q d1 where run: "agent_update A ?edit d = (q, d1)" by fastforce
  have "q \<noteq> Inr x" for x
  proof
    assume "q = Inr x"
    with run have "agent_update A ?edit d = (Inr x, d1)" by simp
    from cs.update_ok [OF assms(1) this] obtain s1
      where "?edit (cluster_view (ae_json A) (ae_store A) d) = Inr (x, s1)" by blast
    moreover obtain summary issued members where "x = (summary, issued, members)" by (metis prod_cases3)
    ultimately show False using assms(3) True
      by (auto simp: admissible_def elim!: accept_member_edit_cases)
  qed
  then obtain e where q: "q = Inl e" by (cases q) auto
  with run True assms(2) have "r = Inl e" "d' = d1" by (auto simp: accept_member_def)
  with cs.update_err [OF assms(1) run [unfolded q]] show ?thesis by simp
qed

lemma not_admissible_not_entitled:
  "\<not> admissible sha256 s request peer \<Longrightarrow> request_authorization request = Some a \<Longrightarrow> \<not> entitled sha256 s a peer"
  by (cases request) (auto simp: admissible_def request_authorization_def)

lemma request_kinds:
  obtains (join) token member join_request where "request = RemoteJoin token member join_request"
    | (authorized) a where "request_authorization request = Some a"
  by (cases request) (auto simp: request_authorization_def)

text \<open>
  C5: a request of a peer that is not entitled to it gets an error and has no effect: not on the membership
  state, not on the presence table and not on the stored content. Entitled to join is a device that was
  accepted before under this request, or one that is no member and carries the outstanding invitation of
  a coordinator; entitled to anything else is a member with its credential.
\<close>

theorem unauthorized_no_effect:
  assumes "agent_ok A w" "handle_remote A P rng now peer (Inr envelope) w = (reaction, w')"
    and "\<not> admissible (ae_sha256 A) (agent_view A w) (env_body envelope) peer"
  shows "(\<exists>code message. reaction = Replies (ErrorReply code message) None) \<and>
    agent_view A w' = agent_view A w \<and> ag_presence w' = ag_presence w \<and> ag_content w' = ag_content w"
proof (cases "env_version envelope = protocol_version")
  case False
  with assms(2) show ?thesis by (auto simp: handle_remote_def unsupported_version_def)
next
  case version: True
  have err: "\<exists>code message. error_response e = ErrorReply code message" for e using error_response_is_error by blast
  show ?thesis
  proof (cases "env_body envelope" rule: request_kinds)
    case (join token member join_request)
    obtain r d' where run: "accept_member A rng token member join_request peer (ag_disk w) = (r, d')" by fastforce
    from accept_member_refuses [OF assms(1) run] assms(3) join obtain e where
      "r = Inl e" "cluster_view (ae_json A) (ae_store A) d' = agent_view A w" by auto
    with assms(2) join version run err [of e] show ?thesis
      by (auto simp: handle_remote_def dispatch_remote_def on_disk_def)
  next
    case (authorized a)
    note refused = not_admissible_not_entitled [OF assms(3) authorized]
    obtain e d' where obs: "authorize_and_observe A now a peer w = (Inl e, w\<lparr>ag_disk := d'\<rparr>)"
      "cluster_view (ae_json A) (ae_store A) d' = agent_view A w" using authorize_and_observe_refuses [OF assms(1) refused] by blast
    obtain e2 d2 where mem: "remote_members A a peer (ag_disk w) = (Inl e2, d2)"
      "cluster_view (ae_json A) (ae_store A) d2 = agent_view A w"
      using remote_members_refuses [OF assms(1) refused] by (cases "remote_members A a peer (ag_disk w)") auto
    show ?thesis
      using assms(2) version authorized obs mem err [of e] err [of e2]
      by (cases "env_body envelope")
         (auto simp: handle_remote_def request_authorization_def dispatch_remote_def content_put_prepare_def on_disk_def)
  qed
qed

theorem unauthorized_no_effect_witness:
  "\<exists>code message w'. handle_remote demo_env None demo_rng 6 demo_joiner
      (Inr (enveloped (RemoteJoin (demo_token @ ''?'') (demo_member demo_joiner 2) (JoinRequestId 9))))
      (demo_agent demo_coordinator_state () ()) = (Replies (ErrorReply code message) None, w') \<and>
    agent_view demo_env w' = demo_coordinator_state \<and> ag_presence w' = presence_default"
proof -
  let ?request = "RemoteJoin (demo_token @ ''?'') (demo_member demo_joiner 2) (JoinRequestId 9)"
  let ?w = "demo_agent demo_coordinator_state () ()"
  obtain reaction w' where run: "handle_remote demo_env None demo_rng 6 demo_joiner (Inr (enveloped ?request)) ?w = (reaction, w')"
    by fastforce
  have "\<not> admissible (\<lambda>bs. bs) demo_coordinator_state ?request demo_joiner"
    by (auto simp: admissible_def demo_cluster_def)
  with unauthorized_no_effect [OF _ run] run show ?thesis by auto
qed

end
