(* ===== verification/Exchange.thy ===== *)
theory Exchange
  imports Framing
begin

section \<open>Messages on a stream\<close>

text \<open>
  What local frames and encrypted messages promise alike: a message that was sent without an error is received as it was,
  and the bytes after it are left for the next one. \<open>paired\<close> says that the end that sends and the end that receives belong
  together, which they still do afterwards.
\<close>

locale message_channel =
  fixes send :: "'a \<Rightarrow> ('s, transport_error, unit) op"
    and receive :: "('s, transport_error, 'a) op"
    and incoming :: "'s \<Rightarrow> bytes"
    and outgoing :: "'s \<Rightarrow> bytes"
    and paired :: "'s \<Rightarrow> 's \<Rightarrow> bool"
  assumes delivered: "send v s = (Inr (), s') \<Longrightarrow> paired s r \<Longrightarrow>
      \<exists>bs. outgoing s' = outgoing s @ bs \<and> (\<forall>rest. incoming r = bs @ rest \<longrightarrow>
        (\<exists>r'. receive r = (Inr v, r') \<and> incoming r' = rest \<and> paired s' r'))"
    and send_incoming: "send v s = (x, s') \<Longrightarrow> incoming s' = incoming s"
    and receive_outgoing: "receive r = (y, r') \<Longrightarrow> outgoing r' = outgoing r"
begin

text \<open>The message was all that was sent.\<close>

lemma received:
  assumes "send v s = (Inr (), s')" "paired s r" "outgoing s' = outgoing s @ incoming r"
  obtains r' where "receive r = (Inr v, r')" "incoming r' = []" "outgoing r' = outgoing r" "paired s' r'"
proof -
  from delivered [OF assms(1,2)] assms(3) have "\<exists>r'. receive r = (Inr v, r') \<and> incoming r' = [] \<and> paired s' r'"
    by (metis append_Nil2 same_append_eq)
  then show thesis using that receive_outgoing by blast
qed

text \<open>It was followed by more.\<close>

lemma received_first:
  assumes "send v s = (Inr (), s')" "paired s r" "outgoing s'' = outgoing s' @ tail" "outgoing s'' = outgoing s @ incoming r"
  obtains r' where "receive r = (Inr v, r')" "incoming r' = tail" "paired s' r'"
proof -
  from delivered [OF assms(1,2)] obtain bs where bs: "outgoing s' = outgoing s @ bs"
    "\<And>rest. incoming r = bs @ rest \<Longrightarrow> \<exists>r'. receive r = (Inr v, r') \<and> incoming r' = rest \<and> paired s' r'" by blast
  with assms(3,4) have "incoming r = bs @ tail" by simp
  from bs(2) [OF this] that show thesis by blast
qed

end

subsection \<open>Local frames\<close>

definition frame_codec_ok :: "'a json_codec \<Rightarrow> bool" where
  "frame_codec_ok J \<longleftrightarrow> json_ok J \<and> (\<forall>x bs. to_json J x = Inr bs \<longrightarrow> bs \<noteq> [])"

lemma read_frame_out: "read_frame J st = (r, st') \<Longrightarrow> st_out st' = st_out st"
  unfolding read_frame_def read_exact_def op_bind_def op_lift_def Let_def by (auto split: prod.splits sum.splits if_splits)

interpretation frames: message_channel "write_frame J" "read_frame J" st_in st_out "\<lambda>_ _. frame_codec_ok J" for J
proof
  fix v s s' r
  assume "write_frame J v s = (Inr (), s')" "frame_codec_ok J"
  then show "\<exists>bs. st_out s' = st_out s @ bs \<and> (\<forall>rest. st_in r = bs @ rest \<longrightarrow>
      (\<exists>r'. read_frame J r = (Inr v, r') \<and> st_in r' = rest \<and> frame_codec_ok J))"
    using frame_read_back [of J v s s'] by (fastforce simp: frame_codec_ok_def)
qed (auto dest: write_frame_in read_frame_out)

subsection \<open>Encrypted messages\<close>

definition channel_ends :: "('h, 't) noise \<Rightarrow> ('t \<Rightarrow> 't \<Rightarrow> bool) \<Rightarrow> 'a json_codec \<Rightarrow> 't secure_stream \<Rightarrow> 't secure_stream \<Rightarrow> bool" where
  "channel_ends N R J s r \<longleftrightarrow> ciphers_agree N R \<and> json_ok J \<and> R (ss_transport s) (ss_transport r)"

interpretation secure: message_channel "secure_write N J" "secure_read N J" "\<lambda>s. st_in (ss_stream s)" "\<lambda>s. st_out (ss_stream s)"
  "channel_ends N R J" for N R J
proof
  fix v s s' r
  assume "secure_write N J v s = (Inr (), s')" "channel_ends N R J s r"
  then show "\<exists>bs. st_out (ss_stream s') = st_out (ss_stream s) @ bs \<and> (\<forall>rest. st_in (ss_stream r) = bs @ rest \<longrightarrow>
      (\<exists>r'. secure_read N J r = (Inr v, r') \<and> st_in (ss_stream r') = rest \<and> channel_ends N R J s' r'))"
    using message_received [of N R J v s s'] by (fastforce simp: channel_ends_def expects_def)
qed (auto dest: secure_write_in secure_read_out)

end
