(* ===== verification/Agent_Service.thy ===== *)
theory Agent_Service
  imports Agent_Props Control_Client Exchange Local_Service
begin

section \<open>The agent process\<close>

text \<open>
  \<open>agent.rs\<close> from the configuration to the end of the process: how it starts, what a connection of a local client or
  of a peer does from its first to its last byte, and the loops of its threads. A loop is given by what its calls
  of \<open>accept\<close> return, or by its rounds, until it sees the shutdown flag. Sockets other than the local one, which is a file of
  the data directory, are arguments.
\<close>

subsection \<open>Configuration\<close>

record 'p agent_config =
  ac_data_directory :: path_buf
  ac_listen :: socket_addr
  ac_advertise :: "socket_addr option"
  ac_discovery_port :: "u16 option"
  ac_device_name :: "string option"
  ac_presence_interval_millis :: nat
  ac_content_store :: "'p option"
  ac_drop_remote_join_responses :: nat
  ac_fail_join_after_remote_accepts :: nat

definition default_discovery_port :: u16 where
  "default_discovery_port = 37845"

definition agent_config_new :: "path_buf \<Rightarrow> 'p agent_config" where
  "agent_config_new data_directory = \<lparr>ac_data_directory = data_directory,
     ac_listen = \<lparr>sa_ip = ipv4_localhost, sa_port = 37846\<rparr>, ac_advertise = None,
     ac_discovery_port = Some default_discovery_port, ac_device_name = None, ac_presence_interval_millis = 1000,
     ac_content_store = None, ac_drop_remote_join_responses = 0, ac_fail_join_after_remote_accepts = 0\<rparr>"

subsection \<open>The local socket\<close>

definition socket_path :: "path_buf \<Rightarrow> path_buf" where
  "socket_path data_directory = path_join data_directory ''agent.sock''"

definition address_in_use :: io_error where
  "address_in_use = other_error ''Address already in use (os error 98)''"

text \<open>\<open>UnixListener::bind\<close> makes the socket file, and fails if there is one; \<open>set_nonblocking\<close> has no effect on files.\<close>

definition unix_bind :: "path_buf \<Rightarrow> unit io" where
  "unix_bind p = io_call (\<lambda>d. case map_of (dk_files d) p of None \<Rightarrow> (Inr (), set_file p [] d) | Some _ \<Rightarrow> (Inl address_in_use, d))"

definition set_nonblocking :: "unit io" where
  "set_nonblocking = io_call (\<lambda>d. (Inr (), d))"

definition remove_stale_socket :: "path_buf \<Rightarrow> unit disk_op" where
  "remove_stale_socket p d = (case fs_remove_file p d of
     (Inr _, d1) \<Rightarrow> (Inr (), d1)
   | (Inl error, d1) \<Rightarrow> (if io_kind error = NotFoundKind then Inr () else Inl (Io error), d1))"

definition bind_local :: "path_buf \<Rightarrow> unit disk_op" where
  "bind_local p =
     op_bind (remove_stale_socket p) (\<lambda>_.
     op_bind (tr_err (unix_bind p)) (\<lambda>_.
     op_bind (tr_err (set_permissions p)) (\<lambda>_.
     tr_err set_nonblocking)))"

text \<open>A failure to remove the socket at the end is only reported.\<close>

definition remove_local_socket :: "path_buf \<Rightarrow> disk \<Rightarrow> io_error option \<times> disk" where
  "remove_local_socket p d = (case fs_remove_file p d of
     (Inl error, d1) \<Rightarrow> (if io_kind error \<noteq> NotFoundKind then Some error else None, d1)
   | (Inr _, d1) \<Rightarrow> (None, d1))"

subsection \<open>Start and end\<close>

record agent_handle =
  ah_endpoint :: socket_addr
  ah_advertised_endpoint :: socket_addr
  ah_local_socket_path :: path_buf
  ah_store :: cluster_store
  ah_identity :: device_identity
  ah_presence_interval_millis :: nat
  ah_discovery_port :: "u16 option"

text \<open>
  \<open>held\<close> says whether another process has the lock of the directory; \<open>tcp_bind\<close> is what binding the peer listener gives,
  with the address it got, and \<open>discovery_socket\<close> what making the socket for announcements gives. The identity is loaded
  twice, once to open the state; \<open>draws\<close> are the key pairs the generator would make.
\<close>

definition agent_start ::
    "identity_env \<Rightarrow> (nat \<Rightarrow> keypair_draw) \<Rightarrow> hash_function \<Rightarrow> agent_state json_codec \<Rightarrow> string option \<Rightarrow> bool \<Rightarrow> (socket_addr \<Rightarrow> io_error + socket_addr) \<Rightarrow>
     io_error + unit \<Rightarrow> 'p agent_config \<Rightarrow> agent_handle disk_op" where
  "agent_start E draws sha256 K hostname held tcp_bind discovery_socket config = (let dir = ac_data_directory config in
     op_bind (acquire_agent_lock held dir) (\<lambda>_.
     op_bind (cluster_store_open E (draws 0) sha256 K dir (ac_device_name config) hostname) (\<lambda>store.
     op_bind (load_or_create E (draws 1) dir) (\<lambda>identity.
     op_bind (bind_local (socket_path dir)) (\<lambda>_.
     op_bind (op_lift (map_err Io (tcp_bind (ac_listen config)))) (\<lambda>endpoint.
     op_bind (op_lift (advertised_endpoint (ac_advertise config) endpoint)) (\<lambda>advertised.
     op_bind (op_lift (case ac_discovery_port config of None \<Rightarrow> Inr () | Some _ \<Rightarrow> map_err Io discovery_socket)) (\<lambda>_.
     op_lift (Inr \<lparr>ah_endpoint = endpoint, ah_advertised_endpoint = advertised, ah_local_socket_path = socket_path dir,
       ah_store = store, ah_identity = identity, ah_presence_interval_millis = max (ac_presence_interval_millis config) 20,
       ah_discovery_port = ac_discovery_port config\<rparr>)))))))))"

text \<open>What the threads share when they start.\<close>

definition started_agent :: "'p agent_config \<Rightarrow> 'c \<Rightarrow> 'n \<Rightarrow> disk \<Rightarrow> ('c, 'n) agent" where
  "started_agent config content network d = \<lparr>ag_disk = d, ag_presence = presence_default, ag_content = content, ag_net = network,
     ag_failed_commits = ac_fail_join_after_remote_accepts config, ag_dropped_responses = ac_drop_remote_join_responses config\<rparr>"

datatype thread_end = Finished "unit tr_result" | ThreadPanicked

fun join_threads :: "thread_end list \<Rightarrow> unit tr_result" where
  "join_threads [] = Inr ()"
| "join_threads (ThreadPanicked # rest) = Inl (InvalidMessage ''agent thread panicked'')"
| "join_threads (Finished (Inl error) # rest) = Inl error"
| "join_threads (Finished (Inr ()) # rest) = join_threads rest"

text \<open>
  Waiting joins the threads and removes the socket; then the handle is dropped, which finds no thread to join and removes
  the socket again. A shutdown is the same once the threads have seen the flag, which is where their scripts end.
\<close>

definition drop_handle :: "agent_handle \<Rightarrow> disk \<Rightarrow> disk" where
  "drop_handle handle d = snd (remove_local_socket (ah_local_socket_path handle) d)"

definition agent_wait :: "agent_handle \<Rightarrow> thread_end list \<Rightarrow> unit disk_op" where
  "agent_wait handle threads d = (join_threads threads, drop_handle handle (snd (remove_local_socket (ah_local_socket_path handle) d)))"

definition agent_shutdown :: "agent_handle \<Rightarrow> thread_end list \<Rightarrow> unit disk_op" where
  "agent_shutdown handle threads = agent_wait handle threads"

subsection \<open>Connections\<close>

definition write_response :: "control_codecs \<Rightarrow> control_response \<Rightarrow> unit stream_op" where
  "write_response K response = write_frame (cc_response K) (enveloped response)"

definition handle_local_connection ::
    "control_codecs \<Rightarrow> agent_env \<Rightarrow> 'n peer_channel \<Rightarrow> rng \<Rightarrow> u64 \<Rightarrow> socket_addr \<Rightarrow> stream \<Rightarrow> ('c, 'n) agent
     \<Rightarrow> (unit tr_result \<times> stream) \<times> ('c, 'n) agent" where
  "handle_local_connection K A C rng now endpoint st w =
     (let (incoming, st1) = read_frame (cc_request K) st;
          (response, w1) = handle_local A C rng now endpoint incoming w
      in (write_response K (env_body response) st1, w1))"

record peer_codecs =
  pc_request :: "remote_request envelope json_codec"
  pc_response :: "control_response envelope json_codec"

definition write_secure_response :: "('h, 't) noise \<Rightarrow> peer_codecs \<Rightarrow> control_response \<Rightarrow> ('t, unit) secure_op" where
  "write_secure_response N K response = secure_write N (pc_response K) (enveloped response)"

text \<open>What is done with a peer once the channel is there.\<close>

definition serve_peer ::
    "('h, 't) noise \<Rightarrow> peer_codecs \<Rightarrow> agent_env \<Rightarrow> 'c peer_content_store option \<Rightarrow> rng \<Rightarrow> u64 \<Rightarrow> 't secure_stream \<Rightarrow> ('c, 'n) agent
     \<Rightarrow> (unit tr_result \<times> 't secure_stream) \<times> ('c, 'n) agent" where
  "serve_peer N K A P rng now s w =
     (let (incoming, s1) = secure_read N (pc_request K) s;
          (reaction, w1) = handle_remote A P rng now (ss_remote s) incoming w
      in case reaction of
        Silent \<Rightarrow> ((Inr (), s1), w1)
      | Replies response payload \<Rightarrow>
          (op_bind (write_secure_response N K response) (\<lambda>_. case payload of
              None \<Rightarrow> op_lift (Inr ()) | Some bs \<Rightarrow> write_payload N bs) s1, w1)
      | TakesPayload content cid sz \<Rightarrow> (case write_secure_response N K ContentReady s1 of
            (Inl error, s2) \<Rightarrow> ((Inl error, s2), w1)
          | (Inr _, s2) \<Rightarrow>
              (let (payload, s3) = read_payload N sz s2;
                   (response, w2) = content_put_finish content cid payload w1
               in (write_secure_response N K response s3, w2))))"

definition handle_remote_connection ::
    "('h, 't) noise \<Rightarrow> peer_codecs \<Rightarrow> agent_env \<Rightarrow> 'c peer_content_store option \<Rightarrow> rng \<Rightarrow> u64 \<Rightarrow> device_identity \<Rightarrow> stream \<Rightarrow> ('c, 'n) agent
     \<Rightarrow> unit tr_result \<times> ('c, 'n) agent" where
  "handle_remote_connection N K A P rng now identity st w = (case secure_accept N (ae_sha256 A) st identity of
     Inl error \<Rightarrow> (Inl error, w)
   | Inr s \<Rightarrow> (let ((result, _), w1) = serve_peer N K A P rng now s w in (result, w1)))"

subsection \<open>Threads\<close>

datatype 'a accepted = Accepted 'a | WouldBlock | AcceptFailed io_error

fun serve :: "('a \<Rightarrow> 'w \<Rightarrow> 'w) \<Rightarrow> 'a accepted list \<Rightarrow> 'w \<Rightarrow> unit tr_result \<times> 'w" where
  "serve handle [] w = (Inr (), w)"
| "serve handle (Accepted connection # rest) w = serve handle rest (handle connection w)"
| "serve handle (WouldBlock # rest) w = serve handle rest w"
| "serve handle (AcceptFailed error # rest) w = (Inl (Io error), w)"

text \<open>A connection of a client is its stream, with the random numbers and the time its handler draws.\<close>

definition run_local_listener ::
    "control_codecs \<Rightarrow> agent_env \<Rightarrow> 'n peer_channel \<Rightarrow> socket_addr \<Rightarrow> (rng \<times> u64 \<times> stream) accepted list \<Rightarrow> ('c, 'n) agent
     \<Rightarrow> unit tr_result \<times> ('c, 'n) agent" where
  "run_local_listener K A C endpoint =
     serve (\<lambda>(rng, now, st) w. snd (handle_local_connection K A C rng now endpoint st w))"

definition run_remote_listener ::
    "('h, 't) noise \<Rightarrow> peer_codecs \<Rightarrow> agent_env \<Rightarrow> 'c peer_content_store option \<Rightarrow> device_identity \<Rightarrow> (rng \<times> u64 \<times> stream) accepted list
     \<Rightarrow> ('c, 'n) agent \<Rightarrow> unit tr_result \<times> ('c, 'n) agent" where
  "run_remote_listener N K A P identity =
     serve (\<lambda>(rng, now, st) w. snd (handle_remote_connection N K A P rng now identity st w))"

text \<open>The rounds of the presence thread, with the times they read; the result of a round is dropped.\<close>

definition run_presence ::
    "agent_env \<Rightarrow> 'n peer_channel \<Rightarrow> ((nat \<Rightarrow> u64) \<times> (nat \<Rightarrow> u64)) list \<Rightarrow> ('c, 'n, unit) agent_op" where
  "run_presence A C rounds w =
     (Inr (), fold (\<lambda>(sync_clock, probe_clock) w. snd (reconcile_presence A C sync_clock probe_clock w)) rounds w)"

text \<open>The rounds of the discovery thread, with what the sends of each give; the first failure ends it.\<close>

fun run_discovery ::
    "agent_env \<Rightarrow> discovery_packet json_codec \<Rightarrow> socket_addr \<Rightarrow>
     ((bytes \<Rightarrow> io_error + unit) \<times> (bytes \<Rightarrow> io_error + unit) \<times> (bytes \<Rightarrow> io_error + unit)) list \<Rightarrow> unit disk_op" where
  "run_discovery A J endpoint [] = op_lift (Inr ())"
| "run_discovery A J endpoint (sends # rest) = op_bind (send_announcement A J endpoint sends) (\<lambda>_. run_discovery A J endpoint rest)"

subsection \<open>A second agent\<close>

definition agent_lock_path :: "path_buf \<Rightarrow> path_buf" where
  "agent_lock_path dir = path_join dir ''agent.lock''"

lemma touches_acquire: "touches {agent_lock_path dir} (acquire_agent_lock held dir)"
  unfolding acquire_agent_lock_def private_directory_def agent_lock_path_def tr_err_def by (intro touching) simp

lemma acquire_held:
  "acquire_agent_lock True dir d = (r, d') \<Longrightarrow> (\<exists>e. r = Inl e) \<and> (healthy d \<longrightarrow> r = Inl AgentAlreadyRunning)"
  by (cases r) (auto simp: acquire_agent_lock_def private_directory_def op_bind_eq_Inr tr_err_def op_bind_def io_err_def healthy_calls
      split: prod.splits sum.splits option.splits)

text \<open>
  C19: while an agent runs on a directory, another one that is started there gives up and leaves every file as it
  is, the socket of the running agent and its state included, but for the lock file. On a working disk it says that an agent
  is running.
\<close>

theorem second_agent_gives_up:
  assumes "agent_start E draws sha256 K hostname True tcp_bind discovery_socket config d = (r, d')"
  shows "(\<exists>e. r = Inl e) \<and> (healthy d \<longrightarrow> r = Inl AgentAlreadyRunning) \<and>
    (\<forall>p. p \<noteq> agent_lock_path (ac_data_directory config) \<longrightarrow> file_at d' p = file_at d p)"
proof -
  obtain q d1 where lock: "acquire_agent_lock True (ac_data_directory config) d = (q, d1)" by fastforce
  from acquire_held [OF this] obtain e where e: "q = Inl e" "healthy d \<longrightarrow> e = AgentAlreadyRunning" by blast
  with assms lock have "r = Inl e" "d' = d1" by (simp_all add: agent_start_def Let_def op_bind_def)
  with e touchesD(1) [OF touches_acquire lock] show ?thesis by auto
qed

definition demo_draws :: "nat \<Rightarrow> keypair_draw" where
  "demo_draws i = (if i = 0 then demo_draw else demo_draw_later)"

theorem second_agent_gives_up_witness:
  "fst (agent_start demo_identity_env demo_draws demo_hash demo_agent_codec None True (\<lambda>a. Inr a) (Inr ())
     (agent_config_new [''data''] :: unit agent_config) demo_data_disk) = Inl AgentAlreadyRunning"
proof -
  have "healthy demo_data_disk" by (simp add: healthy_def demo_data_disk_def)
  with second_agent_gives_up [OF surjective_pairing, where d = demo_data_disk and config = "agent_config_new [''data''] :: unit agent_config"]
  show ?thesis by blast
qed

subsection \<open>A request of a local client\<close>

text \<open>
  C18: the control channel is faithful: when the frames of a request and of its answer pass between a client and
  the agent, the client gets exactly what the handler of the request answers, an error of it as the error of the agent
  with its code and message, and the agent has done exactly what that handler does.
\<close>

theorem local_control_faithful:
  assumes codecs: "frame_codec_ok (cc_request K)" "frame_codec_ok (cc_response K)"
    and asked: "write_frame (cc_request K) (enveloped request) client = (Inr (), client')"
    and arrives: "st_out client' = st_out client @ st_in agent"
    and answered: "handle_local_connection K A C rng now endpoint agent w = ((Inr (), agent'), w')"
    and returns: "st_out agent' = st_out agent @ st_in client"
  shows "control_request K (Inr client) request =
      open_response (enveloped (case fst (dispatch_local A C rng now endpoint request w) of Inr response \<Rightarrow> response | Inl error \<Rightarrow> error_response error)) \<and>
    w' = snd (dispatch_local A C rng now endpoint request w)"
proof -
  obtain q w1 where run: "dispatch_local A C rng now endpoint request w = (q, w1)" by fastforce
  define response where "response = (case q of Inr response \<Rightarrow> response | Inl error \<Rightarrow> error_response error)"
  obtain a0 where a0: "read_frame (cc_request K) agent = (Inr (enveloped request), a0)" "st_out a0 = st_out agent"
    using frames.received [OF asked codecs(1) arrives] .
  have "handle_local A C rng now endpoint (Inr (enveloped request)) w = (enveloped response, w1)"
    using run by (cases q) (simp_all add: handle_local_def response_def)
  with answered a0 have wr: "write_frame (cc_response K) (enveloped response) a0 = (Inr (), agent')" and "w' = w1"
    by (simp_all add: handle_local_connection_def write_response_def)
  have "st_out agent' = st_out a0 @ st_in client'" using returns a0(2) frames.send_incoming [OF asked] by simp
  then obtain c where "read_frame (cc_response K) client' = (Inr (enveloped response), c)"
    using frames.received [OF wr codecs(2)] by blast
  with asked \<open>w' = w1\<close> run show ?thesis by (simp add: control_request_def response_def)
qed

definition demo_control_codecs :: control_codecs where
  "demo_control_codecs = \<lparr>cc_request = \<lparr>to_json = (\<lambda>x. if x = enveloped LocalPresence then Inr [1] else Inl ''unknown''),
       from_json = (\<lambda>bs. if bs = [1] then Inr (enveloped LocalPresence) else Inl ''unknown'')\<rparr>,
     cc_response = \<lparr>to_json = (\<lambda>x. if x = enveloped (Presence []) then Inr [2] else Inl ''unknown''),
       from_json = (\<lambda>bs. if bs = [2] then Inr (enveloped (Presence [])) else Inl ''unknown'')\<rparr>\<rparr>"

definition demo_silence :: "unit peer_channel" where
  "demo_silence = \<lparr>ch_connect = (\<lambda>_ _ n. (Inl AgentUnavailable, n)), ch_write = (\<lambda>_ n. (Inl AgentUnavailable, n)),
     ch_read = (\<lambda>n. (Inl AgentUnavailable, n)), ch_write_payload = (\<lambda>_ n. (Inl AgentUnavailable, n)),
     ch_read_payload = (\<lambda>_ n. (Inl AgentUnavailable, n))\<rparr>"

definition demo_connection :: "bytes \<Rightarrow> stream" where
  "demo_connection bs = \<lparr>st_in = bs, st_out = [], st_faults = []\<rparr>"

lemma demo_header: "to_be_bytes 1 = [0, 0, 0, 1]" "from_be_bytes [0, 0, 0, 1] = 1"
  by code_simp+

lemmas demo_frames = write_frame_def read_frame_def demo_control_codecs_def max_frame_size_def u32_try_from_def write_all_def flush_def
  read_exact_def op_bind_def demo_connection_def demo_header

theorem local_control_faithful_witness:
  "control_request demo_control_codecs (Inr (demo_connection [0, 0, 0, 1, 2])) LocalPresence = Inr (Presence [])"
proof -
  let ?K = demo_control_codecs and ?client = "demo_connection [0, 0, 0, 1, 2]" and ?agent = "demo_connection [0, 0, 0, 1, 1]"
  let ?w = "started_agent (agent_config_new [''data''] :: unit agent_config) () () demo_data_disk"
  have ok: "frame_codec_ok (cc_request ?K)" "frame_codec_ok (cc_response ?K)"
    by (auto simp: demo_control_codecs_def frame_codec_ok_def json_ok_def split: if_splits)
  have asked: "write_frame (cc_request ?K) (enveloped LocalPresence) ?client = (Inr (), ?client\<lparr>st_out := [0, 0, 0, 1, 1]\<rparr>)"
    by (simp add: demo_frames)
  have dispatched: "dispatch_local demo_env demo_silence demo_rng 5 (demo_address 1) LocalPresence ?w = (Inr (Presence []), ?w)"
    by (simp add: dispatch_local_def on_presence_def presence_snapshot_def started_agent_def presence_default_def
        with_records_def op_bind_def)
  have answered: "handle_local_connection ?K demo_env demo_silence demo_rng 5 (demo_address 1) ?agent ?w =
      ((Inr (), \<lparr>st_in = [], st_out = [0, 0, 0, 1, 2], st_faults = []\<rparr>), ?w)"
  proof -
    have "read_frame (cc_request ?K) ?agent = (Inr (enveloped LocalPresence), \<lparr>st_in = [], st_out = [], st_faults = []\<rparr>)"
      "write_frame (cc_response ?K) (enveloped (Presence [])) \<lparr>st_in = [], st_out = [], st_faults = []\<rparr> =
        (Inr (), \<lparr>st_in = [], st_out = [0, 0, 0, 1, 2], st_faults = []\<rparr>)" by (simp_all add: demo_frames)
    with dispatched show ?thesis by (simp add: handle_local_connection_def handle_local_def write_response_def)
  qed
  show ?thesis
    using local_control_faithful [OF ok asked _ answered] dispatched by (simp add: demo_connection_def)
qed

subsection \<open>A request of a peer\<close>

text \<open>A payload comes with its size, which is within the limit.\<close>

lemma dispatch_payload:
  assumes "dispatch_remote A P rng now request peer w = (Inr (response, Some bs), w1)"
  shows "\<exists>sz. response = ContentAvailable sz \<and> unat sz = length bs \<and> length bs \<le> max_transfer"
  using assms
  by (cases request) (auto simp: dispatch_remote_def op_bind_eq_Inr u64_try_from_def max_transfer_def max_content_transfer_size_def
      word_le_nat_alt unsigned_of_nat take_bit_nat_eq_self not_less split: if_splits)

lemma handle_remote_payload:
  assumes "handle_remote A P rng now peer (Inr (enveloped request)) w = (Replies response (Some bs), w1)"
  shows "\<exists>sz. response = ContentAvailable sz \<and> unat sz = length bs \<and> length bs \<le> max_transfer"
proof -
  obtain q w2 where run: "dispatch_remote A P rng now request peer w = (q, w2)" by fastforce
  from assms run have "q = Inr (response, Some bs)"
    by (cases request; cases q) (auto simp: handle_remote_def Let_def split: prod.splits sum.splits if_splits)
  with dispatch_payload run show ?thesis by blast
qed

text \<open>
  C13: the channel between agents is faithful: on an encrypted channel whose two ends agree, when the bytes of a request and
  of its answer arrive, the peer reads exactly the answer that the handler gives to its request under its authenticated
  name, and after it the payload whose size the answer announces, and the agent has done exactly what the handler does.
\<close>

theorem peer_exchange_faithful:
  assumes ciphers: "ciphers_agree N R" "ciphers_agree N (\<lambda>t u. R u t)" "R (ss_transport peer) (ss_transport agent)"
    and codecs: "json_ok (pc_request K)" "json_ok (pc_response K)"
    and asked: "secure_write N (pc_request K) (enveloped request) peer = (Inr (), peer1)"
    and arrives: "st_out (ss_stream peer1) = st_out (ss_stream peer) @ st_in (ss_stream agent)"
    and handled: "handle_remote A P rng now (ss_remote agent) (Inr (enveloped request)) w = (Replies response payload, w1)"
    and answered: "serve_peer N K A P rng now agent w = ((Inr (), agent1), w')"
    and returns: "st_out (ss_stream agent1) = st_out (ss_stream agent) @ st_in (ss_stream peer)"
  shows "w' = w1 \<and> (\<exists>peer2. secure_read N (pc_response K) peer1 = (Inr (enveloped response), peer2) \<and>
    (\<forall>bs. payload = Some bs \<longrightarrow> (\<exists>sz peer3. response = ContentAvailable sz \<and> read_payload N sz peer2 = (Inr bs, peer3))))"
proof -
  have ends: "channel_ends N R (pc_request K) peer agent" using ciphers codecs by (simp add: channel_ends_def)
  obtain a0 where read: "secure_read N (pc_request K) agent = (Inr (enveloped request), a0)"
    and a0: "st_out (ss_stream a0) = st_out (ss_stream agent)" "channel_ends N R (pc_request K) peer1 a0"
    using secure.received [OF asked ends arrives] .
  let ?rest = "\<lambda>_. case payload of None \<Rightarrow> op_lift (Inr ()) | Some bs \<Rightarrow> write_payload N bs"
  have w': "w' = w1" and sent: "op_bind (write_secure_response N K response) ?rest a0 = (Inr (), agent1)"
    using answered read handled by (simp_all add: serve_peer_def)
  from sent obtain a1 where a1: "secure_write N (pc_response K) (enveloped response) a0 = (Inr (), a1)" "?rest () a1 = (Inr (), agent1)"
    by (auto simp: op_bind_eq_Inr write_secure_response_def)
  obtain bs2 where bs2: "st_out (ss_stream agent1) = st_out (ss_stream a1) @ bs2"
    and pay: "\<And>bs r. payload = Some bs \<Longrightarrow> expects (\<lambda>t u. R u t) (ss_transport a1) bs2 r \<Longrightarrow>
      \<exists>sz r'. response = ContentAvailable sz \<and> read_payload N sz r = (Inr bs, r')"
  proof (cases payload)
    case None
    with a1(2) that [of "[]"] show thesis by simp
  next
    case (Some bs)
    from handle_remote_payload [OF handled [unfolded Some]] obtain sz where
      sz: "response = ContentAvailable sz" "unat sz = length bs" "length bs \<le> max_transfer" by blast
    have "sz = of_nat (length bs)" by (simp flip: sz(2))
    moreover from a1(2) Some have "write_payload N bs a1 = (Inr (), agent1)" by simp
    from payload_received [OF ciphers(2) this sz(3)] obtain b where "st_out (ss_stream agent1) = st_out (ss_stream a1) @ b"
      "\<And>r rest. expects (\<lambda>t u. R u t) (ss_transport a1) (b @ rest) r \<Longrightarrow> \<exists>r'. read_payload N (of_nat (length bs)) r = (Inr bs, r')" by blast
    moreover from this(2) [of "[]"] have "expects (\<lambda>t u. R u t) (ss_transport a1) b r \<Longrightarrow> \<exists>r'. read_payload N (of_nat (length bs)) r = (Inr bs, r')" for r
      by simp
    ultimately show thesis using Some sz(1) by (intro that [of b]) auto
  qed
  have ends1: "channel_ends N (\<lambda>t u. R u t) (pc_response K) a0 peer1" using a0(2) ciphers(2) codecs(2) by (simp add: channel_ends_def)
  have "st_out (ss_stream agent1) = st_out (ss_stream a0) @ st_in (ss_stream peer1)"
    using returns a0(1) secure.send_incoming [OF asked] by simp
  then obtain p2 where "secure_read N (pc_response K) peer1 = (Inr (enveloped response), p2)" "st_in (ss_stream p2) = bs2"
      "channel_ends N (\<lambda>t u. R u t) (pc_response K) a1 p2"
    using secure.received_first [OF a1(1) ends1 bs2] by blast
  with pay [of _ p2] w' show ?thesis by (auto simp: channel_ends_def expects_def)
qed

text \<open>A probe of an agent whose state cannot be read.\<close>

definition demo_probe :: remote_request where
  "demo_probe = PresenceProbe \<lparr>pa_cluster_id = ClusterId 1, pa_device_id = DeviceId ''device.a'', pa_credential = ''c''\<rparr>"

definition demo_refusal :: control_response where
  "demo_refusal = error_response (Io not_found_error)"

definition demo_peer_codecs :: peer_codecs where
  "demo_peer_codecs = \<lparr>pc_request = \<lparr>to_json = (\<lambda>x. if x = enveloped demo_probe then Inr [1] else Inl ''unknown''),
       from_json = (\<lambda>bs. if bs = [1] then Inr (enveloped demo_probe) else Inl ''unknown'')\<rparr>,
     pc_response = \<lparr>to_json = (\<lambda>x. if x = enveloped demo_refusal then Inr [2] else Inl ''unknown''),
       from_json = (\<lambda>bs. if bs = [2] then Inr (enveloped demo_refusal) else Inl ''unknown'')\<rparr>\<rparr>"

definition demo_blank_disk :: disk where
  "demo_blank_disk = \<lparr>dk_files = [], dk_faults = [], dk_stat_faults = []\<rparr>"

lemma demo_peer_header: "to_be_bytes 17 = [0, 0, 0, 17]" "from_be_bytes [0, 0, 0, 17] = 17"
  by code_simp+

lemma demo_handled:
  "\<exists>w1. handle_remote demo_env None demo_rng 5 peer (Inr (enveloped demo_probe))
     (started_agent (agent_config_new [''data''] :: unit agent_config) () () demo_blank_disk) = (Replies demo_refusal None, w1)"
proof -
  have "\<exists>d. agent_load demo_env demo_blank_disk = (Inl (Io not_found_error), d)"
    by (simp add: cluster_load_def process_guard_def cluster_lock_file_def read_state_def tr_err_def io_err_def op_bind_def open_lock_file_def
        flock_def fs_read_def io_call_def next_outcome_def demo_blank_disk_def cluster_store_at_def set_file_def path_join_def)
  then obtain d where "agent_load demo_env demo_blank_disk = (Inl (Io not_found_error), d)" by blast
  then show ?thesis
    by (simp add: handle_remote_def demo_probe_def dispatch_remote_def authorize_and_observe_def authorize_peer_def on_disk_def op_bind_def
        started_agent_def demo_refusal_def)
qed

theorem peer_exchange_faithful_witness:
  "\<exists>peer1 peer2. secure_write demo_noise (pc_request demo_peer_codecs) (enveloped demo_probe)
      (demo_stream ([0, 0, 0, 17, 2] @ replicate 16 6) 5) = (Inr (), peer1) \<and>
    secure_read demo_noise (pc_response demo_peer_codecs) peer1 = (Inr (enveloped demo_refusal), peer2)"
proof -
  let ?K = demo_peer_codecs and ?peer = "demo_stream ([0, 0, 0, 17, 2] @ replicate 16 6) 5" and ?agent = "demo_stream ([0, 0, 0, 17, 1] @ replicate 16 5) 5"
  let ?w = "started_agent (agent_config_new [''data''] :: unit agent_config) () () demo_blank_disk"
  note frames = secure_write_def secure_read_def send_plaintext_def receive_plaintext_def demo_noise_def demo_stream_def on_transport_def on_stream_def
    write_binary_frame_def read_binary_frame_def u32_try_from_def write_all_def flush_def read_exact_def op_bind_def demo_peer_codecs_def demo_peer_header
    max_plaintext_frame_def max_ciphertext_frame_def Let_def
  have ok: "ciphers_agree demo_noise (=)" "ciphers_agree demo_noise (\<lambda>t u. u = t)" "json_ok (pc_request ?K)" "json_ok (pc_response ?K)"
    by (auto simp: ciphers_agree_def demo_noise_def demo_peer_codecs_def json_ok_def split: if_splits)
  have asked: "\<exists>peer1. secure_write demo_noise (pc_request ?K) (enveloped demo_probe) ?peer = (Inr (), peer1) \<and>
      st_out (ss_stream peer1) = st_out (ss_stream ?peer) @ st_in (ss_stream ?agent)" by (simp add: frames)
  then obtain peer1 where asked: "secure_write demo_noise (pc_request ?K) (enveloped demo_probe) ?peer = (Inr (), peer1)"
    "st_out (ss_stream peer1) = st_out (ss_stream ?peer) @ st_in (ss_stream ?agent)" by blast
  obtain w1 where handled: "handle_remote demo_env None demo_rng 5 (ss_remote ?agent) (Inr (enveloped demo_probe)) ?w = (Replies demo_refusal None, w1)"
    using demo_handled by blast
  have read: "secure_read demo_noise (pc_request ?K) ?agent = (Inr (enveloped demo_probe), demo_stream [] 6)" by (simp add: frames)
  have "\<exists>a1. write_secure_response demo_noise ?K demo_refusal (demo_stream [] 6) = (Inr (), a1) \<and>
      st_out (ss_stream a1) = st_out (ss_stream ?agent) @ st_in (ss_stream ?peer)"
    by (simp add: write_secure_response_def frames)
  then have "\<exists>agent1. serve_peer demo_noise ?K demo_env None demo_rng 5 ?agent ?w = ((Inr (), agent1), w1) \<and>
      st_out (ss_stream agent1) = st_out (ss_stream ?agent) @ st_in (ss_stream ?peer)"
    using handled read by (auto simp: serve_peer_def op_bind_def)
  with peer_exchange_faithful [OF ok(1,2) _ ok(3,4) asked handled] asked(1) show ?thesis by (auto simp: demo_stream_def)
qed

subsection \<open>The life of an agent\<close>

text \<open>
  The threads of an agent share its state. What they do to it is a sequence of rounds: a connection of a
  client or a peer, a pass of the presence thread, an announcement.
\<close>

datatype agent_round =
    LocalRound rng u64 stream
  | PeerRound rng u64 stream
  | PresenceRound "nat \<Rightarrow> u64" "nat \<Rightarrow> u64"
  | AnnounceRound "(bytes \<Rightarrow> io_error + unit) \<times> (bytes \<Rightarrow> io_error + unit) \<times> (bytes \<Rightarrow> io_error + unit)"

record ('h, 't, 'c, 'n) process_env =
  pe_agent :: agent_env
  pe_noise :: "('h, 't) noise"
  pe_control :: control_codecs
  pe_peers :: peer_codecs
  pe_packets :: "discovery_packet json_codec"
  pe_content :: "'c peer_content_store option"
  pe_channel :: "'n peer_channel"
  pe_identity :: device_identity
  pe_endpoint :: socket_addr

definition agent_round :: "('h, 't, 'c, 'n) process_env \<Rightarrow> agent_round \<Rightarrow> ('c, 'n) agent \<Rightarrow> ('c, 'n) agent" where
  "agent_round X turn w = (case turn of
     LocalRound rng now st \<Rightarrow> snd (handle_local_connection (pe_control X) (pe_agent X) (pe_channel X) rng now (pe_endpoint X) st w)
   | PeerRound rng now st \<Rightarrow> snd (handle_remote_connection (pe_noise X) (pe_peers X) (pe_agent X) (pe_content X) rng now (pe_identity X) st w)
   | PresenceRound sync_clock probe_clock \<Rightarrow> snd (reconcile_presence (pe_agent X) (pe_channel X) sync_clock probe_clock w)
   | AnnounceRound sends \<Rightarrow> snd (on_disk (send_announcement (pe_agent X) (pe_packets X) (pe_endpoint X) sends) w))"

text \<open>Each thread makes rounds of its kind only.\<close>

fun accepted_connections :: "'a accepted list \<Rightarrow> 'a list" where
  "accepted_connections [] = []"
| "accepted_connections (Accepted connection # rest) = connection # accepted_connections rest"
| "accepted_connections (WouldBlock # rest) = accepted_connections rest"
| "accepted_connections (AcceptFailed error # rest) = []"

lemma serve_fold: "snd (serve handle script w) = fold handle (accepted_connections script) w"
  by (induction handle script w rule: serve.induct) simp_all

lemma listeners_make_rounds:
  "snd (run_local_listener (pe_control X) (pe_agent X) (pe_channel X) (pe_endpoint X) script w) =
     fold (agent_round X) (map (\<lambda>(rng, now, st). LocalRound rng now st) (accepted_connections script)) w"
  "snd (run_remote_listener (pe_noise X) (pe_peers X) (pe_agent X) (pe_content X) (pe_identity X) script w) =
     fold (agent_round X) (map (\<lambda>(rng, now, st). PeerRound rng now st) (accepted_connections script)) w"
  "snd (run_presence (pe_agent X) (pe_channel X) rounds w) =
     fold (agent_round X) (map (\<lambda>(sync_clock, probe_clock). PresenceRound sync_clock probe_clock) rounds) w"
  unfolding run_local_listener_def run_remote_listener_def run_presence_def serve_fold fold_map comp_def snd_conv
  by (rule fold_cong; auto simp: agent_round_def)+

lemma handle_remote_connection_evolves:
  assumes "agent_ok A w"
  shows "evolves A 0 w (snd (handle_remote_connection N K A P rng now identity st w))"
proof (cases "secure_accept N (ae_sha256 A) st identity")
  case (Inr s)
  obtain incoming s1 where rd: "secure_read N (pc_request K) s = (incoming, s1)" by fastforce
  obtain reaction w1 where h: "handle_remote A P rng now (ss_remote s) incoming w = (reaction, w1)" by fastforce
  have 1: "evolves A 0 w w1" by (rule handle_remote_evolves [OF assms h])
  then have ok1: "agent_ok A w1" by (simp add: evolves_def)
  have "evolves A 0 w (snd (content_put_finish content cid payload w1))" for content cid payload
    using evolves_trans [OF 1 content_put_finish_evolves [OF ok1]] by (metis add_0 prod.collapse)
  with 1 Inr rd h show ?thesis
    by (auto simp: handle_remote_connection_def serve_peer_def case_prod_beta Let_def split: reaction.splits sum.splits prod.splits)
qed (use assms in \<open>simp add: handle_remote_connection_def\<close>)

lemma agent_round_evolves: "agent_ok (pe_agent X) w \<Longrightarrow> \<exists>n. evolves (pe_agent X) n w (agent_round X turn w)"
proof -
  assume ok: "agent_ok (pe_agent X) w"
  show ?thesis
  proof (cases turn)
    case (LocalRound rng now st)
    then show ?thesis
      using handle_local_evolves [OF ok] by (auto simp: agent_round_def handle_local_connection_def Let_def split: prod.splits) blast
  next
    case (PeerRound rng now st)
    then show ?thesis using handle_remote_connection_evolves [OF ok] by (simp add: agent_round_def) blast
  next
    case (PresenceRound sync_clock probe_clock)
    then show ?thesis
      using edits_onlyD [OF edits_reconcile_presence ok] by (auto simp: agent_round_def) (metis prod.collapse)
  next
    case (AnnounceRound sends)
    have "edits_only (pe_agent X) 0 (on_disk (send_announcement (pe_agent X) (pe_packets X) (pe_endpoint X) sends))"
      unfolding send_announcement_def by (intro edits_intros)
    from edits_onlyD [OF this ok] AnnounceRound show ?thesis by (auto simp: agent_round_def) (metis prod.collapse)
  qed
qed

lemma agent_rounds_evolve: "agent_ok (pe_agent X) w \<Longrightarrow> \<exists>n. evolves (pe_agent X) n w (fold (agent_round X) rounds w)"
proof (induction rounds arbitrary: w)
  case Nil
  then show ?case by auto
next
  case (Cons turn rounds)
  from agent_round_evolves [OF Cons.prems] obtain n where n: "evolves (pe_agent X) n w (agent_round X turn w)" by blast
  then have "agent_ok (pe_agent X) (agent_round X turn w)" by (simp add: evolves_def)
  from Cons.IH [OF this] n show ?case by (auto dest: evolves_trans)
qed

text \<open>Opening the cluster state in a directory that has none makes the initial state of the device.\<close>

lemma touches_before_state:
  "touches {identity_path dir, with_extension (identity_path dir) ''tmp'', cst_lock_path (cluster_store_at dir)} (load_or_create E draw dir)"
  "touches {identity_path dir, with_extension (identity_path dir) ''tmp'', cst_lock_path (cluster_store_at dir)} (private_directory dir)"
  "touches {identity_path dir, with_extension (identity_path dir) ''tmp'', cst_lock_path (cluster_store_at dir)} (cluster_lock_file (cluster_store_at dir))"
  "touches {identity_path dir, with_extension (identity_path dir) ''tmp'', cst_lock_path (cluster_store_at dir)} (tr_err flock)"
  unfolding private_directory_def cluster_lock_file_def tr_err_def by (intro touching; simp)+

lemma cluster_store_open_fresh:
  assumes "json_ok K" "cluster_store_open E draw sha256 K dir name hostname d = (Inr st, d')"
    and fresh: "file_at d (cst_state_path (cluster_store_at dir)) = None"
    and env: "identity_env_ok E" "stat_reliable d" "load_or_create E draw' dir d' = (Inr i, d'')"
  shows "\<exists>n. cluster_ok K (cluster_store_at dir) d' \<and> cluster_view K (cluster_store_at dir) d' = initial_state (identity_device_id sha256 i) n"
proof -
  let ?st = "cluster_store_at dir"
  let ?p = "cst_state_path ?st"
  from assms(2) obtain j u1 d1 d2 u3 d3 u4 d4 where dirs: "private_directory dir d = (Inr u1, d1)"
    and j: "load_or_create E draw dir d1 = (Inr j, d2)" and lock: "cluster_lock_file ?st d2 = (Inr u3, d3)" "tr_err flock d3 = (Inr u4, d4)"
    and rest: "(let (there, d5) = path_exists ?p d4 in
       (if \<not> there
        then op_bind (op_lift (normalize_device_name (initial_name name hostname))) (\<lambda>name.
             op_bind (write_state K ?st (initial_state (identity_device_id sha256 j) name)) (\<lambda>_. op_lift (Inr ?st)))
        else op_bind (read_state K ?st) (\<lambda>state.
             if ags_device_id state \<noteq> identity_device_id sha256 j
             then op_lift (Inl (InvalidIdentity ''cluster state is bound to a different private key''))
             else op_lift (Inr ?st))) d5) = (Inr st, d')"
    unfolding cluster_store_open_def Let_def by (auto simp only: op_bind_eq_Inr)
  have "file_at d4 ?p = None"
    using fresh state_apart [of dir] touchesD(1) [OF touches_before_state(2) dirs] touchesD(1) [OF touches_before_state(1) j]
      touchesD(1) [OF touches_before_state(3) lock(1)] touchesD(1) [OF touches_before_state(4) lock(2)] by simp
  moreover obtain there d5 where pe: "path_exists ?p d4 = (there, d5)" by fastforce
  ultimately have "\<not> there" using path_exists_true by metis
  with rest pe obtain n where "write_state K ?st (initial_state (identity_device_id sha256 j) n) d5 = (Inr (), d')"
    by (auto simp: op_bind_eq_Inr)
  note written = write_state_law [OF assms(1) store_at_apart this] and stored = this
  have "touches {?p, with_extension ?p ''tmp''} (write_state K ?st x)" for x
    unfolding write_state_def replace_file_def tr_err_def Let_def by (intro touching) simp_all
  from touchesD [OF this stored] have after: "file_at d' (identity_path dir) = file_at d5 (identity_path dir)" "stat_reliable d5 \<Longrightarrow> stat_reliable d'"
    using device_files_distinct [of dir] by simp_all
  have d5: "dk_files d5 = dk_files d4" "stat_reliable d4 \<Longrightarrow> stat_reliable d5"
    using pe by (auto simp: path_exists_def stat_reliable_def split: list.splits)
  have "touches {cst_lock_path ?st} (cluster_lock_file ?st)" "touches {} (tr_err flock)"
    unfolding cluster_lock_file_def tr_err_def by (intro touching; simp)+
  from touchesD [OF this(1) lock(1)] touchesD [OF this(2) lock(2)]
  have d4: "file_at d4 (identity_path dir) = file_at d2 (identity_path dir)" "stat_reliable d2 \<Longrightarrow> stat_reliable d4"
    using device_files_distinct [of dir] by simp_all
  have "stat_reliable d1" "stat_reliable d2"
    using env(2) touchesD(2) [OF touches_before_state(2) dirs] touchesD(2) [OF touches_before_state(1) j] by simp_all
  with load_twice [OF env(1) j _ _ _ env(3)] after d5 d4 have "i = j" by simp
  with written show ?thesis by blast
qed

lemma touches_bind_local: "touches {p} (bind_local p)"
proof -
  have "touches {p} (unix_bind p)" "touches {p} set_nonblocking"
    unfolding unix_bind_def set_nonblocking_def by (rule touches_io_call; auto simp: set_file_def split: option.splits)+
  moreover have "touches {p} (remove_stale_socket p)"
    unfolding remove_stale_socket_def by (rule touches_remove_if_there) simp
  ultimately show ?thesis unfolding bind_local_def tr_err_def by (intro touching)
qed

lemma agent_start_steps:
  assumes "agent_start E draws sha256 K hostname held tcp_bind discovery_socket config d = (Inr handle, d')"
  obtains u d1 d2 i d3 v where "acquire_agent_lock held (ac_data_directory config) d = (Inr u, d1)"
    "cluster_store_open E (draws 0) sha256 K (ac_data_directory config) (ac_device_name config) hostname d1 = (Inr (ah_store handle), d2)"
    "load_or_create E (draws 1) (ac_data_directory config) d2 = (Inr i, d3)" "bind_local (socket_path (ac_data_directory config)) d3 = (Inr v, d')"
    "ah_identity handle = i"
  using assms unfolding agent_start_def Let_def op_bind_eq_Inr op_lift_def prod.inject sum.inject by (elim exE conjE) auto

lemma agent_start_fresh:
  assumes "json_ok K" "agent_start E draws sha256 K hostname held tcp_bind discovery_socket config d = (Inr handle, d')"
    and fresh: "file_at d (cst_state_path (cluster_store_at (ac_data_directory config))) = None"
    and env: "identity_env_ok E" "stat_reliable d"
  shows "\<exists>n. cluster_ok K (ah_store handle) d' \<and> cluster_view K (ah_store handle) d' = initial_state (identity_device_id sha256 (ah_identity handle)) n"
  using assms(2)
proof (rule agent_start_steps)
  let ?dir = "ac_data_directory config"
  let ?p = "cst_state_path (cluster_store_at ?dir)"
  fix u d1 d2 i d3 v
  assume 1: "acquire_agent_lock held ?dir d = (Inr u, d1)"
    and 2: "cluster_store_open E (draws 0) sha256 K ?dir (ac_device_name config) hostname d1 = (Inr (ah_store handle), d2)"
    and 3: "load_or_create E (draws 1) ?dir d2 = (Inr i, d3)" and 4: "bind_local (socket_path ?dir) d3 = (Inr v, d')"
    and i: "ah_identity handle = i"
  have apart: "?p \<noteq> agent_lock_path ?dir" "?p \<noteq> socket_path ?dir"
    by (simp_all add: agent_lock_path_def socket_path_def cluster_store_at_def path_join_def)
  have st: "ah_store handle = cluster_store_at ?dir" by (rule cluster_store_open_at [OF 2])
  have "file_at d1 ?p = None" using fresh apart(1) touchesD(1) [OF touches_acquire 1] by simp
  moreover have "stat_reliable d1" using env(2) touchesD(2) [OF touches_acquire 1] by simp
  ultimately obtain n where j: "cluster_ok K (cluster_store_at ?dir) d2"
    "cluster_view K (cluster_store_at ?dir) d2 = initial_state (identity_device_id sha256 i) n"
    using cluster_store_open_fresh [OF assms(1) 2 _ env(1) _ 3] by blast
  have "same_state (cluster_store_at ?dir) d2 d'"
    using apart(2) state_apart [of ?dir] touchesD(1) [OF touches_before_state(1) 3] touchesD(1) [OF touches_bind_local 4]
    by (simp add: same_state_def)
  from same_state_kept [OF this, of K] j st i show ?thesis by auto
qed

text \<open>
  C9: an agent that is started on a directory without cluster state, on a disk whose \<open>stat\<close> calls do not fail, whatever its
  threads then do with the connections of clients and peers, in whatever order, with any bytes on them and any failures of the
  other calls of the disk and of the network, always has a well-formed membership state, of the device whose identifier is the
  fingerprint of the key its channels prove. So the key the state is opened with and the one loaded for the channels are one,
  whichever pairs the generator would have drawn for either.
\<close>

theorem agent_life_wf:
  assumes "json_ok K" "token_codec_ok (ae_tokens (pe_agent X))" "ae_json (pe_agent X) = K" "ae_store (pe_agent X) = ah_store handle"
    and "agent_start E draws sha256 K hostname held tcp_bind discovery_socket config d = (Inr handle, d')"
    and "file_at d (cst_state_path (cluster_store_at (ac_data_directory config))) = None"
    and "identity_env_ok E" "stat_reliable d"
  shows "let s = agent_view (pe_agent X) (fold (agent_round X) rounds (started_agent config content network d')) in
    agent_wf (pe_agent X) s \<and> ags_device_id s = identity_device_id sha256 (ah_identity handle)"
proof -
  let ?A = "pe_agent X" and ?w = "started_agent config content network d'"
  from agent_start_fresh [OF assms(1,5-8)] obtain n where i: "cluster_ok K (ah_store handle) d'"
    "cluster_view K (ah_store handle) d' = initial_state (identity_device_id sha256 (ah_identity handle)) n" by blast
  then have w: "agent_ok ?A ?w" "agent_view ?A ?w = initial_state (identity_device_id sha256 (ah_identity handle)) n"
    using assms(3,4) by (simp_all add: started_agent_def)
  obtain k where "agent_edits ?A k (agent_view ?A ?w) (agent_view ?A (fold (agent_round X) rounds ?w))"
    using agent_rounds_evolve [OF w(1)] by (auto simp: evolves_def)
  from agent_edits_wf [OF this assms(2)] agent_edits_device [OF this] w(2) initial_state_wf show ?thesis
    by (simp add: initial_state_def Let_def)
qed

text \<open>An agent on an empty disk, to which a client sends a request and a peer some bytes.\<close>

definition demo_agent_config :: "unit agent_config" where
  "demo_agent_config = agent_config_new [''data'']"

definition demo_started :: "agent_handle tr_result \<times> disk" where
  "demo_started = agent_start demo_identity_env demo_draws demo_hash demo_agent_codec None False (\<lambda>a. Inr a) (Inr ()) demo_agent_config
     \<lparr>dk_files = [], dk_faults = [], dk_stat_faults = []\<rparr>"

definition demo_deaf :: "(unit, unit) noise" where
  "demo_deaf = \<lparr>nz_initiator = (\<lambda>_. Inl ''none''), nz_responder = (\<lambda>_. Inl ''none''), nz_hs_write = (\<lambda>_. Inl ''none''),
     nz_hs_read = (\<lambda>_ _. Inl ''none''), nz_remote_static = (\<lambda>_. None), nz_transport = (\<lambda>_. Inl ''none''),
     nz_encrypt = (\<lambda>_ _. Inl ''none''), nz_decrypt = (\<lambda>_ _. Inl ''none'')\<rparr>"

definition demo_process :: "agent_handle \<Rightarrow> (unit, unit, unit, unit) process_env" where
  "demo_process handle = \<lparr>pe_agent = \<lparr>ae_store = ah_store handle, ae_json = demo_agent_codec, ae_tokens = demo_tokens, ae_sha256 = demo_hash\<rparr>,
     pe_noise = demo_deaf, pe_control = demo_control_codecs, pe_peers = \<lparr>pc_request = \<lparr>to_json = (\<lambda>_. Inl ''unknown''), from_json = (\<lambda>_. Inl ''unknown'')\<rparr>,
     pc_response = cc_response demo_control_codecs\<rparr>, pe_packets = \<lparr>to_json = (\<lambda>_. Inl ''unknown''), from_json = (\<lambda>_. Inl ''unknown'')\<rparr>,
     pe_content = None, pe_channel = demo_silence, pe_identity = ah_identity handle, pe_endpoint = ah_advertised_endpoint handle\<rparr>"

theorem agent_life_wf_witness:
  "\<exists>handle d'. demo_started = (Inr handle, d') \<and> (let X = demo_process handle;
      s = agent_view (pe_agent X) (fold (agent_round X) [LocalRound demo_rng 5 (demo_connection [0, 0, 0, 1, 1]), PeerRound demo_rng 6 (demo_connection [9])]
        (started_agent demo_agent_config () () d')) in
      agent_wf (pe_agent X) s \<and> ags_device_id s = identity_device_id demo_hash (ah_identity handle))"
proof -
  have "\<not> isl (fst demo_started)" by code_simp
  then obtain handle d' where run: "demo_started = (Inr handle, d')" by (metis prod.collapse sum.collapse(2))
  have json: "json_ok demo_agent_codec" by (auto simp: json_ok_def demo_agent_codec_def Let_def split: if_splits)
  have X: "token_codec_ok (ae_tokens (pe_agent (demo_process handle)))" "ae_json (pe_agent (demo_process handle)) = demo_agent_codec"
    "ae_store (pe_agent (demo_process handle)) = ah_store handle" by (simp_all add: demo_process_def)
  from agent_life_wf [OF json X run [unfolded demo_started_def] _ demo_identity_env_ok, of
      "[LocalRound demo_rng 5 (demo_connection [0, 0, 0, 1, 1]), PeerRound demo_rng 6 (demo_connection [9])]" "()" "()"] run
  show ?thesis by (simp add: stat_reliable_def Let_def) blast
qed

end
