(* ===== verification/Peer_Link.thy ===== *)
theory Peer_Link
  imports Agent_Props
begin

section \<open>Two agents and a network\<close>

text \<open>
  The calls of a \<open>peer_channel\<close> to one other agent, whose handlers run on what is delivered. The
  network between them may refuse a connection, break a call with an error, lose a message after it was
  accepted for sending, or lose an answer: its script holds the outcome of each call, and an exhausted script
  means that everything is delivered. The Noise handshake is taken to authenticate both ends: the
  server sees the device of the client, and a client that expects another device is told so.
\<close>

text \<open>What goes wrong with a channel, as \<open>secure.rs\<close> reports it.\<close>

datatype channel_fault = IoFault io_error | Unreachable | CipherFault string | MessageFault string

definition channel_error :: "channel_fault \<Rightarrow> transport_error" where
  "channel_error f = (case f of IoFault e \<Rightarrow> Io e | Unreachable \<Rightarrow> AgentUnavailable
     | CipherFault m \<Rightarrow> SecureChannel m | MessageFault m \<Rightarrow> InvalidMessage m)"

datatype link_outcome = Delivers | Drops | Breaks channel_fault

datatype link_reply = ReplyMessage control_response | ReplyPayload bytes

record 'c peer_link =
  pl_server :: "('c, unit) agent"
  pl_inbox :: "link_reply list"
  pl_awaiting :: "('c peer_content_store \<times> string \<times> u64) option"
  pl_script :: "link_outcome list"
  pl_calls :: nat

record 'c link_env =
  le_agent :: agent_env
  le_content :: "'c peer_content_store option"
  le_endpoint :: socket_addr
  le_device :: device_id
  le_client :: device_id
  le_rng :: "nat \<Rightarrow> rng"
  le_now :: "nat \<Rightarrow> u64"

definition next_link :: "'c peer_link \<Rightarrow> link_outcome \<times> 'c peer_link" where
  "next_link n = (case pl_script n of [] \<Rightarrow> (Delivers, n) | out # outs \<Rightarrow> (out, n\<lparr>pl_script := outs\<rparr>))"

definition eof_error :: transport_error where
  "eof_error = Io \<lparr>io_kind = UnexpectedEofKind, io_message = ''failed to fill whole buffer''\<rparr>"

definition link_connect :: "'c link_env \<Rightarrow> socket_addr \<Rightarrow> device_id \<Rightarrow> ('c peer_link, transport_error, unit) op" where
  "link_connect L endpoint expected n = (case next_link n of
     (Breaks f, n1) \<Rightarrow> (Inl (channel_error f), n1)
   | (Drops, n1) \<Rightarrow> (Inl AgentUnavailable, n1)
   | (Delivers, n1) \<Rightarrow>
       if endpoint \<noteq> le_endpoint L then (Inl AgentUnavailable, n1)
       else if expected \<noteq> le_device L then (Inl (PeerIdentityMismatch expected (le_device L)), n1)
       else (Inr (), n1\<lparr>pl_inbox := [], pl_awaiting := None\<rparr>))"

definition reaction_replies :: "'c reaction \<Rightarrow> link_reply list" where
  "reaction_replies reaction = (case reaction of
     Silent \<Rightarrow> []
   | TakesPayload _ _ _ \<Rightarrow> [ReplyMessage ContentReady]
   | Replies response None \<Rightarrow> [ReplyMessage response]
   | Replies response (Some payload) \<Rightarrow> [ReplyMessage response, ReplyPayload payload])"

definition reaction_awaits :: "'c reaction \<Rightarrow> ('c peer_content_store \<times> string \<times> u64) option" where
  "reaction_awaits reaction = (case reaction of TakesPayload content cid sz \<Rightarrow> Some (content, cid, sz) | _ \<Rightarrow> None)"

definition link_write :: "'c link_env \<Rightarrow> remote_request envelope \<Rightarrow> ('c peer_link, transport_error, unit) op" where
  "link_write L envelope n = (case next_link n of
     (Breaks f, n1) \<Rightarrow> (Inl (channel_error f), n1)
   | (Drops, n1) \<Rightarrow> (Inr (), n1)
   | (Delivers, n1) \<Rightarrow>
       (let (reaction, server) = handle_remote (le_agent L) (le_content L) (le_rng L (pl_calls n1)) (le_now L (pl_calls n1))
              (le_client L) (Inr envelope) (pl_server n1)
        in (Inr (), n1\<lparr>pl_server := server, pl_calls := Suc (pl_calls n1),
             pl_inbox := reaction_replies reaction, pl_awaiting := reaction_awaits reaction\<rparr>)))"

definition link_read :: "('c peer_link, transport_error, control_response envelope) op" where
  "link_read n = (case next_link n of
     (Breaks f, n1) \<Rightarrow> (Inl (channel_error f), n1)
   | (Drops, n1) \<Rightarrow> (Inl eof_error, n1)
   | (Delivers, n1) \<Rightarrow> (case pl_inbox n1 of
        ReplyMessage response # rest \<Rightarrow> (Inr (enveloped response), n1\<lparr>pl_inbox := rest\<rparr>)
      | _ \<Rightarrow> (Inl eof_error, n1)))"

definition length_mismatch :: transport_error where
  "length_mismatch = InvalidMessage ''content payload length does not match its header''"

definition link_write_payload :: "bytes \<Rightarrow> ('c peer_link, transport_error, unit) op" where
  "link_write_payload data n = (case next_link n of
     (Breaks f, n1) \<Rightarrow> (Inl (channel_error f), n1\<lparr>pl_awaiting := None\<rparr>)
   | (Drops, n1) \<Rightarrow> (Inr (), n1\<lparr>pl_awaiting := None\<rparr>)
   | (Delivers, n1) \<Rightarrow> (case pl_awaiting n1 of
        None \<Rightarrow> (Inr (), n1)
      | Some (content, cid, sz) \<Rightarrow>
          (let (response, server) = content_put_finish content cid
                (if length data = unat sz then Inr data else Inl length_mismatch) (pl_server n1)
           in (Inr (), n1\<lparr>pl_server := server, pl_inbox := pl_inbox n1 @ [ReplyMessage response], pl_awaiting := None\<rparr>))))"

definition link_read_payload :: "u64 \<Rightarrow> ('c peer_link, transport_error, bytes) op" where
  "link_read_payload sz n = (if sz > max_content_transfer_size then (Inl ContentTooLarge, n) else (case next_link n of
     (Breaks f, n1) \<Rightarrow> (Inl (channel_error f), n1)
   | (Drops, n1) \<Rightarrow> (Inl eof_error, n1)
   | (Delivers, n1) \<Rightarrow> (case pl_inbox n1 of
        ReplyPayload payload # rest \<Rightarrow>
          (if length payload = unat sz then Inr payload else Inl length_mismatch, n1\<lparr>pl_inbox := rest\<rparr>)
      | _ \<Rightarrow> (Inl eof_error, n1))))"

definition link_channel :: "'c link_env \<Rightarrow> 'c peer_link peer_channel" where
  "link_channel L = \<lparr>ch_connect = link_connect L, ch_write = link_write L, ch_read = link_read,
     ch_write_payload = link_write_payload, ch_read_payload = link_read_payload\<rparr>"

lemma link_channel_sel [simp]:
  "ch_connect (link_channel L) = link_connect L" "ch_write (link_channel L) = link_write L"
  "ch_read (link_channel L) = link_read" "ch_write_payload (link_channel L) = link_write_payload"
  "ch_read_payload (link_channel L) = link_read_payload"
  by (simp_all add: link_channel_def)

subsection \<open>One exchange\<close>

lemma next_link_cases:
  assumes "next_link n = (out, n1)"
  shows "n1 = n\<lparr>pl_script := tl (pl_script n)\<rparr> \<and> (pl_script n = [] \<longrightarrow> out = Delivers)"
  using assms by (auto simp: next_link_def split: list.splits)

lemma channel_error_no_refusal [simp]: "\<not> is_refusal (channel_error f)" "\<not> is_refusal eof_error" "\<not> is_refusal AgentUnavailable"
  by (simp_all add: is_refusal_def channel_error_def eof_error_def split: channel_fault.splits)

text \<open>A channel fault, an answer of the server, or silence after it.\<close>

lemma send_request_cases:
  assumes "send_request (link_channel L) (le_endpoint L) (le_device L) request n = (q, n')"
  obtains (unsent) e where "q = Inl e" "\<not> is_refusal e" "pl_server n' = pl_server n" "pl_script n \<noteq> []"
    | (handled) reaction server k where
        "handle_remote (le_agent L) (le_content L) (le_rng L k) (le_now L k) (le_client L) (Inr (enveloped request)) (pl_server n) = (reaction, server)"
        "pl_server n' = server"
        "(\<exists>e. q = Inl e \<and> \<not> is_refusal e \<and> (pl_script n \<noteq> [] \<or> reaction = Silent)) \<or>
         (\<exists>response rest. reaction_replies reaction = ReplyMessage response # rest \<and> q = open_response (enveloped response))"
        "pl_script n = [] \<longrightarrow> pl_script n' = []"
proof -
  obtain o1 n1 where 1: "next_link n = (o1, n1)" by fastforce
  note s1 = next_link_cases [OF 1]
  show thesis
  proof (cases "o1 = Delivers")
    case False
    with 1 assms s1 unsent show thesis
      by (cases o1) (auto simp: send_request_def link_connect_def)
  next
    case True
    let ?n1 = "n1\<lparr>pl_inbox := [], pl_awaiting := None\<rparr>"
    have c: "link_connect L (le_endpoint L) (le_device L) n = (Inr (), ?n1)" using 1 True by (simp add: link_connect_def)
    obtain o2 n2 where 2: "next_link ?n1 = (o2, n2)" by fastforce
    note s2 = next_link_cases [OF 2]
    obtain o3 n3 where 3: "next_link n2 = (o3, n3)" by fastforce
    note s3 = next_link_cases [OF 3]
    show thesis
    proof (cases o2)
      case (Breaks f)
      with c 2 assms s1 s2 unsent show thesis by (cases "pl_script n") (auto simp: send_request_def link_write_def)
    next
      case Drops
      with c 2 3 assms s1 s2 s3 unsent show thesis
        by (cases o3; cases "pl_script n") (auto simp: send_request_def link_write_def read_response_def link_read_def)
    next
      case Delivers
      obtain reaction server where h: "handle_remote (le_agent L) (le_content L) (le_rng L (pl_calls n2)) (le_now L (pl_calls n2))
          (le_client L) (Inr (enveloped request)) (pl_server n2) = (reaction, server)" by fastforce
      let ?n2 = "n2\<lparr>pl_server := server, pl_calls := Suc (pl_calls n2), pl_inbox := reaction_replies reaction,
        pl_awaiting := reaction_awaits reaction\<rparr>"
      have w: "link_write L (enveloped request) ?n1 = (Inr (), ?n2)" using 2 Delivers h by (simp add: link_write_def)
      have run: "read_response (link_channel L) ?n2 = (q, n')" using assms c w by (simp add: send_request_def)
      obtain o4 n4 where 4: "next_link ?n2 = (o4, n4)" by fastforce
      note s4 = next_link_cases [OF 4]
      have sv: "pl_server n2 = pl_server n" using s1 s2 by simp
      from run 4 s1 s2 s4 have n': "pl_server n' = server" "pl_script n = [] \<longrightarrow> pl_script n' = []"
        by (auto simp: read_response_def link_read_def op_bind_def split: prod.splits sum.splits link_outcome.splits list.splits link_reply.splits)
      have "(\<exists>e. q = Inl e \<and> \<not> is_refusal e \<and> (pl_script n \<noteq> [] \<or> reaction = Silent)) \<or>
         (\<exists>response rest. reaction_replies reaction = ReplyMessage response # rest \<and> q = open_response (enveloped response))"
      proof (cases "o4 = Delivers \<and> reaction \<noteq> Silent")
        case True
        then have "\<exists>response rest. reaction_replies reaction = ReplyMessage response # rest"
          by (auto simp: reaction_replies_def split: option.splits reaction.splits)
        then obtain response rest where "reaction_replies reaction = ReplyMessage response # rest" by blast
        with True run 4 s4 show ?thesis by (auto simp: read_response_def link_read_def)
      next
        case False
        with run 4 s1 s2 s4 show ?thesis
          by (cases o4; cases "reaction = Silent"; cases "pl_script n") (auto simp: read_response_def link_read_def reaction_replies_def)
      qed
      with handled [OF h [unfolded sv] n'(1)] n'(2) show thesis by blast
    qed
  qed
qed

end
