(* ===== verification/Peer_Content.thy ===== *)
theory Peer_Content
  imports Peer_Link Local_Content
begin

section \<open>Content on other devices\<close>

text \<open>
  \<open>peer_content.rs\<close>, the client of the peer content protocol, and \<open>kubeweft-filesystem-network\<close>: a
  content store offered to peers and a peer presented as a content store. The remote store keeps the
  contract \<open>content_store\<close> that the filesystem relies on, for whatever store the peer keeps it in
  and whatever the network does. How \<open>ControlResponse\<close> prints itself for debugging is the argument
  \<open>debug\<close>.
\<close>

subsection \<open>Serving a content store\<close>

definition parse_content_id :: "string \<Rightarrow> content_id tr_result" where
  "parse_content_id value = ok_or (content_id_from_str value) ContentIntegrity"

definition map_filesystem_error :: "filesystem_error \<Rightarrow> transport_error" where
  "map_filesystem_error error = (case error of
     ContentUnavailable \<Rightarrow> PeerContentUnavailable
   | NoSpace \<Rightarrow> PeerNoSpace
   | other \<Rightarrow> InvalidMessage (filesystem_error_display other))"

definition peer_get :: "hash_function \<Rightarrow> 'c content_store \<Rightarrow> string \<Rightarrow> ('c, transport_error, bytes) op" where
  "peer_get sha256 ops content_id =
     op_bind (op_lift (parse_content_id content_id)) (\<lambda>cid.
     op_bind (io_err map_filesystem_error (cs_get ops cid)) (\<lambda>bs.
       if \<not> matches sha256 cid bs then op_lift (Inl ContentIntegrity) else op_lift (Inr bs)))"

definition peer_put :: "hash_function \<Rightarrow> 'c content_store \<Rightarrow> string \<Rightarrow> bytes \<Rightarrow> ('c, transport_error, unit) op" where
  "peer_put sha256 ops content_id data =
     op_bind (op_lift (parse_content_id content_id)) (\<lambda>expected.
       if \<not> matches sha256 expected data then op_lift (Inl ContentIntegrity)
       else op_bind (io_err map_filesystem_error (cs_put ops data)) (\<lambda>actual.
         if actual \<noteq> expected then op_lift (Inl ContentIntegrity) else op_lift (Inr ())))"

definition peer_exists :: "hash_function \<Rightarrow> 'c content_store \<Rightarrow> string \<Rightarrow> ('c, transport_error, bool) op" where
  "peer_exists sha256 ops content_id =
     op_bind (op_lift (parse_content_id content_id)) (\<lambda>cid.
     op_bind (io_err map_filesystem_error (cs_exists ops cid)) (\<lambda>there.
       if \<not> there then op_lift (Inr False)
       else (\<lambda>c. case cs_get ops cid c of
           (Inr bs, c1) \<Rightarrow> (Inr (matches sha256 cid bs), c1)
         | (Inl ContentUnavailable, c1) \<Rightarrow> (Inr False, c1)
         | (Inl error, c1) \<Rightarrow> (Inl (map_filesystem_error error), c1))))"

definition filesystem_peer_content_store :: "hash_function \<Rightarrow> 'c content_store \<Rightarrow> 'c peer_content_store" where
  "filesystem_peer_content_store sha256 ops =
     \<lparr>pcs_get = peer_get sha256 ops, pcs_put = peer_put sha256 ops, pcs_exists = peer_exists sha256 ops\<rparr>"

subsection \<open>The client\<close>

type_synonym ('d, 'n, 'a) client_op = "('d, 'n, 'a) agent_op"

definition client_connect :: "agent_env \<Rightarrow> 'n peer_channel \<Rightarrow> device_id \<Rightarrow> ('d, 'n, peer_authorization) client_op" where
  "client_connect A C target =
     op_bind (on_disk (agent_load A)) (\<lambda>state.
     op_bind (op_lift (ok_or (ags_cluster state) NotInCluster)) (\<lambda>cluster.
     op_bind (op_lift (ok_or (find (\<lambda>member. mb_device_id (stm_member member) = target) (scl_members cluster)) Unauthorized)) (\<lambda>member.
     op_bind (on_net (ch_connect C (mb_endpoint (stm_member member)) (mb_device_id (stm_member member)))) (\<lambda>_.
     op_lift (Inr (own_authorization state cluster))))))"

definition unexpected :: "(control_response \<Rightarrow> string) \<Rightarrow> control_response \<Rightarrow> 'a tr_result" where
  "unexpected debug response = Inl (InvalidMessage (''unexpected peer content response: '' @ debug response))"

definition client_exists ::
    "agent_env \<Rightarrow> 'n peer_channel \<Rightarrow> (control_response \<Rightarrow> string) \<Rightarrow> device_id \<Rightarrow> string \<Rightarrow> ('d, 'n, bool) client_op" where
  "client_exists A C debug target content_id =
     op_bind (client_connect A C target) (\<lambda>authorization.
     op_bind (on_net (ch_write C (enveloped (ContentExists authorization content_id)))) (\<lambda>_.
     op_bind (on_net (read_response C)) (\<lambda>response.
     op_lift (case response of ContentExistsReply there \<Rightarrow> Inr there | response \<Rightarrow> unexpected debug response))))"

definition client_get ::
    "agent_env \<Rightarrow> 'n peer_channel \<Rightarrow> (control_response \<Rightarrow> string) \<Rightarrow> device_id \<Rightarrow> string \<Rightarrow> ('d, 'n, bytes) client_op" where
  "client_get A C debug target content_id =
     op_bind (client_connect A C target) (\<lambda>authorization.
     op_bind (on_net (ch_write C (enveloped (ContentGet authorization content_id)))) (\<lambda>_.
     op_bind (on_net (read_response C)) (\<lambda>response. case response of
       ContentAvailable sz \<Rightarrow> on_net (ch_read_payload C sz)
     | response \<Rightarrow> op_lift (unexpected debug response))))"

definition client_put ::
    "agent_env \<Rightarrow> 'n peer_channel \<Rightarrow> (control_response \<Rightarrow> string) \<Rightarrow> device_id \<Rightarrow> string \<Rightarrow> bytes \<Rightarrow> ('d, 'n, unit) client_op" where
  "client_put A C debug target content_id data =
     op_bind (op_lift (ok_or (u64_try_from (length data)) ContentTooLarge)) (\<lambda>sz.
       if sz > max_content_transfer_size then op_lift (Inl ContentTooLarge)
       else op_bind (client_connect A C target) (\<lambda>authorization.
         op_bind (on_net (ch_write C (enveloped (ContentPut authorization content_id sz)))) (\<lambda>_.
         op_bind (on_net (read_response C)) (\<lambda>response. case response of
           ContentReady \<Rightarrow>
             op_bind (on_net (ch_write_payload C data)) (\<lambda>_.
             op_bind (on_net (read_response C)) (\<lambda>response.
             op_lift (case response of ContentStored \<Rightarrow> Inr () | response \<Rightarrow> unexpected debug response)))
         | response \<Rightarrow> op_lift (unexpected debug response)))))"

subsection \<open>A peer as a content store\<close>

definition map_transport_error :: "transport_error \<Rightarrow> filesystem_error" where
  "map_transport_error error = (case error of
     PeerContentUnavailable \<Rightarrow> ContentUnavailable
   | ContentIntegrity \<Rightarrow> ContentUnavailable
   | AgentUnavailable \<Rightarrow> ContentUnavailable
   | PeerNoSpace \<Rightarrow> NoSpace
   | Remote code message \<Rightarrow>
       if code \<in> {''content_unavailable'', ''content_integrity'', ''agent_unavailable''} then ContentUnavailable
       else if code = ''no_space'' then NoSpace
       else Storage (transport_error_display error)
   | other \<Rightarrow> Storage (transport_error_display other))"

definition remote_put ::
    "hash_function \<Rightarrow> agent_env \<Rightarrow> 'n peer_channel \<Rightarrow> (control_response \<Rightarrow> string) \<Rightarrow> device_id \<Rightarrow> bytes \<Rightarrow>
     (('d, 'n) agent, filesystem_error, content_id) op" where
  "remote_put sha256 A C debug target data = (let cid = for_bytes sha256 data in
     op_bind (io_err map_transport_error (client_put A C debug target (content_id_str cid) data)) (\<lambda>_. op_lift (Inr cid)))"

definition remote_get ::
    "hash_function \<Rightarrow> agent_env \<Rightarrow> 'n peer_channel \<Rightarrow> (control_response \<Rightarrow> string) \<Rightarrow> device_id \<Rightarrow> content_id \<Rightarrow>
     (('d, 'n) agent, filesystem_error, bytes) op" where
  "remote_get sha256 A C debug target cid =
     op_bind (io_err map_transport_error (client_get A C debug target (content_id_str cid))) (\<lambda>bs.
       if \<not> matches sha256 cid bs then op_lift (Inl ContentUnavailable) else op_lift (Inr bs))"

definition remote_exists ::
    "agent_env \<Rightarrow> 'n peer_channel \<Rightarrow> (control_response \<Rightarrow> string) \<Rightarrow> device_id \<Rightarrow> content_id \<Rightarrow>
     (('d, 'n) agent, filesystem_error, bool) op" where
  "remote_exists A C debug target cid = io_err map_transport_error (client_exists A C debug target (content_id_str cid))"

definition remote_delete :: "content_id \<Rightarrow> (('d, 'n) agent, filesystem_error, unit) op" where
  "remote_delete cid = op_lift (Inl (Storage ''remote content deletion is reserved for a future garbage collector''))"

definition remote_content_store ::
    "hash_function \<Rightarrow> agent_env \<Rightarrow> 'n peer_channel \<Rightarrow> (control_response \<Rightarrow> string) \<Rightarrow> device_id \<Rightarrow> ('d, 'n) agent content_store" where
  "remote_content_store sha256 A C debug target =
     \<lparr>cs_put = remote_put sha256 A C debug target, cs_get = remote_get sha256 A C debug target,
      cs_exists = remote_exists A C debug target, cs_delete = remote_delete\<rparr>"

text \<open>The link to a device that serves its store \<open>ops\<close>.\<close>

definition serving :: "hash_function \<Rightarrow> 'c content_store \<Rightarrow> 'c link_env \<Rightarrow> 'c link_env" where
  "serving sha256 ops L = L\<lparr>le_content := Some (filesystem_peer_content_store sha256 ops)\<rparr>"

lemma serving_sel [simp]: "le_content (serving sha256 ops L) = Some (filesystem_peer_content_store sha256 ops)"
  by (simp add: serving_def)

lemma fps_sel [simp]:
  "pcs_get (filesystem_peer_content_store sha256 ops) = peer_get sha256 ops"
  "pcs_put (filesystem_peer_content_store sha256 ops) = peer_put sha256 ops"
  "pcs_exists (filesystem_peer_content_store sha256 ops) = peer_exists sha256 ops"
  by (simp_all add: filesystem_peer_content_store_def)

subsection \<open>A request and its answer\<close>

lemma on_disk_net: "on_disk m w = (r, w') \<Longrightarrow> ag_net w' = ag_net w"
  by (auto simp: on_disk_def split: prod.splits)

lemma on_net_cases:
  assumes "on_net m w = (r, w')"
  obtains n where "m (ag_net w) = (r, n)" "w' = w\<lparr>ag_net := n\<rparr>"
  using assms by (auto simp: on_net_def split: prod.splits)

lemma link_connect_server: "link_connect L e d n = (r, n') \<Longrightarrow> pl_server n' = pl_server n"
  by (auto simp: link_connect_def dest: next_link_cases split: prod.splits link_outcome.splits if_splits)

lemma link_connect_ok: "link_connect L e d n = (Inr u, n') \<Longrightarrow> pl_inbox n' = [] \<and> pl_awaiting n' = None"
  by (auto simp: link_connect_def split: prod.splits link_outcome.splits if_splits)

lemma client_connect_net:
  assumes "client_connect A (link_channel L) target w = (r, w')"
  shows "pl_server (ag_net w') = pl_server (ag_net w) \<and> (\<forall>a. r = Inr a \<longrightarrow> pl_inbox (ag_net w') = [] \<and> pl_awaiting (ag_net w') = None)"
proof -
  obtain q w1 where load: "on_disk (agent_load A) w = (q, w1)" by fastforce
  note net = on_disk_net [OF load]
  show ?thesis
  proof (cases "\<exists>s c m. q = Inr s \<and> ags_cluster s = Some c \<and> find (\<lambda>m. mb_device_id (stm_member m) = target) (scl_members c) = Some m")
    case True
    then obtain s c m where *: "q = Inr s" "ags_cluster s = Some c" "find (\<lambda>m. mb_device_id (stm_member m) = target) (scl_members c) = Some m"
      by blast
    obtain q2 n where conn: "link_connect L (mb_endpoint (stm_member m)) (mb_device_id (stm_member m)) (ag_net w1) = (q2, n)" by fastforce
    with assms load * have w': "w' = w1\<lparr>ag_net := n\<rparr>" "r = (case q2 of Inl e \<Rightarrow> Inl e | Inr _ \<Rightarrow> Inr (own_authorization s c))"
      by (cases q2; auto simp: client_connect_def on_net_def)+
    with link_connect_server [OF conn] link_connect_ok [of L _ _ "ag_net w1" _ n] conn net show ?thesis
      by (cases q2) auto
  next
    case False
    have "w' = w1 \<and> (\<exists>e. r = Inl e)"
    proof (cases q)
      case (Inr s)
      with False assms load show ?thesis
        by (cases "ags_cluster s"; cases "find (\<lambda>m. mb_device_id (stm_member m) = target) (scl_members (the (ags_cluster s)))")
           (auto simp: client_connect_def)
    qed (use assms load in \<open>auto simp: client_connect_def\<close>)
    with net show ?thesis by auto
  qed
qed

lemma link_write_cases:
  assumes "link_write L envelope n = (r, n')"
  obtains (undelivered) "pl_server n' = pl_server n" "pl_inbox n' = pl_inbox n" "pl_awaiting n' = pl_awaiting n"
    | (delivered) reaction k where "handle_remote (le_agent L) (le_content L) (le_rng L k) (le_now L k) (le_client L) (Inr envelope)
          (pl_server n) = (reaction, pl_server n')"
        "pl_inbox n' = reaction_replies reaction" "pl_awaiting n' = reaction_awaits reaction"
proof -
  obtain out n1 where 1: "next_link n = (out, n1)" by fastforce
  note n1 = next_link_cases [OF 1]
  show thesis
  proof (cases out)
    case Delivers
    obtain reaction server where h: "handle_remote (le_agent L) (le_content L) (le_rng L (pl_calls n1)) (le_now L (pl_calls n1))
        (le_client L) (Inr envelope) (pl_server n1) = (reaction, server)" by fastforce
    with assms 1 Delivers n1 show thesis by (intro delivered) (auto simp: link_write_def)
  qed (use assms 1 n1 undelivered in \<open>auto simp: link_write_def\<close>)
qed

lemma read_response_link:
  assumes "read_response (link_channel L) n = (r, n')"
  shows "pl_server n' = pl_server n \<and> pl_awaiting n' = pl_awaiting n \<and>
    (\<forall>response. r = Inr response \<longrightarrow> (\<exists>rest. pl_inbox n = ReplyMessage response # rest \<and> pl_inbox n' = rest))"
proof -
  obtain out n1 where 1: "next_link n = (out, n1)" by fastforce
  note n1 = next_link_cases [OF 1]
  show ?thesis
  proof (cases "out = Delivers \<and> (\<exists>response rest. pl_inbox n = ReplyMessage response # rest)")
    case True
    then obtain response rest where "out = Delivers" "pl_inbox n = ReplyMessage response # rest" by blast
    with assms 1 n1 show ?thesis
      by (cases response) (auto simp: read_response_def link_read_def)
  next
    case False
    have "(\<exists>e. r = Inl e) \<and> n' = n1"
      using assms 1 n1 False
      by (auto simp: read_response_def link_read_def op_bind_def split: link_outcome.splits list.splits link_reply.splits)
    with n1 show ?thesis by auto
  qed
qed

text \<open>Connecting, sending a request and reading the first answer, as all three calls begin.\<close>

lemma exchange_cases:
  assumes "op_bind (client_connect A (link_channel L) target) (\<lambda>a. op_bind (on_net (ch_write (link_channel L) (enveloped (request a))))
      (\<lambda>_. op_bind (on_net (read_response (link_channel L))) (continue a))) w = (r, w')"
  obtains (untouched) e where "r = Inl e" "pl_server (ag_net w') = pl_server (ag_net w)"
    | (unanswered) e a k reaction where "r = Inl e" "handle_remote (le_agent L) (le_content L) (le_rng L k) (le_now L k) (le_client L)
        (Inr (enveloped (request a))) (pl_server (ag_net w)) = (reaction, pl_server (ag_net w'))"
    | (answered) a k reaction w1 response rest where "handle_remote (le_agent L) (le_content L) (le_rng L k) (le_now L k) (le_client L)
        (Inr (enveloped (request a))) (pl_server (ag_net w)) = (reaction, pl_server (ag_net w1))"
        "reaction_replies reaction = ReplyMessage response # rest" "pl_inbox (ag_net w1) = rest"
        "pl_awaiting (ag_net w1) = reaction_awaits reaction" "continue a response w1 = (r, w')"
  using assms
proof (cases rule: op_bind_cases)
  case (err e)
  with client_connect_net untouched show thesis by blast
next
  case (ok a w1)
  note conn = client_connect_net [OF ok(1)]
  obtain q2 w2 where 2: "on_net (ch_write (link_channel L) (enveloped (request a))) w1 = (q2, w2)" by fastforce
  obtain n2 where n2: "link_write L (enveloped (request a)) (ag_net w1) = (q2, n2)" "w2 = w1\<lparr>ag_net := n2\<rparr>"
    using 2 by (auto elim: on_net_cases)
  obtain q3 w3 where 3: "on_net (read_response (link_channel L)) w2 = (q3, w3)" by fastforce
  obtain n3 where n3: "read_response (link_channel L) n2 = (q3, n3)" "w3 = w2\<lparr>ag_net := n3\<rparr>"
    using 3 n2(2) by (auto elim: on_net_cases)
  note rd = read_response_link [OF n3(1)]
  from n2(1) show thesis
  proof (cases rule: link_write_cases)
    case undelivered
    with conn rd have "\<And>response. q3 \<noteq> Inr response" by auto
    then obtain e where "q3 = Inl e" by (cases q3) auto
    with ok(2) 2 3 have "\<exists>e. r = Inl e \<and> (w' = w2 \<or> w' = w3)" by (cases q2) auto
    moreover have "pl_server (ag_net w2) = pl_server (ag_net w)" "pl_server (ag_net w3) = pl_server (ag_net w)"
      using undelivered conn rd n2(2) n3(2) by simp_all
    ultimately show thesis using untouched by metis
  next
    case (delivered reaction k)
    have h2: "pl_server (ag_net w2) = pl_server n2" "pl_server (ag_net w3) = pl_server n2" using n2(2) n3(2) rd by simp_all
    show thesis
    proof (cases "\<exists>u response. q2 = Inr u \<and> q3 = Inr response")
      case True
      then obtain u response where "q2 = Inr u" "q3 = Inr response" by blast
      with rd obtain rest where rest: "pl_inbox n2 = ReplyMessage response # rest" "pl_inbox n3 = rest" by blast
      show thesis
      proof (rule answered)
        show "handle_remote (le_agent L) (le_content L) (le_rng L k) (le_now L k) (le_client L) (Inr (enveloped (request a)))
            (pl_server (ag_net w)) = (reaction, pl_server (ag_net w3))" using delivered(1) conn h2 by simp
        show "reaction_replies reaction = ReplyMessage response # rest" using delivered(2) rest by simp
        show "pl_inbox (ag_net w3) = rest" using rest n3(2) by simp
        show "pl_awaiting (ag_net w3) = reaction_awaits reaction" using delivered(3) rd n3(2) by simp
        show "continue a response w3 = (r, w')" using ok(2) 2 3 \<open>q2 = Inr u\<close> \<open>q3 = Inr response\<close> by simp
      qed
    next
      case False
      with ok(2) 2 3 have "\<exists>e. r = Inl e \<and> (w' = w2 \<or> w' = w3)" by (cases q2; cases q3) auto
      with unanswered [of _ k a reaction] delivered(1) conn h2 show thesis by metis
    qed
  qed
qed

subsection \<open>The contract holds across the network\<close>

definition served_blob :: "('c \<Rightarrow> content_id \<Rightarrow> bytes option) \<Rightarrow> ('d, 'c peer_link) agent \<Rightarrow> content_id \<Rightarrow> bytes option" where
  "served_blob blob w = blob (ag_content (pl_server (ag_net w)))"

text \<open>An identifier made by the program parses to itself, if it parses.\<close>

lemma digest_id_parse:
  assumes "digest_id x" "content_id_from_str (content_id_str x) = Some y"
  shows "y = x"
proof -
  obtain bs where bs: "x = ContentId (''sha256:'' @ hex_bytes bs)" using assms(1) by (auto simp: digest_id_def)
  have "map to_ascii_lower (hex_bytes bs) = hex_bytes bs"
    by (rule map_idI) (auto dest: hex_bytes_digits hex_digits_classes(3))
  moreover have "to_ascii_lowercase ''sha256:'' = ''sha256:''" by code_simp
  ultimately have "to_ascii_lowercase (''sha256:'' @ hex_bytes bs) = ''sha256:'' @ hex_bytes bs"
    unfolding to_ascii_lowercase_def by simp
  with assms(2) bs show ?thesis
    by (simp add: content_id_from_str_def split: option.splits if_splits)
qed

lemma on_content_cases:
  assumes "on_content m w = (r, w')"
  obtains c where "m (ag_content w) = (r, c)" "w' = w\<lparr>ag_content := c\<rparr>"
  using assms by (auto simp: on_content_def split: prod.splits)

lemma on_disk_content: "on_disk m w = (r, w') \<Longrightarrow> ag_content w' = ag_content w"
  by (auto simp: on_disk_def split: prod.splits)

lemma on_presence_content: "on_presence m w = (r, w') \<Longrightarrow> ag_content w' = ag_content w"
  by (auto simp: on_presence_def split: prod.splits)

lemma authorize_and_observe_content: "authorize_and_observe A now a peer w = (r, w') \<Longrightarrow> ag_content w' = ag_content w"
  by (auto simp: authorize_and_observe_def elim!: op_bind_cases dest!: on_disk_content on_presence_content)

lemma drop_response_content: "drop_response request response w = (b, w') \<Longrightarrow> ag_content w' = ag_content w"
  by (auto simp: drop_response_def split: prod.splits remote_request.splits control_response.splits nat.splits)

lemma error_response_distinct [simp]:
  "error_response e \<noteq> ContentAvailable sz" "error_response e \<noteq> ContentExistsReply there"
  "error_response e \<noteq> ContentReady" "error_response e \<noteq> ContentStored"
  by (cases e; simp add: error_response_def)+

lemma put_single_reply:
  assumes "handle_remote A P rng now peer (Inr (enveloped (ContentPut a s sz))) w = (reaction, w')"
    "reaction_replies reaction = reply # rest"
  shows "rest = []"
  using assms
  by (cases "content_put_prepare A P now a sz peer w"; cases "fst (content_put_prepare A P now a sz peer w)")
     (auto simp: handle_remote_def reaction_replies_def)

lemma finish_stored:
  assumes "content_put_finish content s payload sv = (response, sv')"
  obtains (unread) e where "payload = Inl e" "response \<noteq> ContentStored" "sv' = sv"
    | (put) data r c where "payload = Inr data" "pcs_put content s data (ag_content sv) = (r, c)" "ag_content sv' = c"
        "response = ContentStored \<longleftrightarrow> (\<exists>u. r = Inr u)"
  using assms
  by (cases payload)
     (auto simp: content_put_finish_def on_content_def split: prod.splits sum.splits)

locale peer_served = content_store
begin

lemma peer_get_frame: "peer_get sha256 ops s c = (r, c') \<Longrightarrow> blob c' = blob c"
  by (auto simp: peer_get_def elim!: op_bind_cases io_err_cases dest!: get_frame split: if_splits)

lemma peer_get_ok:
  assumes "peer_get sha256 ops s c = (Inr b, c')"
  shows "\<exists>cid. content_id_from_str s = Some cid \<and> (known cid \<longrightarrow> blob c cid = Some b)"
  using assms by (auto simp: peer_get_def parse_content_id_def op_bind_eq_Inr split: if_splits dest!: get_ok)

lemma peer_exists_frame: "peer_exists sha256 ops s c = (r, c') \<Longrightarrow> blob c' = blob c"
  unfolding peer_exists_def
  by (auto elim!: op_bind_cases io_err_cases dest!: exists_frame get_frame
      split: if_splits prod.splits sum.splits filesystem_error.splits)

lemma peer_exists_ok:
  assumes "peer_exists sha256 ops s c = (Inr True, c')"
  shows "\<exists>cid. content_id_from_str s = Some cid \<and> (known cid \<longrightarrow> blob c cid \<noteq> None)"
proof -
  from assms obtain cid c1 there where *: "content_id_from_str s = Some cid" "cs_exists ops cid c = (Inr there, c1)"
    "(if \<not> there then op_lift (Inr False) else (\<lambda>c. case cs_get ops cid c of
           (Inr bs, c1) \<Rightarrow> (Inr (matches sha256 cid bs), c1)
         | (Inl ContentUnavailable, c1) \<Rightarrow> (Inr False, c1)
         | (Inl error, c1) \<Rightarrow> (Inl (map_filesystem_error error), c1))) c1 = (Inr True, c')"
    unfolding peer_exists_def parse_content_id_def op_bind_eq_Inr op_lift_simps by auto
  then have there by (cases there) simp_all
  with * exists_ok show ?thesis by auto
qed

lemma peer_put_ok:
  assumes "peer_put sha256 ops s data c = (Inr u, c')"
  shows "\<exists>b. blob c' = (blob c)(for_bytes sha256 data \<mapsto> b) \<and> matches sha256 (for_bytes sha256 data) b"
  using assms put_ok by (fastforce simp: peer_put_def op_bind_eq_Inr split: if_splits)

lemma peer_put_frame:
  assumes "peer_put sha256 ops s data c = (r, c')" "x \<noteq> for_bytes sha256 data"
  shows "blob c' x = blob c x"
proof -
  obtain q c1 where put: "cs_put ops data c = (q, c1)" by fastforce
  have "blob c1 x = blob c x" using put put_err [of data c _ c1 x] put_ok [of data c _ c1] assms(2) by (cases q) auto
  moreover have "c' = c \<or> c' = c1"
    using assms(1) put
    by (auto simp: peer_put_def elim!: op_bind_cases io_err_cases split: if_splits)
  ultimately show ?thesis by auto
qed

lemma dispatch_content:
  assumes "dispatch_remote A (Some (filesystem_peer_content_store sha256 ops)) rng now request peer w = (r, w')"
  shows "blob (ag_content w') = blob (ag_content w)"
  using assms
  by (cases request)
     (auto simp: dispatch_remote_def elim!: op_bind_cases on_content_cases
       dest!: on_disk_content authorize_and_observe_content peer_exists_frame peer_get_frame split: if_splits)

lemma handle_content:
  assumes "handle_remote A (Some (filesystem_peer_content_store sha256 ops)) rng now peer incoming w = (reaction, w')"
  shows "blob (ag_content w') = blob (ag_content w)"
proof -
  have prepare: "blob (ag_content w1) = blob (ag_content w)"
    if "content_put_prepare A (Some (filesystem_peer_content_store sha256 ops)) now a sz peer w = (q, w1)" for a sz q w1
    using that by (auto simp: content_put_prepare_def elim!: op_bind_cases dest!: authorize_and_observe_content split: if_splits)
  show ?thesis
    using assms
    by (auto simp: handle_remote_def Let_def split: sum.splits if_splits remote_request.splits prod.splits
        dest!: prepare dispatch_content drop_response_content)
qed

text \<open>What the first answer to each request says about the store.\<close>

lemma get_reply:
  assumes "handle_remote A (Some (filesystem_peer_content_store sha256 ops)) rng now peer (Inr (enveloped (ContentGet a s))) w = (reaction, w')"
    and "reaction_replies reaction = ReplyMessage (ContentAvailable sz) # rest"
  shows "\<exists>b cid. rest = [ReplyPayload b] \<and> content_id_from_str s = Some cid \<and> (known cid \<longrightarrow> blob (ag_content w) cid = Some b)"
proof -
  let ?P = "Some (filesystem_peer_content_store sha256 ops)"
  obtain q w1 where disp: "dispatch_remote A ?P rng now (ContentGet a s) peer w = (q, w1)" by fastforce
  have "\<exists>response payload. q = Inr (response, payload) \<and> reaction = Replies response payload"
    using assms disp
    by (cases q) (auto simp: handle_remote_def drop_response_def reaction_replies_def split: prod.splits)
  with assms(2) obtain b where q: "q = Inr (ContentAvailable sz, Some b)" "rest = [ReplyPayload b]" "reaction = Replies (ContentAvailable sz) (Some b)"
    using disp by (auto simp: reaction_replies_def dispatch_remote_def op_bind_eq_Inr split: option.splits if_splits)
  with disp obtain w2 w3 where "authorize_and_observe A now a peer w = (Inr (), w2)" "on_content (peer_get sha256 ops s) w2 = (Inr b, w3)"
    by (auto simp: dispatch_remote_def op_bind_eq_Inr split: if_splits)
  with authorize_and_observe_content peer_get_ok q(2) show ?thesis by (fastforce elim!: on_content_cases)
qed

lemma exists_reply:
  assumes "handle_remote A (Some (filesystem_peer_content_store sha256 ops)) rng now peer (Inr (enveloped (ContentExists a s))) w = (reaction, w')"
    and "reaction_replies reaction = ReplyMessage (ContentExistsReply True) # rest"
  shows "\<exists>cid. content_id_from_str s = Some cid \<and> (known cid \<longrightarrow> blob (ag_content w) cid \<noteq> None)"
proof -
  let ?P = "Some (filesystem_peer_content_store sha256 ops)"
  obtain q w1 where disp: "dispatch_remote A ?P rng now (ContentExists a s) peer w = (q, w1)" by fastforce
  have "\<exists>response payload. q = Inr (response, payload) \<and> reaction = Replies response payload"
    using assms disp
    by (cases q) (auto simp: handle_remote_def drop_response_def reaction_replies_def split: prod.splits)
  with assms(2) have "\<exists>payload. q = Inr (ContentExistsReply True, payload)"
    by (auto simp: reaction_replies_def split: option.splits)
  with disp obtain w2 w3 where "authorize_and_observe A now a peer w = (Inr (), w2)" "on_content (peer_exists sha256 ops s) w2 = (Inr True, w3)"
    by (auto simp: dispatch_remote_def op_bind_eq_Inr)
  with authorize_and_observe_content peer_exists_ok show ?thesis by (fastforce elim!: on_content_cases)
qed

lemma put_awaits:
  assumes "handle_remote A (Some (filesystem_peer_content_store sha256 ops)) rng now peer (Inr (enveloped (ContentPut a s sz))) w = (reaction, w')"
    and "reaction_awaits reaction = Some (content, t, sz')"
  shows "content = filesystem_peer_content_store sha256 ops \<and> t = s"
proof -
  obtain q w1 where prep: "content_put_prepare A (Some (filesystem_peer_content_store sha256 ops)) now a sz peer w = (q, w1)" by fastforce
  show ?thesis
  proof (cases q)
    case (Inl e)
    with prep assms show ?thesis by (auto simp: handle_remote_def reaction_awaits_def)
  next
    case (Inr c)
    with prep assms have "c = content" "t = s" by (auto simp: handle_remote_def reaction_awaits_def)
    with Inr prep show ?thesis by (auto simp: content_put_prepare_def op_bind_eq_Inr split: if_splits)
  qed
qed

text \<open>The calls of the client on a store that is served so.\<close>

lemma client_get_law:
  assumes "client_get A (link_channel (serving sha256 ops L)) debug target s w = (r, w')"
  shows "served_blob blob w' = served_blob blob w \<and>
    (\<forall>b. r = Inr b \<longrightarrow> (\<exists>cid. content_id_from_str s = Some cid \<and> (known cid \<longrightarrow> served_blob blob w cid = Some b)))"
  using assms unfolding client_get_def
proof (cases rule: exchange_cases)
  case (untouched e)
  then show ?thesis by (simp add: served_blob_def)
next
  case (unanswered e a k reaction)
  then show ?thesis using handle_content by (simp add: served_blob_def)
next
  case (answered a k reaction w1 response rest)
  have frame: "served_blob blob w1 = served_blob blob w" using answered(1) handle_content by (simp add: served_blob_def)
  show ?thesis
  proof (cases "\<exists>sz. response = ContentAvailable sz")
    case True
    then obtain sz where response: "response = ContentAvailable sz" by blast
    obtain n where rp: "link_read_payload sz (ag_net w1) = (r, n)" "w' = w1\<lparr>ag_net := n\<rparr>"
      using answered(5) response by (auto elim: on_net_cases)
    have "pl_server n = pl_server (ag_net w1)" and b: "\<And>b. r = Inr b \<Longrightarrow> \<exists>tail. pl_inbox (ag_net w1) = ReplyPayload b # tail"
      using rp(1) by (auto simp: link_read_payload_def dest: next_link_cases
          split: if_splits prod.splits link_outcome.splits list.splits link_reply.splits)
    moreover from get_reply [OF answered(1) [unfolded serving_sel] answered(2) [unfolded response]] obtain c cid where
      "rest = [ReplyPayload c]" "content_id_from_str s = Some cid" "known cid \<longrightarrow> served_blob blob w cid = Some c"
      by (auto simp: served_blob_def)
    ultimately show ?thesis using frame rp(2) answered(3) by (auto simp: served_blob_def)
  next
    case False
    with answered(5) have "op_lift (unexpected debug response) w1 = (r, w')" by (cases response) simp_all
    with frame show ?thesis by (auto simp: unexpected_def)
  qed
qed

lemma client_exists_law:
  assumes "client_exists A (link_channel (serving sha256 ops L)) debug target s w = (r, w')"
  shows "served_blob blob w' = served_blob blob w \<and>
    (r = Inr True \<longrightarrow> (\<exists>cid. content_id_from_str s = Some cid \<and> (known cid \<longrightarrow> served_blob blob w cid \<noteq> None)))"
  using assms unfolding client_exists_def
proof (cases rule: exchange_cases)
  case (untouched e)
  then show ?thesis by (simp add: served_blob_def)
next
  case (unanswered e a k reaction)
  then show ?thesis using handle_content by (simp add: served_blob_def)
next
  case (answered a k reaction w1 response rest)
  have "served_blob blob w1 = served_blob blob w" using answered(1) handle_content by (simp add: served_blob_def)
  moreover have "w' = w1" "r = Inr True \<longrightarrow> response = ContentExistsReply True"
    using answered(5) by (cases response; auto simp: unexpected_def)+
  ultimately show ?thesis
    using exists_reply [OF answered(1) [unfolded serving_sel], of rest] answered(2) by (auto simp: served_blob_def)
qed

text \<open>Sending the payload: the store takes it, or it is untouched but for the identifier of the data.\<close>

lemma write_payload_law:
  assumes "link_write_payload data n = (q, n')" "pl_inbox n = []"
    and "\<And>content t sz. pl_awaiting n = Some (content, t, sz) \<Longrightarrow> content = filesystem_peer_content_store sha256 ops \<and> t = s"
  shows "(\<forall>x. x \<noteq> for_bytes sha256 data \<longrightarrow> blob (ag_content (pl_server n')) x = blob (ag_content (pl_server n)) x) \<and>
    (\<forall>rest. pl_inbox n' = ReplyMessage ContentStored # rest \<longrightarrow> (\<exists>b. blob (ag_content (pl_server n')) =
      (blob (ag_content (pl_server n)))(for_bytes sha256 data \<mapsto> b) \<and> matches sha256 (for_bytes sha256 data) b))"
proof -
  obtain out n1 where 1: "next_link n = (out, n1)" by fastforce
  note n1 = next_link_cases [OF 1]
  show ?thesis
  proof (cases "out = Delivers \<and> pl_awaiting n \<noteq> None")
    case False
    then have "pl_server n' = pl_server n" "pl_inbox n' = []"
      using assms(1,2) 1 n1 by (cases out; cases "pl_awaiting n"; auto simp: link_write_payload_def)+
    then show ?thesis by simp
  next
    case True
    then obtain content t sz where aw: "pl_awaiting n = Some (content, t, sz)" by auto
    then have content: "content = filesystem_peer_content_store sha256 ops" "t = s" using assms(3) by blast+
    let ?payload = "if length data = unat sz then Inr data else Inl length_mismatch"
    obtain response sv where fin: "content_put_finish content t ?payload (pl_server n) = (response, sv)" by fastforce
    have n': "pl_server n' = sv" "pl_inbox n' = [ReplyMessage response]"
      using assms(1,2) 1 n1 True aw fin by (auto simp: link_write_payload_def)
    from fin show ?thesis
    proof (cases rule: finish_stored)
      case (unread e)
      with n' show ?thesis by auto
    next
      case (put data' r c)
      then have put': "peer_put sha256 ops s data (ag_content (pl_server n)) = (r, c)" "data' = data"
        using content by (simp_all split: if_splits)
      with put n' peer_put_frame [OF put'(1)] peer_put_ok [of s data _ _ c] show ?thesis by (cases r) auto
    qed
  qed
qed

lemma client_put_law:
  assumes "client_put A (link_channel (serving sha256 ops L)) debug target s data w = (r, w')"
  shows "(\<forall>x. x \<noteq> for_bytes sha256 data \<longrightarrow> served_blob blob w' x = served_blob blob w x) \<and>
    (r = Inr () \<longrightarrow> (\<exists>b. served_blob blob w' = (served_blob blob w)(for_bytes sha256 data \<mapsto> b) \<and>
      matches sha256 (for_bytes sha256 data) b))"
proof (cases "\<exists>sz. u64_try_from (length data) = Some sz \<and> \<not> sz > max_content_transfer_size")
  case False
  with assms show ?thesis by (cases "u64_try_from (length data)") (auto simp: client_put_def)
next
  case True
  then obtain sz where sz: "u64_try_from (length data) = Some sz" "\<not> sz > max_content_transfer_size" by blast
  let ?C = "link_channel (serving sha256 ops L)"
  have run: "op_bind (client_connect A ?C target) (\<lambda>a. op_bind (on_net (ch_write ?C (enveloped (ContentPut a s sz)))) (\<lambda>_.
      op_bind (on_net (read_response ?C)) (\<lambda>response. case response of
           ContentReady \<Rightarrow>
             op_bind (on_net (ch_write_payload ?C data)) (\<lambda>_.
             op_bind (on_net (read_response ?C)) (\<lambda>response.
             op_lift (case response of ContentStored \<Rightarrow> Inr () | response \<Rightarrow> unexpected debug response)))
         | response \<Rightarrow> op_lift (unexpected debug response)))) w = (r, w')"
    using assms by (simp only: client_put_def sz ok_or_simps op_lift_simps op_bind_Inr if_False)
  from run show ?thesis
  proof (cases rule: exchange_cases)
    case (untouched e)
    then show ?thesis by (simp add: served_blob_def)
  next
    case (unanswered e a k reaction)
    then show ?thesis using handle_content [OF unanswered(2) [unfolded serving_sel]] by (simp add: served_blob_def)
  next
    case (answered a k reaction w1 response rest)
    have frame: "served_blob blob w1 = served_blob blob w" using answered(1) handle_content by (simp add: served_blob_def)
    show ?thesis
    proof (cases "response = ContentReady")
      case False
      with answered(5) have "op_lift (unexpected debug response) w1 = (r, w')" by (cases response) simp_all
      with frame show ?thesis by (auto simp: unexpected_def)
    next
      case True
      obtain q n where wp: "link_write_payload data (ag_net w1) = (q, n)" by fastforce
      obtain q2 n2 where rr: "read_response ?C n = (q2, n2)" by fastforce
      note rd = read_response_link [OF rr]
      have w': "ag_net w' = n \<or> ag_net w' = n2" "r = Inr () \<longrightarrow> q2 = Inr ContentStored"
        using answered(5) True wp rr
        by (cases q; cases q2; auto simp: on_net_def unexpected_def split: control_response.splits)+
      have empty: "pl_inbox (ag_net w1) = []" using put_single_reply [OF answered(1,2)] answered(3) by simp
      have awaits: "content = filesystem_peer_content_store sha256 ops \<and> t = s"
        if "pl_awaiting (ag_net w1) = Some (content, t, sz')" for content t sz'
        by (rule put_awaits [OF answered(1) [unfolded serving_sel] that [unfolded answered(4)]])
      from write_payload_law [OF wp empty awaits]
      have "(\<forall>x. x \<noteq> for_bytes sha256 data \<longrightarrow> blob (ag_content (pl_server n)) x = served_blob blob w1 x) \<and>
        (\<forall>rest. pl_inbox n = ReplyMessage ContentStored # rest \<longrightarrow> (\<exists>b. blob (ag_content (pl_server n)) =
          (served_blob blob w1)(for_bytes sha256 data \<mapsto> b) \<and> matches sha256 (for_bytes sha256 data) b))"
        by (auto simp: served_blob_def)
      moreover have "pl_server (ag_net w') = pl_server n" using w'(1) rd by auto
      ultimately show ?thesis using w'(2) rd frame by (auto simp: served_blob_def)
    qed
  qed
qed

end

sublocale peer_served \<subseteq> remote: content_store sha256 "remote_content_store sha256 A (link_channel (serving sha256 ops L)) debug target"
  "\<lambda>cid. known cid \<and> digest_id cid" "served_blob blob" for A L debug target
proof (unfold_locales, goal_cases)
  case (1 data)
  show ?case using known_digest by simp
next
  case (2 data w cid w')
  then have "cid = for_bytes sha256 data" "client_put A (link_channel (serving sha256 ops L)) debug target (content_id_str cid) data w = (Inr (), w')"
    by (auto simp: remote_content_store_def remote_put_def op_bind_eq_Inr Let_def)
  with client_put_law show ?case by blast
next
  case (3 data w e w' x)
  then obtain r where "client_put A (link_channel (serving sha256 ops L)) debug target (content_id_str (for_bytes sha256 data)) data w = (r, w')"
    by (auto simp: remote_content_store_def remote_put_def Let_def elim!: op_bind_cases io_err_cases)
  with client_put_law 3(2) show ?case by blast
next
  case (4 cid w b w')
  then have "client_get A (link_channel (serving sha256 ops L)) debug target (content_id_str cid) w = (Inr b, w')"
    by (auto simp: remote_content_store_def remote_get_def op_bind_eq_Inr split: if_splits)
  with client_get_law digest_id_parse 4(1) show ?case by blast
next
  case (5 cid w r w')
  then obtain q where "client_get A (link_channel (serving sha256 ops L)) debug target (content_id_str cid) w = (q, w')"
    by (auto simp: remote_content_store_def remote_get_def elim!: op_bind_cases io_err_cases split: if_splits)
  with client_get_law show ?case by blast
next
  case (6 cid w w')
  then have "client_exists A (link_channel (serving sha256 ops L)) debug target (content_id_str cid) w = (Inr True, w')"
    by (auto simp: remote_content_store_def remote_exists_def)
  with client_exists_law digest_id_parse 6(1) show ?case by blast
next
  case (7 cid w q w')
  then obtain q where "client_exists A (link_channel (serving sha256 ops L)) debug target (content_id_str cid) w = (q, w')"
    by (auto simp: remote_content_store_def remote_exists_def elim!: io_err_cases)
  with client_exists_law show ?case by blast
qed (simp_all add: remote_content_store_def remote_delete_def)

text \<open>Peers that keep their content in memory, and peers that keep it on disk.\<close>

interpretation pim: peer_served sha256 "in_memory_store sha256 a" "\<lambda>_. True" "heap_blob a" for sha256 a
  by unfold_locales

interpretation plc: peer_served sha256 "local_content_store sha256 st" digest_id "local_blob st" for sha256 st
  by unfold_locales

text \<open>Two members of a cluster; one serves an empty store. The codec of each knows its state only.\<close>

definition demo_sha :: hash_function where
  "demo_sha bs = replicate 31 0 @ [of_nat (length bs)]"

definition one_state :: "agent_state \<Rightarrow> agent_state json_codec" where
  "one_state s = \<lparr>to_json = (\<lambda>x. if x = s then Inr [0] else Inl ''unknown''), from_json = (\<lambda>bs. if bs = [0] then Inr s else Inl ''unknown'')\<rparr>"

definition member_cluster :: "cluster_role \<Rightarrow> string \<Rightarrow> stored_cluster" where
  "member_cluster role credential = \<lparr>scl_id = ClusterId 7, scl_name = ''home'', scl_coordinator = demo_address 1,
     scl_coordinator_device_id = demo_coordinator, scl_role = role, scl_credential = credential, scl_invite_token = None,
     scl_members = [\<lparr>stm_member = demo_member demo_coordinator 1, stm_credential = [], stm_credential_digest = credential_digest demo_sha ''a''\<rparr>,
       \<lparr>stm_member = demo_member demo_joiner 2, stm_credential = [], stm_credential_digest = credential_digest demo_sha ''bb''\<rparr>],
     scl_accepted_joins = []\<rparr>"

definition member_state :: "device_id \<Rightarrow> cluster_role \<Rightarrow> string \<Rightarrow> agent_state" where
  "member_state device role credential = (initial_state device ''desk'')\<lparr>ags_cluster := Some (member_cluster role credential)\<rparr>"

definition member_env :: "device_id \<Rightarrow> cluster_role \<Rightarrow> string \<Rightarrow> agent_env" where
  "member_env device role credential = \<lparr>ae_store = cluster_store_at [''data''], ae_json = one_state (member_state device role credential),
     ae_tokens = \<lparr>tk_json = \<lparr>to_json = (\<lambda>_. Inl []), from_json = (\<lambda>_. Inl [])\<rparr>, tk_b64_encode = (\<lambda>_. []), tk_b64_decode = (\<lambda>_. None)\<rparr>,
     ae_sha256 = demo_sha\<rparr>"

definition state_disk :: disk where
  "state_disk = \<lparr>dk_files = [([''data'', ''cluster.json''], [0])], dk_faults = [], dk_stat_faults = []\<rparr>"

definition serving_peer :: "disk \<Rightarrow> (disk, unit) agent" where
  "serving_peer content = \<lparr>ag_disk = state_disk, ag_presence = presence_default, ag_content = content, ag_net = (),
     ag_failed_commits = 0, ag_dropped_responses = 0\<rparr>"

definition client_of :: "disk \<Rightarrow> (unit, disk peer_link) agent" where
  "client_of content = \<lparr>ag_disk = state_disk, ag_presence = presence_default, ag_content = (),
     ag_net = \<lparr>pl_server = serving_peer content, pl_inbox = [], pl_awaiting = None, pl_script = [], pl_calls = 0\<rparr>,
     ag_failed_commits = 0, ag_dropped_responses = 0\<rparr>"

definition demo_served :: local_content where
  "demo_served = \<lparr>lc_root = [''blobs''], lc_capacity = 100, lc_poisoned = False\<rparr>"

definition demo_remote :: "(unit, disk peer_link) agent content_store" where
  "demo_remote = remote_content_store demo_sha (member_env demo_joiner Member ''bb'')
     (link_channel (serving demo_sha (local_content_store demo_sha demo_served)
       \<lparr>le_agent = member_env demo_coordinator Coordinator ''a'', le_content = None, le_endpoint = demo_address 1,
        le_device = demo_coordinator, le_client = demo_joiner, le_rng = (\<lambda>_ _. 0), le_now = (\<lambda>_. 6)\<rparr>)) (\<lambda>_. ''response'') demo_coordinator"

definition empty_content :: disk where
  "empty_content = \<lparr>dk_files = [], dk_faults = [], dk_stat_faults = []\<rparr>"

text \<open>
  C14: storing data on another device, over a network that may fail at any call: if the call returns an
  identifier, then it is that of the data, and the disk of the other device holds a blob that matches it;
  no other blob on that disk has changed.
\<close>

theorem remote_put_on_disk:
  assumes "cs_put (remote_content_store sha256 A (link_channel (serving sha256 (local_content_store sha256 st) L)) debug target)
      data w = (Inr cid, w')"
  shows "cid = for_bytes sha256 data \<and>
    (\<exists>b. file_at (ag_content (pl_server (ag_net w'))) (path_for st cid) = Some b \<and> matches sha256 cid b) \<and>
    (\<forall>x. digest_id x \<and> x \<noteq> cid \<longrightarrow>
      file_at (ag_content (pl_server (ag_net w'))) (path_for st x) = file_at (ag_content (pl_server (ag_net w))) (path_for st x))"
proof -
  from plc.remote.put_ok [OF assms] obtain b where cid: "cid = for_bytes sha256 data"
    and b: "served_blob (local_blob st) w' = (served_blob (local_blob st) w)(cid \<mapsto> b)" "matches sha256 cid b" by blast
  have "local_blob st (ag_content (pl_server (ag_net w'))) cid = Some b" using b(1) by (simp add: served_blob_def)
  then have "file_at (ag_content (pl_server (ag_net w'))) (path_for st cid) = Some b" using cid by (simp add: local_blob_def)
  moreover have "file_at (ag_content (pl_server (ag_net w'))) (path_for st x) = file_at (ag_content (pl_server (ag_net w))) (path_for st x)"
    if "digest_id x" "x \<noteq> cid" for x
    using fun_cong [OF b(1), of x] that by (simp add: served_blob_def local_blob_def)
  ultimately show ?thesis using cid b(2) by blast
qed

theorem remote_put_on_disk_witness:
  "\<exists>w' b. cs_put demo_remote [1, 2, 3] (client_of empty_content) = (Inr (for_bytes demo_sha [1, 2, 3]), w') \<and>
    file_at (ag_content (pl_server (ag_net w'))) (path_for demo_served (for_bytes demo_sha [1, 2, 3])) = Some b \<and>
    matches demo_sha (for_bytes demo_sha [1, 2, 3]) b"
proof -
  have "fst (cs_put demo_remote [1, 2, 3] (client_of empty_content)) = Inr (for_bytes demo_sha [1, 2, 3])" by code_simp
  then obtain w' where run: "cs_put demo_remote [1, 2, 3] (client_of empty_content) = (Inr (for_bytes demo_sha [1, 2, 3]), w')"
    by (metis prod.collapse)
  from remote_put_on_disk [OF run [unfolded demo_remote_def]] run show ?thesis by blast
qed

text \<open>
  C26: reading from another device returns data that match the identifier asked for, and are the bytes
  that device's disk holds.
\<close>

theorem remote_get_from_disk:
  assumes "cs_get (remote_content_store sha256 A (link_channel (serving sha256 (local_content_store sha256 st) L)) debug target)
      cid w = (Inr b, w')" "digest_id cid"
  shows "matches sha256 cid b \<and> file_at (ag_content (pl_server (ag_net w))) (path_for st cid) = Some b"
proof -
  have "matches sha256 cid b"
    using assms(1) by (auto simp: remote_content_store_def remote_get_def op_bind_eq_Inr split: if_splits)
  moreover have "served_blob (local_blob st) w cid = Some b" using plc.remote.get_ok [OF _ assms(1)] assms(2) by simp
  ultimately show ?thesis using assms(2) by (simp add: served_blob_def local_blob_def)
qed

theorem remote_get_from_disk_witness:
  "\<exists>w w' b. cs_get demo_remote (for_bytes demo_sha [1, 2, 3]) w = (Inr b, w') \<and> b = [1, 2, 3] \<and>
    matches demo_sha (for_bytes demo_sha [1, 2, 3]) b \<and>
    file_at (ag_content (pl_server (ag_net w))) (path_for demo_served (for_bytes demo_sha [1, 2, 3])) = Some b"
proof -
  let ?w = "snd (cs_put demo_remote [1, 2, 3] (client_of empty_content))"
  have "fst (cs_get demo_remote (for_bytes demo_sha [1, 2, 3]) ?w) = Inr [1, 2, 3]" by code_simp
  then obtain w' where run: "cs_get demo_remote (for_bytes demo_sha [1, 2, 3]) ?w = (Inr [1, 2, 3], w')"
    by (metis prod.collapse)
  from remote_get_from_disk [OF run [unfolded demo_remote_def]] run show ?thesis unfolding demo_remote_def by simp blast
qed

end
