(* ===== verification/Agent_Program.thy ===== *)
theory Agent_Program
  imports Agent_Service Command_Line Peer_Content
begin

section \<open>The agent program\<close>

text \<open>
  \<open>agents/linux\<close>: the command line of \<open>kubeweft-agent\<close>, what it makes of the configuration, and how it starts the agent
  on the content store of the data directory. How socket addresses are read and written is an argument. The arguments are
  UTF-8: \<open>env::args\<close> panics before the program looks at any other.
\<close>

definition content_capacity :: u64 where
  "content_capacity = 107374182400"

text \<open>The components of a path as \<open>Path\<close> sees them: a root, and the names between separators that are not empty or a dot.\<close>

definition path_from :: "string \<Rightarrow> path_buf" where
  "path_from s = (if s \<noteq> [] \<and> hd s = CHR ''/'' then [''/''] else []) @
     filter (\<lambda>c. c \<noteq> [] \<and> c \<noteq> ''.'') (split_on CHR ''/'' s)"

definition agent_data_directory :: "environment \<Rightarrow> string + string" where
  "agent_data_directory env = (case env_data_dir env of
     Some path \<Rightarrow> Inr path
   | None \<Rightarrow> res_bind (ok_or (env_home env) ''HOME is unset; pass --data-dir or set KUBEWEFT_DATA_DIR'') (\<lambda>home.
       Inr (push_path home ''.local/share/kubeweft'')))"

definition agent_parse :: "(string \<Rightarrow> 'a option) \<Rightarrow> string \<Rightarrow> string \<Rightarrow> string + 'a" where
  "agent_parse from_str value name = ok_or (from_str value) (''invalid '' @ name @ '': '' @ value)"

definition missing_value :: "string \<Rightarrow> string" where
  "missing_value option = ''missing value for '' @ option"

fun agent_options :: "text_forms \<Rightarrow> string list \<Rightarrow> 'p agent_config \<Rightarrow> string + 'p agent_config" where
  "agent_options F [] config = Inr config"
| "agent_options F (option # rest) config =
     (if option = ''--no-discovery'' then agent_options F rest (config\<lparr>ac_discovery_port := None\<rparr>)
      else if option \<notin> {''--data-dir'', ''--listen'', ''--advertise'', ''--discovery-port'', ''--name''}
      then Inl (''unknown option: '' @ option)
      else (case rest of
        [] \<Rightarrow> Inl (missing_value option)
      | value # rest1 \<Rightarrow>
          if option = ''--data-dir'' then agent_options F rest1 (config\<lparr>ac_data_directory := path_from value\<rparr>)
          else if option = ''--listen'' then (case agent_parse (tf_parse_endpoint F) value ''listen endpoint'' of
              Inl e \<Rightarrow> Inl e | Inr a \<Rightarrow> agent_options F rest1 (config\<lparr>ac_listen := a\<rparr>))
          else if option = ''--advertise'' then (case agent_parse (tf_parse_endpoint F) value ''advertised endpoint'' of
              Inl e \<Rightarrow> Inl e | Inr a \<Rightarrow> agent_options F rest1 (config\<lparr>ac_advertise := Some a\<rparr>))
          else if option = ''--discovery-port'' then (case agent_parse parse_u16 value ''discovery port'' of
              Inl e \<Rightarrow> Inl e | Inr p \<Rightarrow> agent_options F rest1 (config\<lparr>ac_discovery_port := Some p\<rparr>))
          else agent_options F rest1 (config\<lparr>ac_device_name := Some value\<rparr>)))"

datatype 'p agent_invocation = AgentVersion | AgentHelp | AgentRun "'p agent_config"

definition agent_invocation :: "environment \<Rightarrow> text_forms \<Rightarrow> string list \<Rightarrow> string + 'p agent_invocation" where
  "agent_invocation env F arguments =
     (if arguments = [''--version''] then Inr AgentVersion
      else if arguments = [''--help''] then Inr AgentHelp
      else res_bind (agent_data_directory env) (\<lambda>directory.
           res_bind (agent_options F arguments (agent_config_new (path_from directory))) (\<lambda>config.
           Inr (AgentRun config))))"

definition agent_help_text :: string where
  "agent_help_text = concat (map line
     [''kubeweft-agent [OPTIONS]'',
      ''  --data-dir DIR          persistent local state'',
      ''  --listen ADDRESS        TCP listen address (default 127.0.0.1:37846)'',
      ''  --advertise ADDRESS     reachable address announced to peers'',
      ''  --discovery-port PORT   LAN discovery port (default 37845)'',
      ''  --no-discovery          disable LAN discovery'',
      ''  --name NAME             device display name on first start'',
      ''  peer TCP uses an authenticated encrypted Noise channel''])"

definition agent_banner :: "text_forms \<Rightarrow> agent_handle \<Rightarrow> string" where
  "agent_banner F handle =
     line (''kubeweft-agent listening='' @ tf_endpoint F (ah_endpoint handle)) @
     line (''advertising='' @ tf_endpoint F (ah_advertised_endpoint handle)) @
     line (''discovery='' @ (case ah_discovery_port handle of None \<Rightarrow> ''disabled'' | Some port \<Rightarrow> decimal (unat port)))"

text \<open>The agent that the program runs serves the blobs of the data directory.\<close>

definition start_configured ::
    "identity_env \<Rightarrow> (nat \<Rightarrow> keypair_draw) \<Rightarrow> hash_function \<Rightarrow> agent_state json_codec \<Rightarrow> string option \<Rightarrow> bool \<Rightarrow> (socket_addr \<Rightarrow> io_error + socket_addr) \<Rightarrow> io_error + unit \<Rightarrow>
     disk peer_content_store agent_config \<Rightarrow> (disk, string, disk peer_content_store agent_config \<times> agent_handle) op" where
  "start_configured E draws sha256 K hostname held tcp_bind discovery_socket config =
     op_bind (io_err filesystem_error_display (local_content_open (path_join (path_join (ac_data_directory config) ''content'') ''blobs'') content_capacity)) (\<lambda>content.
       let config = config\<lparr>ac_content_store := Some (filesystem_peer_content_store sha256 (local_content_store sha256 content))\<rparr> in
       op_bind (io_err transport_error_display (agent_start E draws sha256 K hostname held tcp_bind discovery_socket config)) (\<lambda>handle.
         op_lift (Inr (config, handle))))"

text \<open>What the program prints before it waits for the threads, and what it returns then; an error goes to the error stream.\<close>

definition run_agent ::
    "environment \<Rightarrow> string \<Rightarrow> text_forms \<Rightarrow> identity_env \<Rightarrow> (nat \<Rightarrow> keypair_draw) \<Rightarrow> hash_function \<Rightarrow> agent_state json_codec \<Rightarrow> string option \<Rightarrow> bool \<Rightarrow>
     (socket_addr \<Rightarrow> io_error + socket_addr) \<Rightarrow> io_error + unit \<Rightarrow> string list \<Rightarrow> (disk, string, string \<times> agent_handle option) op" where
  "run_agent env version F E draws sha256 K hostname held tcp_bind discovery_socket arguments = (case agent_invocation env F arguments of
     Inl e \<Rightarrow> op_lift (Inl e)
   | Inr AgentVersion \<Rightarrow> op_lift (Inr (line (''kubeweft-agent '' @ version), None))
   | Inr AgentHelp \<Rightarrow> op_lift (Inr (agent_help_text, None))
   | Inr (AgentRun config) \<Rightarrow>
       op_bind (start_configured E draws sha256 K hostname held tcp_bind discovery_socket config) (\<lambda>(_, handle).
       op_lift (Inr (agent_banner F handle, Some handle))))"

definition agent_error_text :: "string \<Rightarrow> string" where
  "agent_error_text error = line (''kubeweft-agent: '' @ error)"

subsection \<open>Options\<close>

text \<open>The options that say what a configuration has beyond the defaults, in the words of the help text.\<close>

definition option_words :: "text_forms \<Rightarrow> string \<Rightarrow> 'p agent_config \<Rightarrow> string list" where
  "option_words F directory config =
     [''--data-dir'', directory, ''--listen'', tf_endpoint F (ac_listen config)] @
     (case ac_advertise config of None \<Rightarrow> [] | Some a \<Rightarrow> [''--advertise'', tf_endpoint F a]) @
     (case ac_discovery_port config of None \<Rightarrow> [''--no-discovery''] | Some p \<Rightarrow> [''--discovery-port'', decimal (unat p)]) @
     (case ac_device_name config of None \<Rightarrow> [] | Some n \<Rightarrow> [''--name'', n])"

text \<open>
  C40: every configuration a user can ask for has a command line: the options that spell it give back the configuration,
  whatever the defaults of the environment are, as long as there are any.
\<close>

theorem agent_options_roundtrip:
  assumes "\<And>a. tf_parse_endpoint F (tf_endpoint F a) = Some a" "agent_data_directory env = Inr home"
    and "config = (agent_config_new (path_from directory) :: 'p agent_config)\<lparr>ac_listen := listen, ac_advertise := advertise,
      ac_discovery_port := port, ac_device_name := name\<rparr>"
  shows "agent_invocation env F (option_words F directory config) = Inr (AgentRun config)"
  using assms
  by (auto simp: agent_invocation_def option_words_def agent_parse_def agent_config_new_def split: option.split)

theorem agent_options_roundtrip_witness:
  "agent_invocation \<lparr>env_data_dir = None, env_home = Some ''/root''\<rparr> demo_forms
     (option_words demo_forms ''/data'' (agent_config_new (path_from ''/data'') :: unit agent_config)) =
   Inr (AgentRun (agent_config_new (path_from ''/data'') :: unit agent_config))"
  using agent_options_roundtrip [OF demo_forms_parse, where env = "\<lparr>env_data_dir = None, env_home = Some ''/root''\<rparr>" and
      config = "agent_config_new (path_from ''/data'') :: unit agent_config" and directory = "''/data''" and
      listen = "\<lparr>sa_ip = ipv4_localhost, sa_port = 37846\<rparr>" and advertise = None and port = "Some default_discovery_port" and name = None]
  by (simp add: agent_data_directory_def agent_config_new_def)

text \<open>
  Without a home directory and without \<open>KUBEWEFT_DATA_DIR\<close> the program does not start, even when \<open>--data-dir\<close> is given, as
  its error message asks.
\<close>

lemma data_dir_needs_home:
  "agent_invocation \<lparr>env_data_dir = None, env_home = None\<rparr> F [''--data-dir'', directory] =
     Inl ''HOME is unset; pass --data-dir or set KUBEWEFT_DATA_DIR''"
  by (simp add: agent_invocation_def agent_data_directory_def)

end
