(* ===== verification/Replication_Props.thy ===== *)
theory Replication_Props
  imports Service_Correct
begin

section \<open>Replication restores durability\<close>

text \<open>
  The reconciler on in-memory nodes: probing finds the true state of each replica, a copy leaves
  verified bytes on its destination, and one pass over a content brings it back to its durability
  target when enough nodes have room.
\<close>

definition memory_world :: "hash_function \<Rightarrow> (device_id \<Rightarrow> nat) \<Rightarrow> (shared_metadata, content_heap) world \<Rightarrow> bool" where
  "memory_world sha256 addr w \<longleftrightarrow>
     memory_registry sha256 addr (w_registry w) \<and> \<not> reg_poisoned (w_registry w) \<and>
     inj_on addr (dom (map_of (reg_nodes (w_registry w)))) \<and>
     bt_ok (reg_nodes (w_registry w)) \<and> (\<forall>a. \<not> imc_poisoned (w_contents w a)) \<and>
     (\<forall>d node. map_of (reg_nodes (w_registry w)) d = Some node \<longrightarrow> sn_device_id (rn_state node) = d)"

lemma memory_world_cong:
  "memory_world sha256 addr w \<Longrightarrow> w_registry w' = w_registry w \<Longrightarrow> w_contents w' = w_contents w \<Longrightarrow>
     memory_world sha256 addr w'"
  by (simp add: memory_world_def)

subsection \<open>Probing\<close>

text \<open>The true state of a replica.\<close>

definition probed :: "hash_function \<Rightarrow> (device_id \<Rightarrow> nat) \<Rightarrow> ('s, content_heap) world \<Rightarrow> content_id \<Rightarrow> replica \<Rightarrow> replica_state" where
  "probed sha256 addr w cid r = (case map_of (reg_nodes (w_registry w)) (rp_node_id r) of
     None \<Rightarrow> Missing
   | Some node \<Rightarrow>
       if \<not> sn_online (rn_state node) then offline_state (rp_state r)
       else (case heap_blob (addr (rp_node_id r)) (w_contents w) cid of
           None \<Rightarrow> Missing
         | Some b \<Rightarrow> if matches sha256 cid b then Healthy else Corrupted))"

lemma probed_cong:
  "w_registry w' = w_registry w \<Longrightarrow> w_contents w' = w_contents w \<Longrightarrow>
     probed sha256 addr w' cid r = probed sha256 addr w cid r"
  by (simp add: probed_def cong: option.case_cong if_cong)

lemma probe_store_memory:
  assumes "memory_world sha256 addr w" "map_of (reg_nodes (w_registry w)) d = Some node" "sn_online (rn_state node)"
    and "rp_node_id r = d"
  shows "\<exists>w'. probe_store sha256 cid d w = (Inr (probed sha256 addr w cid r), w') \<and>
    w_registry w' = w_registry w \<and> w_contents w' = w_contents w \<and> w_metadata w' = w_metadata w"
proof -
  have store: "registry_store (w_registry w) d = Inr (in_memory_store sha256 (addr d))"
    using assms by (simp add: memory_world_def memory_registry_def registry_store_def)
  have alive: "\<not> imc_poisoned (w_contents w (addr d))" using assms(1) by (simp add: memory_world_def)
  show ?thesis
    using assms(2-4) alive
    by (cases "map_of (imc_blobs (w_contents w (addr d))) cid")
       (auto simp: probe_store_def store on_contents_eq in_memory_store_sel imc_exists_def imc_get_def
          probed_def heap_blob_def)
qed

lemma refresh_memory:
  assumes "memory_world sha256 addr w"
  shows "\<exists>w'. refresh_replica_states sha256 cid rs w =
      (Inr (map (\<lambda>r. (rp_node_id r, probed sha256 addr w cid r)) rs), w') \<and>
    w_registry w' = w_registry w \<and> w_contents w' = w_contents w \<and> w_metadata w' = w_metadata w"
  using assms
proof (induction rs arbitrary: w)
  case (Cons r rs)
  let ?checked = "case registry_node (w_registry w) (rp_node_id r) of
              Inl _ \<Rightarrow> (Inr Missing, w)
            | Inr node \<Rightarrow>
                if \<not> sn_online node then (Inr (offline_state (rp_state r)), w)
                else probe_store sha256 cid (rp_node_id r) w"
  have "\<exists>w1. ?checked = (Inr (probed sha256 addr w cid r), w1) \<and>
      w_registry w1 = w_registry w \<and> w_contents w1 = w_contents w \<and> w_metadata w1 = w_metadata w"
  proof (cases "map_of (reg_nodes (w_registry w)) (rp_node_id r)")
    case None
    with Cons.prems show ?thesis by (simp add: registry_node_def memory_world_def probed_def)
  next
    case (Some node)
    then have reg: "registry_node (w_registry w) (rp_node_id r) = Inr (rn_state node)"
      using Cons.prems by (simp add: registry_node_def memory_world_def)
    show ?thesis
    proof (cases "sn_online (rn_state node)")
      case True
      with reg probe_store_memory [OF Cons.prems Some True refl] show ?thesis by simp
    next
      case False
      with reg Some show ?thesis by (simp add: probed_def)
    qed
  qed
  then obtain w1 where w1: "?checked = (Inr (probed sha256 addr w cid r), w1)"
    "w_registry w1 = w_registry w" "w_contents w1 = w_contents w" "w_metadata w1 = w_metadata w" by blast
  from Cons.IH [OF memory_world_cong [OF Cons.prems w1(2,3)]] obtain w2 where
    "refresh_replica_states sha256 cid rs w1 =
      (Inr (map (\<lambda>r. (rp_node_id r, probed sha256 addr w1 cid r)) rs), w2)"
    "w_registry w2 = w_registry w1" "w_contents w2 = w_contents w1" "w_metadata w2 = w_metadata w1" by blast
  moreover have "probed sha256 addr w1 cid q = probed sha256 addr w cid q" for q
    by (rule probed_cong) (simp_all add: w1)
  ultimately show ?case using w1 by simp
qed simp

lemma apply_states_map:
  assumes "distinct (map rp_node_id rs)"
  shows "apply_states (map (\<lambda>r. (rp_node_id r, g r)) rs) rs = map (\<lambda>r. r\<lparr>rp_state := g r\<rparr>) rs"
proof -
  have skip: "apply_states sts (r # rs) = r # apply_states sts rs" if "rp_node_id r \<notin> fst ` set sts"
    for r :: replica and rs sts
    using that unfolding apply_states_def
    by (induction sts arbitrary: rs) (auto simp: node_is_def case_prod_beta)
  show ?thesis
    using assms
  proof (induction rs)
    case (Cons r rs)
    have "apply_states (map (\<lambda>r. (rp_node_id r, g r)) (r # rs)) (r # rs) =
        apply_states (map (\<lambda>r. (rp_node_id r, g r)) rs) (r\<lparr>rp_state := g r\<rparr> # rs)"
      by (simp add: apply_states_def node_is_def)
    also have "\<dots> = r\<lparr>rp_state := g r\<rparr> # apply_states (map (\<lambda>r. (rp_node_id r, g r)) rs) rs"
      using Cons.prems by (intro skip) auto
    finally show ?case using Cons by simp
  qed (simp add: apply_states_def)
qed

lemma refresh_placement_memory:
  assumes "rc_metadata rc = shared_ops" "memory_world sha256 addr w" "w_metadata w = sole s"
    and "is_content_retained s cid" "map_of (ms_placements s) cid = Some p" "snapshot_ok s"
  defines "p' \<equiv> p\<lparr>cp_replicas := map (\<lambda>r. r\<lparr>rp_state := probed sha256 addr w cid r\<rparr>) (cp_replicas p)\<rparr>"
  shows "\<exists>w'. refresh_current_placement rc sha256 cid w = (Inr (Some p'), w') \<and>
    w_registry w' = w_registry w \<and> w_contents w' = w_contents w \<and>
    w_metadata w' = sole ((put_placement cid p' s)\<lparr>ms_revision := ms_revision s + 1\<rparr>)"
proof -
  have p: "cp_content_id p = cid" "distinct (map rp_node_id (cp_replicas p))"
    using snapshot_ok_placement [OF assms(6,5)] by auto
  have eight: "(8 :: nat) = Suc 7" by simp
  from refresh_memory [OF assms(2), of cid "cp_replicas p"] obtain w1 where w1: "refresh_replica_states sha256 cid (cp_replicas p) w =
      (Inr (map (\<lambda>r. (rp_node_id r, probed sha256 addr w cid r)) (cp_replicas p)), w1)"
    "w_registry w1 = w_registry w" "w_contents w1 = w_contents w" "w_metadata w1 = sole s"
    unfolding assms(3) by blast
  have ld: "on_metadata shared_load w = (Inr s, w)" using assms(3) by (auto simp: on_metadata_iff)
  let ?z = "(put_placement cid p' s)\<lparr>ms_revision := ms_revision s + 1\<rparr>"
  have cas: "on_metadata (shared_cas (put_placement cid p' s)) w1 = (Inr (), w1\<lparr>w_metadata := sole ?z\<rparr>)"
    by (simp add: on_metadata_eq w1(4) put_placement_def)
  have states: "p\<lparr>cp_replicas := apply_states (map (\<lambda>r. (rp_node_id r, probed sha256 addr w cid r)) (cp_replicas p))
      (cp_replicas p)\<rparr> = p'"
    by (simp add: apply_states_map [OF p(2)] p'_def)
  have "refresh_current_placement rc sha256 cid w = (Inr (Some p'), w1\<lparr>w_metadata := sole ?z\<rparr>)"
    unfolding refresh_current_placement_def eight refresh_placement_from.simps(2) assms(1) shared_ops_sel ld
    by (simp add: assms(4,5) p(1) w1(1) states cas Let_def)
  then show ?thesis using w1(2,3) by simp
qed

subsection \<open>Copying\<close>

lemma upsert_state_set:
  assumes "distinct (map rp_node_id (cp_replicas q))"
  shows "set (cp_replicas (upsert_state d state q)) =
    {r \<in> set (cp_replicas q). rp_node_id r \<noteq> d} \<union> {\<lparr>rp_node_id = d, rp_state = state\<rparr>}"
proof -
  have "find (node_is d) rs \<noteq> None \<Longrightarrow> distinct (map rp_node_id rs) \<Longrightarrow>
      set (update_first (node_is d) (\<lambda>r. r\<lparr>rp_state := state\<rparr>) rs) =
      {r \<in> set rs. rp_node_id r \<noteq> d} \<union> {\<lparr>rp_node_id = d, rp_state = state\<rparr>}" for rs :: "replica list"
  proof (induction rs)
    case (Cons r rs)
    have eta: "r\<lparr>rp_state := state\<rparr> = \<lparr>rp_node_id = rp_node_id r, rp_state = state\<rparr>" by simp
    from Cons show ?case
      by (cases "rp_node_id r = d") (auto simp: node_is_def eta image_iff)
  qed simp
  moreover have "find (node_is d) rs = None \<Longrightarrow> {r \<in> set rs. rp_node_id r \<noteq> d} = set rs" for rs :: "replica list"
    by (auto simp: find_None_iff node_is_def)
  ultimately show ?thesis
    using assms by (cases "find (node_is d) (cp_replicas q)") (auto simp: upsert_state_def)
qed

definition present_ids :: "content_placement \<Rightarrow> device_id set" where
  "present_ids p = rp_node_id ` {r \<in> set (cp_replicas p). replica_present r}"

lemma present_ids_upsert:
  assumes "distinct (map rp_node_id (cp_replicas q))"
  shows "present_ids (upsert_state d Healthy q) = insert d (present_ids q)"
proof (rule set_eqI)
  fix n
  have "n \<in> present_ids (upsert_state d Healthy q) \<longleftrightarrow>
      n = d \<or> (\<exists>r \<in> set (cp_replicas q). rp_node_id r \<noteq> d \<and> n = rp_node_id r \<and> replica_present r)"
    unfolding present_ids_def upsert_state_set [OF assms] image_iff by (auto simp: replica_present_def)
  then show "n \<in> present_ids (upsert_state d Healthy q) \<longleftrightarrow> n \<in> insert d (present_ids q)"
    by (auto simp: present_ids_def)
qed

text \<open>A replica that can serve as a source.\<close>

definition serves :: "hash_function \<Rightarrow> (device_id \<Rightarrow> nat) \<Rightarrow> ('s, content_heap) world \<Rightarrow> content_id \<Rightarrow> device_id \<Rightarrow> bool" where
  "serves sha256 addr w cid d \<longleftrightarrow>
     (\<exists>node. map_of (reg_nodes (w_registry w)) d = Some node \<and> sn_online (rn_state node)) \<and>
     (\<exists>b. heap_blob (addr d) (w_contents w) cid = Some b \<and> matches sha256 cid b)"

text \<open>Every replica recorded as healthy really is: its node is on line and holds the bytes.\<close>

definition records_true ::
    "hash_function \<Rightarrow> (device_id \<Rightarrow> nat) \<Rightarrow> ('s, content_heap) world \<Rightarrow> content_id \<Rightarrow> content_placement \<Rightarrow> bool" where
  "records_true sha256 addr w cid q \<longleftrightarrow>
     (\<forall>x \<in> set (cp_replicas q). rp_state x = Healthy \<longrightarrow> serves sha256 addr w cid (rp_node_id x))"

lemma probed_Healthy: "probed sha256 addr w cid x = Healthy \<Longrightarrow> serves sha256 addr w cid (rp_node_id x)"
  by (auto simp: probed_def serves_def offline_state_def split: option.splits if_splits)

lemma records_true_upsert:
  assumes "records_true sha256 addr w cid q" "distinct (map rp_node_id (cp_replicas q))"
    and "serves sha256 addr w' cid d"
    and "\<And>e. e \<noteq> d \<Longrightarrow> serves sha256 addr w cid e \<Longrightarrow> serves sha256 addr w' cid e"
  shows "records_true sha256 addr w' cid (upsert_state d Healthy q)"
  using assms unfolding records_true_def upsert_state_set [OF assms(2)] by auto

lemma memory_get:
  assumes "memory_world sha256 addr w" "map_of (reg_nodes (w_registry w)) d = Some node" "sn_online (rn_state node)"
  shows "on_contents (\<lambda>reg. get_from reg d cid) w =
    (ok_or (heap_blob (addr d) (w_contents w) cid) ContentUnavailable, w)"
  using assms by (simp add: on_contents_eq get_from_def registry_node_def registry_store_def memory_world_def
      memory_registry_def in_memory_store_sel imc_get_def heap_blob_def)

lemma find_source_memory:
  assumes "memory_world sha256 addr w"
    and "r \<in> set rs" "rp_state r = Healthy" "serves sha256 addr w cid (rp_node_id r)"
  shows "\<exists>source bs. find_source sha256 cid rs w = (Some (source, bs), w) \<and> matches sha256 cid bs"
  using assms(2)
proof (induction rs)
  case (Cons x rs)
  show ?case
  proof (cases "x = r")
    case True
    with assms memory_get [OF assms(1), of "rp_node_id r" _ cid] show ?thesis by (auto simp: serves_def)
  next
    case False
    with Cons have IH: "\<exists>source bs. find_source sha256 cid rs w = (Some (source, bs), w) \<and> matches sha256 cid bs" by simp
    obtain g w1 where g: "on_contents (\<lambda>reg. get_from reg (rp_node_id x) cid) w = (g, w1)" by fastforce
    have "w1 = w" using on_contents_memory [of sha256 addr, OF _ g] assms(1) by (simp add: memory_world_def)
    with IH g show ?thesis by (cases g) auto
  qed
qed simp

text \<open>The node has room for the content once a stale copy is gone.\<close>

definition has_room :: "hash_function \<Rightarrow> (device_id \<Rightarrow> nat) \<Rightarrow> ('s, content_heap) world \<Rightarrow> content_id \<Rightarrow> device_id \<Rightarrow> bool" where
  "has_room sha256 addr w cid d \<longleftrightarrow> (\<forall>b. matches sha256 cid b \<longrightarrow>
     \<not> isl (fst (imc_put sha256 b (snd (imc_delete cid (w_contents w (addr d)))))))"

lemma imc_delete_absent: "map_of (imc_blobs st) cid = None \<Longrightarrow> snd (imc_delete cid st) = st"
proof -
  assume "map_of (imc_blobs st) cid = None"
  then have "filter (\<lambda>p. fst p \<noteq> cid) (imc_blobs st) = imc_blobs st"
    by (auto simp: filter_id_conv map_of_eq_None_iff)
  then show ?thesis by (simp add: imc_delete_def bt_remove_def)
qed

lemma imc_put_alive: "\<not> imc_poisoned st \<Longrightarrow> \<not> imc_poisoned (snd (imc_put sha256 b st))"
  by (cases rule: imc_put_cases [of sha256 b st]) auto

lemma imc_put_holds:
  assumes "fst (imc_put sha256 bs st) = Inr cid" "matches sha256 cid bs"
  shows "\<exists>b. map_of (imc_blobs (snd (imc_put sha256 bs st))) cid = Some b \<and> matches sha256 cid b"
  using assms by (cases rule: imc_put_cases [of sha256 bs st]) auto

lemma upsert_replica_sole:
  assumes "rc_metadata rc = shared_ops" "w_metadata w = sole z" "is_content_retained z cid"
    "map_of (ms_placements z) cid = Some q"
  shows "upsert_replica rc cid d state w = (Inr (),
    w\<lparr>w_metadata := sole ((put_placement cid (upsert_state d state q) z)\<lparr>ms_revision := ms_revision z + 1\<rparr>)\<rparr>)"
proof -
  have eight: "(8 :: nat) = Suc 7" by simp
  have ld: "on_metadata shared_load w = (Inr z, w)" using assms(2) by (auto simp: on_metadata_iff)
  have cas: "on_metadata (shared_cas (put_placement cid (upsert_state d state q) z)) w = (Inr (),
      w\<lparr>w_metadata := sole ((put_placement cid (upsert_state d state q) z)\<lparr>ms_revision := ms_revision z + 1\<rparr>)\<rparr>)"
    by (simp add: on_metadata_eq assms(2) put_placement_def)
  show ?thesis
    unfolding upsert_replica_def mutate_placement_def eight mutate_placement_from.simps(2) assms(1) shared_ops_sel ld
    by (simp add: assms(3,4) cas)
qed

lemma copy_memory:
  assumes "rc_metadata rc = shared_ops" "memory_world sha256 addr w" "w_metadata w = sole z"
    and "is_content_retained z cid" "map_of (ms_placements z) cid = Some q"
    and node: "map_of (reg_nodes (w_registry w)) d = Some node" "sn_online (rn_state node)"
    and bs: "matches sha256 cid bs" and room: "has_room sha256 addr w cid d"
  shows "\<exists>w' h. copy_to rc cid source d bs w = (Inr (), w') \<and> w_registry w' = w_registry w \<and>
    w_contents w' = (w_contents w)(addr d := h) \<and> \<not> imc_poisoned h \<and>
    (\<exists>b. map_of (imc_blobs h) cid = Some b \<and> matches sha256 cid b) \<and>
    w_metadata w' = sole ((put_placement cid (upsert_state d Healthy q) z)\<lparr>ms_revision := ms_revision z + 1\<rparr>)"
proof -
  let ?a = "addr d" and ?h = "w_contents w (addr d)"
  let ?st = "snd (imc_delete cid ?h)"
  define w1 where "w1 = w_emit (ReplicationStarted cid source d) w"
  define w2 where "w2 = w1\<lparr>w_contents := (w_contents w)(?a := ?st)\<rparr>"
  define w3 where "w3 = w2\<lparr>w_contents := (w_contents w)(?a := snd (imc_put sha256 bs ?st))\<rparr>"
  have alive: "\<not> imc_poisoned ?h" using assms(2) by (simp add: memory_world_def)
  have store: "registry_store (w_registry w) d = Inr (in_memory_store sha256 ?a)"
    and reg: "registry_node (w_registry w) d = Inr (rn_state node)"
    using assms(2) node by (simp_all add: memory_world_def memory_registry_def registry_store_def registry_node_def)
  have exists: "on_contents (\<lambda>_. cs_exists (in_memory_store sha256 ?a) cid) w1 =
      (Inr (map_of (imc_blobs ?h) cid \<noteq> None), w1)"
    using alive by (simp add: on_contents_eq in_memory_store_sel imc_exists_def w1_def)
  have del: "(if map_of (imc_blobs ?h) cid \<noteq> None then on_contents (\<lambda>_. cs_delete (in_memory_store sha256 ?a) cid)
      else op_lift (Inr ())) w1 = (Inr (), w2)"
  proof (cases "map_of (imc_blobs ?h) cid")
    case None
    then have "(w_contents w)(?a := ?st) = w_contents w" by (simp add: imc_delete_absent)
    with None show ?thesis by (simp add: w2_def w1_def)
  next
    case (Some b)
    with alive show ?thesis
      by (simp add: on_contents_eq in_memory_store_sel imc_delete_def w2_def w1_def)
  qed
  from room bs have "\<not> isl (fst (imc_put sha256 bs ?st))" by (simp add: has_room_def)
  moreover have "fst (imc_put sha256 bs ?st) = Inr v \<Longrightarrow> v = cid" for v
    using bs by (cases rule: imc_put_cases [of sha256 bs ?st]) (auto simp: matches_def)
  ultimately have put': "fst (imc_put sha256 bs ?st) = Inr cid" by (metis sum.collapse(2))
  have put: "on_contents (\<lambda>reg. put_on reg d bs) w2 = (Inr cid, w3)"
    using put' by (simp add: on_contents_eq put_on_def w2_def w1_def w3_def reg store node(2) in_memory_store_sel)
  have upsert: "upsert_replica rc cid d Healthy w3 = (Inr (), w3\<lparr>w_metadata :=
      sole ((put_placement cid (upsert_state d Healthy q) z)\<lparr>ms_revision := ms_revision z + 1\<rparr>)\<rparr>)"
    using assms(1,3-5) by (intro upsert_replica_sole) (simp_all add: w3_def w2_def w1_def)
  have run: "copy_to rc cid source d bs w = (Inr (), w_emit (ReplicationCompleted cid source d)
      (w_emit (ReplicaCreated cid d) (w3\<lparr>w_metadata :=
        sole ((put_placement cid (upsert_state d Healthy q) z)\<lparr>ms_revision := ms_revision z + 1\<rparr>)\<rparr>)))"
    unfolding copy_to_def using exists del put upsert store
    by (simp add: w1_def [symmetric]) (simp add: w1_def)
  have "\<not> imc_poisoned (snd (imc_put sha256 bs ?st))" using alive by (simp add: imc_delete_def imc_put_alive)
  moreover from put' bs have "\<exists>b. map_of (imc_blobs (snd (imc_put sha256 bs ?st))) cid = Some b \<and> matches sha256 cid b"
    by (rule imc_put_holds)
  moreover have "\<exists>w'. copy_to rc cid source d bs w = (Inr (), w') \<and> w_registry w' = w_registry w \<and>
      w_contents w' = (w_contents w)(addr d := snd (imc_put sha256 bs ?st)) \<and>
      w_metadata w' = sole ((put_placement cid (upsert_state d Healthy q) z)\<lparr>ms_revision := ms_revision z + 1\<rparr>)"
    by (simp add: run w3_def w2_def w1_def)
  ultimately show ?thesis by blast
qed

subsection \<open>The pass over one content\<close>

lemma put_placement_retained [simp]:
  "is_content_retained ((put_placement cid q z)\<lparr>ms_revision := v\<rparr>) c = is_content_retained z c"
  "map_of (ms_placements z) cid = Some q' \<Longrightarrow>
     map_of (ms_placements (put_placement cid q z)) cid = Some q"
  by (simp_all add: put_placement_def is_content_retained_def is_content_live_referenced_def)

lemma list_ex_present: "list_ex (\<lambda>r. rp_node_id r = d \<and> replica_present r) (cp_replicas q) \<longleftrightarrow> d \<in> present_ids q"
  by (auto simp: list_ex_iff present_ids_def)

lemma memory_world_step:
  assumes "memory_world sha256 addr w" "w_registry w' = w_registry w"
    "w_contents w' = (w_contents w)(a := h)" "\<not> imc_poisoned h"
  shows "memory_world sha256 addr w'"
  using assms by (auto simp: memory_world_def)

lemma replicate_memory:
  assumes rc: "rc_metadata rc = shared_ops"
  shows "memory_world sha256 addr w \<Longrightarrow> w_metadata w = sole z \<Longrightarrow> is_content_retained z cid \<Longrightarrow>
    map_of (ms_placements z) cid = Some q \<Longrightarrow> distinct (map rp_node_id (cp_replicas q)) \<Longrightarrow>
    r \<in> set (cp_replicas q) \<Longrightarrow> rp_state r = Healthy \<Longrightarrow> records_true sha256 addr w cid q \<Longrightarrow>
    (\<forall>d \<in> set ds. d \<in> present_ids q \<or> (\<exists>node. map_of (reg_nodes (w_registry w)) d = Some node \<and>
       sn_online (rn_state node)) \<and> has_room sha256 addr w cid d) \<Longrightarrow> distinct ds \<Longrightarrow>
    \<exists>n w' z' q'. replicate_to rc sha256 cid ds created w = (Inr n, w') \<and> w_metadata w' = sole z' \<and>
      map_of (ms_placements z') cid = Some q' \<and> distinct (map rp_node_id (cp_replicas q')) \<and>
      cp_desired_replica_count q' = cp_desired_replica_count q \<and> set ds \<union> present_ids q \<subseteq> present_ids q' \<and>
      records_true sha256 addr w' cid q'"
proof (induction ds arbitrary: w z q created)
  case Nil
  then show ?case by auto
next
  case (Cons d ds)
  have ld: "on_metadata shared_load w = (Inr z, w)" using Cons.prems(2) by (auto simp: on_metadata_iff)
  show ?case
  proof (cases "d \<in> present_ids q")
    case True
    from Cons.IH [OF Cons.prems(1-8)] Cons.prems(9,10) obtain n w' z' q'
      where *: "replicate_to rc sha256 cid ds created w = (Inr n, w')" "w_metadata w' = sole z'"
        "map_of (ms_placements z') cid = Some q'" "distinct (map rp_node_id (cp_replicas q'))"
        "cp_desired_replica_count q' = cp_desired_replica_count q" "set ds \<union> present_ids q \<subseteq> present_ids q'"
        "records_true sha256 addr w' cid q'"
      by (metis distinct.simps(2) list.set_intros(2))
    have "replicate_to rc sha256 cid (d # ds) created w = (Inr n, w')"
      unfolding replicate_to.simps(2) rc shared_ops_sel ld using Cons.prems(3,4) True *(1)
      by (simp add: list_ex_present)
    with * True show ?thesis by auto
  next
    case False
    with Cons.prems(9) obtain node where node: "map_of (reg_nodes (w_registry w)) d = Some node"
      "sn_online (rn_state node)" and room: "has_room sha256 addr w cid d" by auto
    have servr: "serves sha256 addr w cid (rp_node_id r)" using Cons.prems(6-8) by (auto simp: records_true_def)
    from find_source_memory [OF Cons.prems(1,6,7) servr] obtain source bs
      where src: "find_source sha256 cid (cp_replicas q) w = (Some (source, bs), w)" "matches sha256 cid bs" by blast
    from copy_memory [OF rc Cons.prems(1-4) node src(2) room] obtain w1 h
      where w1: "copy_to rc cid source d bs w = (Inr (), w1)" "w_registry w1 = w_registry w"
        "w_contents w1 = (w_contents w)(addr d := h)" "\<not> imc_poisoned h"
        "\<exists>b. map_of (imc_blobs h) cid = Some b \<and> matches sha256 cid b"
        "w_metadata w1 = sole ((put_placement cid (upsert_state d Healthy q) z)\<lparr>ms_revision := ms_revision z + 1\<rparr>)"
      by blast
    let ?q = "upsert_state d Healthy q"
    have rd: "rp_node_id r \<noteq> d"
      using False Cons.prems(6,7) by (auto simp: present_ids_def replica_present_def)
    have same: "w_contents w1 (addr e) = w_contents w (addr e)"
      if "e \<noteq> d" "map_of (reg_nodes (w_registry w)) e = Some ne" for e ne
    proof -
      have "addr e \<noteq> addr d" using Cons.prems(1) that node by (auto simp: memory_world_def inj_on_def)
      then show ?thesis using w1(3) by simp
    qed
    have "serves sha256 addr w1 cid d" using node w1(2,3,5) by (simp add: serves_def heap_blob_def)
    then have true': "records_true sha256 addr w1 cid ?q"
      using same w1(2) by (intro records_true_upsert [OF Cons.prems(8,5)]) (auto simp: serves_def heap_blob_def)
    have r': "r \<in> set (cp_replicas ?q)" using Cons.prems(5,6) rd by (simp add: upsert_state_set)
    have rest: "\<forall>e \<in> set ds. e \<in> present_ids ?q \<or> (\<exists>node. map_of (reg_nodes (w_registry w1)) e = Some node \<and>
       sn_online (rn_state node)) \<and> has_room sha256 addr w1 cid e"
    proof
      fix e assume e: "e \<in> set ds"
      with Cons.prems(10) have "e \<noteq> d" by auto
      with Cons.prems(9) e same w1(2) show "e \<in> present_ids ?q \<or>
          (\<exists>node. map_of (reg_nodes (w_registry w1)) e = Some node \<and> sn_online (rn_state node)) \<and>
          has_room sha256 addr w1 cid e"
        by (auto simp: present_ids_upsert [OF Cons.prems(5)] has_room_def)
    qed
    have "\<exists>n w' z' q'. replicate_to rc sha256 cid ds (created + 1) w1 = (Inr n, w') \<and> w_metadata w' = sole z' \<and>
      map_of (ms_placements z') cid = Some q' \<and> distinct (map rp_node_id (cp_replicas q')) \<and>
      cp_desired_replica_count q' = cp_desired_replica_count ?q \<and> set ds \<union> present_ids ?q \<subseteq> present_ids q' \<and>
      records_true sha256 addr w' cid q'"
      by (rule Cons.IH [OF memory_world_step [OF Cons.prems(1) w1(2-4)] w1(6)])
         (use Cons.prems r' true' rest upsert_state_nodes in simp_all)
    then obtain n w' z' q' where *: "replicate_to rc sha256 cid ds (created + 1) w1 = (Inr n, w')"
        "w_metadata w' = sole z'" "map_of (ms_placements z') cid = Some q'" "distinct (map rp_node_id (cp_replicas q'))"
        "cp_desired_replica_count q' = cp_desired_replica_count ?q" "set ds \<union> present_ids ?q \<subseteq> present_ids q'"
        "records_true sha256 addr w' cid q'" by blast
    have "replicate_to rc sha256 cid (d # ds) created w = (Inr n, w')"
      unfolding replicate_to.simps(2) rc shared_ops_sel ld using Cons.prems(3,4) False src(1) w1(1) *(1)
      by (simp add: list_ex_present)
    moreover have "set (d # ds) \<union> present_ids q \<subseteq> present_ids q'"
      using *(6) present_ids_upsert [OF Cons.prems(5), of d] by auto
    moreover have "cp_desired_replica_count q' = cp_desired_replica_count q"
      using *(5) by (simp add: upsert_state_def)
    ultimately show ?thesis using *(2-4,7) by blast
  qed
qed

lemma durable_if_present:
  assumes "distinct (map rp_node_id (cp_replicas q))" "distinct ds" "set ds \<subseteq> present_ids q"
    and "cp_desired_replica_count q \<le> length ds"
  shows "durability q = DurHealthy"
proof -
  have "length ds = card (set ds)" using assms(2) by (simp add: distinct_card)
  also have "\<dots> \<le> card (present_ids q)"
    using assms(3) by (intro card_mono) (simp_all add: present_ids_def)
  also have "\<dots> \<le> card (set (filter replica_present (cp_replicas q)))"
    unfolding present_ids_def by (simp add: card_image_le flip: set_filter)
  also have "\<dots> \<le> length (filter replica_present (cp_replicas q))" by (rule card_length)
  finally show ?thesis using assms(4) by simp
qed

definition spacious :: "(shared_metadata, content_heap) world \<Rightarrow> u64 \<Rightarrow> device_id set" where
  "spacious w sz = {d. \<exists>node. map_of (reg_nodes (w_registry w)) d = Some node \<and>
     sn_online (rn_state node) \<and> sz \<le> sn_free_space (rn_state node)}"

text \<open>The nodes the registry lists are a well-formed request, and its candidates are registered.\<close>

lemma memory_request_ok:
  assumes "memory_world sha256 addr w"
  shows "distinct (map sn_device_id (map rn_state (bt_values (reg_nodes (w_registry w)))))"
proof -
  have ok: "bt_ok (reg_nodes (w_registry w))" using assms by (simp add: memory_world_def)
  have "map sn_device_id (map rn_state (bt_values (reg_nodes (w_registry w)))) = bt_keys (reg_nodes (w_registry w))"
    using assms bt_get_iff [OF ok] by (auto simp: memory_world_def)
  then show ?thesis using bt_ok_distinct [OF ok] by (simp only:)
qed

lemma memory_registered:
  assumes "memory_world sha256 addr w"
  shows "n \<in> set (map rn_state (bt_values (reg_nodes (w_registry w)))) \<longleftrightarrow>
    (\<exists>node. map_of (reg_nodes (w_registry w)) (sn_device_id n) = Some node \<and> rn_state node = n)"
proof -
  have ok: "bt_ok (reg_nodes (w_registry w))"
    and ids: "\<And>d node. map_of (reg_nodes (w_registry w)) d = Some node \<Longrightarrow> sn_device_id (rn_state node) = d"
    using assms by (simp_all add: memory_world_def)
  have "n \<in> set (map rn_state (bt_values (reg_nodes (w_registry w)))) \<longleftrightarrow>
      (\<exists>d node. map_of (reg_nodes (w_registry w)) d = Some node \<and> rn_state node = n)"
    using bt_values_iff [OF ok] by (simp only: set_map image_iff Bex_def) blast
  also have "\<dots> \<longleftrightarrow> (\<exists>node. map_of (reg_nodes (w_registry w)) (sn_device_id n) = Some node \<and> rn_state node = n)"
    using ids by auto
  finally show ?thesis .
qed

lemma desired_count_met:
  assumes "memory_world sha256 addr w" "k \<le> card (spacious w sz)"
    and request_def: "request = \<lparr>pr_size = sz, pr_available_nodes = map rn_state (bt_values (reg_nodes (w_registry w))),
      pr_existing_replicas = rs, pr_desired_replica_count = k\<rparr>"
  shows "request_ok request" "k \<le> length (default_desired_nodes request)"
    "d \<in> set (default_desired_nodes request) \<Longrightarrow> d \<in> present_nodes request \<or> d \<in> spacious w sz"
proof -
  show ok: "request_ok request"
    using memory_request_ok [OF assms(1)] by (simp add: request_ok_def request_def)
  have ids: "\<And>d node. map_of (reg_nodes (w_registry w)) d = Some node \<Longrightarrow> sn_device_id (rn_state node) = d"
    using assms(1) by (simp add: memory_world_def)
  have cands: "sn_device_id ` candidates request = spacious w sz - present_nodes request"
  proof (rule set_eqI)
    fix d
    have "d \<in> sn_device_id ` candidates request \<longleftrightarrow> (\<exists>n \<in> set (map rn_state (bt_values (reg_nodes (w_registry w)))).
        sn_device_id n = d \<and> sn_online n \<and> sz \<le> sn_free_space n \<and> d \<notin> present_nodes request)"
      unfolding candidates_def by (auto simp: request_def simp del: set_map)
    also have "\<dots> \<longleftrightarrow> d \<in> spacious w sz - present_nodes request"
      unfolding Bex_def memory_registered [OF assms(1)] spacious_def using ids by auto
    finally show "d \<in> sn_device_id ` candidates request \<longleftrightarrow> d \<in> spacious w sz - present_nodes request" .
  qed
  have fin: "finite (present_nodes request)" "finite (candidates request)"
    by (simp_all add: present_nodes_def candidates_def)
  have "card (spacious w sz) \<le> card (present_nodes request \<union> sn_device_id ` candidates request)"
    by (intro card_mono finite_UnI finite_imageI fin) (use cands in blast)
  also have "\<dots> \<le> card (present_nodes request) + card (sn_device_id ` candidates request)"
    by (rule card_Un_le)
  also have "\<dots> \<le> card (present_nodes request) + card (candidates request)"
    using fin(2) by (simp add: card_image_le)
  finally show "k \<le> length (default_desired_nodes request)"
    using default.target_met [OF ok] assms(2) by (simp add: request_def)
  show "d \<in> set (default_desired_nodes request) \<Longrightarrow> d \<in> present_nodes request \<or> d \<in> spacious w sz"
    using default.adds [of d request] cands by blast
qed

lemma content_size_sole:
  "content_size shared_ops cid (sole z) = (case chunk_size_of cid z of None \<Rightarrow> 0 | Some n \<Rightarrow> n, sole z)"
  by (simp add: content_size_def)

lemma desired_ready:
  assumes "d \<in> present_ids p \<or> d \<in> spacious w n" "d \<in> spacious w n \<Longrightarrow> has_room sha256 addr w cid d"
    and "w_registry w1 = w_registry w" "w_contents w1 = w_contents w"
  shows "d \<in> present_ids p \<or> (\<exists>node. map_of (reg_nodes (w_registry w1)) d = Some node \<and> sn_online (rn_state node)) \<and>
    has_room sha256 addr w1 cid d"
  using assms by (auto simp: spacious_def has_room_def)

lemma reconcile_content_sole:
  fixes sz :: u64
  assumes "rc_metadata rc = shared_ops" "rc_policy rc = default_desired_nodes"
    and "w_metadata w = sole s" "is_content_retained s cid" "map_of (ms_placements s) cid = Some p"
    and "refresh_current_placement rc sha256 cid w = (Inr (Some p'), w1)" "registry_nodes (w_registry w1) = Inr nodes"
    and "w_metadata w1 = sole z" "(case chunk_size_of cid z of None \<Rightarrow> 0 | Some n \<Rightarrow> n) = sz"
    and "replicate_to rc sha256 cid (default_desired_nodes \<lparr>pr_size = sz, pr_available_nodes = nodes,
        pr_existing_replicas = cp_replicas p', pr_desired_replica_count = cp_desired_replica_count p'\<rparr>) 0 w1 = (Inr n, w2)"
    and "w_metadata w2 = sole z'" "map_of (ms_placements z') cid = Some q"
  shows "reconcile_content rc sha256 cid w = (Inr n, fold w_emit (durability_events cid (durability p) (durability q)) w2)"
proof -
  have "on_metadata shared_load w = (Inr s, w)" "on_metadata shared_load w2 = (Inr z', w2)"
    "on_metadata (\<lambda>t. let (n, t1) = content_size shared_ops cid t in (Inr n, t1)) w1 = (Inr sz :: u64 fs_result, w1)"
    using assms(3,8,9,11) by (auto simp: on_metadata_iff content_size_sole)
  with assms(4-7,10,12) show ?thesis
    unfolding reconcile_content_def assms(1,2) shared_ops_sel by (simp add: Let_def)
qed

text \<open>
  C8: over in-memory content stores and a metadata store no one else uses, one reconciliation of a
  retained content by the default policy restores its durability: if some recorded replica is on line
  and holds the right bytes, and at least as many registered nodes as the durability target are on line
  with enough free space and room, then the pass succeeds. Afterwards as many recorded replicas as the
  target asks for are healthy or on nodes that are off line, whatever was recorded about them before,
  and the store of every node recorded as healthy holds bytes with the digest of the content.
\<close>

theorem reconcile_restores:
  assumes rc: "rc_metadata rc = shared_ops" "rc_policy rc = default_desired_nodes"
    and mem: "memory_world sha256 addr w" and s: "w_metadata w = sole s" "snapshot_ok s"
    and p: "is_content_retained s cid" "map_of (ms_placements s) cid = Some p"
    and src: "r \<in> set (cp_replicas p)" "serves sha256 addr w cid (rp_node_id r)"
    and room: "\<And>d. d \<in> spacious w (case chunk_size_of cid s of None \<Rightarrow> 0 | Some n \<Rightarrow> n) \<Longrightarrow> has_room sha256 addr w cid d"
    and enough: "cp_desired_replica_count p \<le> card (spacious w (case chunk_size_of cid s of None \<Rightarrow> 0 | Some n \<Rightarrow> n))"
  shows "\<exists>n w' q. reconcile_content rc sha256 cid w = (Inr n, w') \<and>
    map_of (ms_placements (shared_view (w_metadata w'))) cid = Some q \<and> durability q = DurHealthy \<and>
    cp_desired_replica_count q = cp_desired_replica_count p \<and>
    (\<forall>x \<in> set (cp_replicas q). rp_state x = Healthy \<longrightarrow>
      (\<exists>b. heap_blob (addr (rp_node_id x)) (w_contents w') cid = Some b \<and> matches sha256 cid b))"
proof -
  let ?sz = "case chunk_size_of cid s of None \<Rightarrow> 0 | Some n \<Rightarrow> n"
  define p' where "p' = p\<lparr>cp_replicas := map (\<lambda>r. r\<lparr>rp_state := probed sha256 addr w cid r\<rparr>) (cp_replicas p)\<rparr>"
  define z where "z = (put_placement cid p' s)\<lparr>ms_revision := ms_revision s + 1\<rparr>"
  from refresh_placement_memory [OF rc(1) mem s(1) p s(2)] obtain w1
    where w1: "refresh_current_placement rc sha256 cid w = (Inr (Some p'), w1)" "w_registry w1 = w_registry w"
      "w_contents w1 = w_contents w" "w_metadata w1 = sole z"
    unfolding p'_def z_def by blast
  have mem1: "memory_world sha256 addr w1" using memory_world_cong [OF mem w1(2,3)] .
  have z: "is_content_retained z cid" "map_of (ms_placements z) cid = Some p'"
    "chunk_size_of cid z = chunk_size_of cid s"
    using p unfolding z_def by simp_all (simp add: put_placement_def chunk_size_of_def)
  define request where "request = \<lparr>pr_size = ?sz, pr_available_nodes = map rn_state (bt_values (reg_nodes (w_registry w))),
    pr_existing_replicas = cp_replicas p', pr_desired_replica_count = cp_desired_replica_count p'\<rparr>"
  have spc: "spacious w1 n = spacious w n" for n by (simp add: spacious_def w1)
  have cnt: "cp_desired_replica_count p' = cp_desired_replica_count p" by (simp add: p'_def)
  note des = desired_count_met [OF mem enough [folded cnt] request_def]
  have nodes: "distinct (map rp_node_id (cp_replicas p'))"
    using snapshot_ok_placement(2) [OF s(2) p(2)] by (simp add: p'_def comp_def)
  define r' where "r' = r\<lparr>rp_state := probed sha256 addr w cid r\<rparr>"
  have "probed sha256 addr w cid r = Healthy" using src(2) by (auto simp: serves_def probed_def)
  then have r': "r' \<in> set (cp_replicas p')" "rp_state r' = Healthy"
    using src imageI [OF src(1), of "\<lambda>r. r\<lparr>rp_state := probed sha256 addr w cid r\<rparr>"]
    by (simp_all add: r'_def p'_def)
  have true': "records_true sha256 addr w1 cid p'"
    using probed_Healthy [of sha256 addr w cid] w1(2,3) by (auto simp: records_true_def p'_def serves_def)
  have pres: "present_nodes request = present_ids p'"
    by (auto simp: present_nodes_def present_ids_def request_def)
  have ds: "\<forall>d \<in> set (default_desired_nodes request). d \<in> present_ids p' \<or>
      (\<exists>node. map_of (reg_nodes (w_registry w1)) d = Some node \<and> sn_online (rn_state node)) \<and>
      has_room sha256 addr w1 cid d"
    using des(3) pres by (intro ballI desired_ready [OF _ room w1(2,3)]) blast+
  note dist = default.no_repeat [OF des(1)]
  from replicate_memory [OF rc(1) mem1 w1(4) z(1,2) nodes r' true' ds dist, of 0] obtain n w2 z' q
    where rep: "replicate_to rc sha256 cid (default_desired_nodes request) 0 w1 = (Inr n, w2)"
      "w_metadata w2 = sole z'" "map_of (ms_placements z') cid = Some q"
      "distinct (map rp_node_id (cp_replicas q))" "cp_desired_replica_count q = cp_desired_replica_count p'"
      "set (default_desired_nodes request) \<subseteq> present_ids q" "records_true sha256 addr w2 cid q" by blast
  have dur: "durability q = DurHealthy"
    by (rule durable_if_present [OF rep(4) dist rep(6)]) (simp add: rep(5) des(2))
  have regs: "registry_nodes (w_registry w1) = Inr (map rn_state (bt_values (reg_nodes (w_registry w))))"
    using mem1 by (simp add: registry_nodes_def memory_world_def w1(2))
  have "reconcile_content rc sha256 cid w =
      (Inr n, fold w_emit (durability_events cid (durability p) (durability q)) w2)"
    by (rule reconcile_content_sole [OF rc s(1) p w1(1) regs w1(4) _ rep(1) [unfolded request_def] rep(2,3)]) (simp add: z(3))
  with rep(2,3,5,7) dur cnt show ?thesis
    by (auto simp: records_true_def serves_def simp del: durability_DurHealthy)
qed

subsection \<open>A file on one node of two\<close>

definition demo_digest :: content_id where
  "demo_digest = for_bytes (\<lambda>bs. bs) [7, 8]"

definition demo_created :: metadata_snapshot where
  "demo_created = snd (projr (create_edit (FileId 2) [] ''f'' 7 8 metadata_snapshot_default))"

definition demo_stored :: metadata_snapshot where
  "demo_stored = snd (projr (write_edit 2 (DeviceId ''n.a'') demo_digest (FileId 2) [7, 8] None 9 demo_created))"

definition demo_pair_registry :: "content_heap content_registry" where
  "demo_pair_registry = snd (registry_register (demo_node\<lparr>sn_device_id := DeviceId ''n.b''\<rparr>)
     (in_memory_store (\<lambda>bs. bs) 1) demo_registry)"

definition demo_pair_heap :: content_heap where
  "demo_pair_heap = demo_heap(0 := snd (imc_put (\<lambda>bs. bs) [7, 8] (demo_heap 0)))"

definition demo_pair :: "(shared_metadata, content_heap) world" where
  "demo_pair = \<lparr>w_metadata = sole demo_stored, w_contents = demo_pair_heap, w_registry = demo_pair_registry,
     w_events = RecordingEventSink False []\<rparr>"

definition demo_addr :: "device_id \<Rightarrow> nat" where
  "demo_addr d = (if d = DeviceId ''n.a'' then 0 else 1)"

definition demo_placed :: content_placement where
  "demo_placed = \<lparr>cp_content_id = demo_digest, cp_desired_replica_count = 2,
     cp_replicas = [\<lparr>rp_node_id = DeviceId ''n.a'', rp_state = Healthy\<rparr>]\<rparr>"

lemma demo_stored_ok: "snapshot_ok demo_stored"
proof -
  have run: "create_edit (FileId 2) [] ''f'' 7 8 metadata_snapshot_default = Inr (FileId 2, demo_created)" by code_simp
  have "snapshot_ok demo_created"
    by (rule commit_step_ok [OF step_create [OF demo_names(2) _ run] snapshot_ok_default])
       (simp add: metadata_snapshot_default_def)
  moreover have "\<not> isl (write_edit 2 (DeviceId ''n.a'') demo_digest (FileId 2) [7, 8] None 9 demo_created)"
    by code_simp
  then obtain out where "write_edit 2 (DeviceId ''n.a'') demo_digest (FileId 2) [7, 8] None 9 demo_created =
      Inr (out, demo_stored)"
    unfolding demo_stored_def by (metis prod.collapse sum.collapse(2))
  ultimately show ?thesis using commit_step_ok [OF step_write] by blast
qed

lemma demo_stored_facts:
  "is_content_retained demo_stored demo_digest" "map_of (ms_placements demo_stored) demo_digest = Some demo_placed"
  "chunk_size_of demo_digest demo_stored = Some 2"
  by code_simp+

lemma demo_pair_nodes:
  "map_of (reg_nodes demo_pair_registry) =
     [DeviceId ''n.a'' \<mapsto> \<lparr>rn_state = demo_node, rn_store = in_memory_store (\<lambda>bs. bs) 0\<rparr>,
      DeviceId ''n.b'' \<mapsto> \<lparr>rn_state = demo_node\<lparr>sn_device_id := DeviceId ''n.b''\<rparr>,
        rn_store = in_memory_store (\<lambda>bs. bs) 1\<rparr>]"
  "bt_ok (reg_nodes demo_pair_registry)" "\<not> reg_poisoned demo_pair_registry"
  by (simp add: demo_pair_registry_def demo_registry_def registry_register_def registry_new_def demo_node_def fun_upd_twist)
     (simp_all add: demo_pair_registry_def demo_registry_def registry_register_def registry_new_def demo_node_def bt_ok_def)

lemma demo_pair_heap_alive: "\<not> imc_poisoned (demo_pair_heap a)"
  by (simp add: demo_pair_heap_def demo_heap_def in_memory_content_new_def imc_put_alive)

lemma demo_pair_world: "memory_world (\<lambda>bs. bs) demo_addr demo_pair"
  using demo_pair_nodes demo_pair_heap_alive
  by (auto simp: memory_world_def memory_registry_def demo_pair_def demo_addr_def demo_node_def inj_on_def)

lemma demo_pair_room: "has_room (\<lambda>bs. bs) demo_addr demo_pair demo_digest d"
proof -
  have "\<not> isl (fst (imc_put (\<lambda>bs. bs) [7, 8] (snd (imc_delete demo_digest (demo_pair_heap 0)))))"
    "\<not> isl (fst (imc_put (\<lambda>bs. bs) [7, 8] (snd (imc_delete demo_digest (demo_pair_heap 1)))))"
    by code_simp+
  then show ?thesis by (auto simp: has_room_def demo_pair_def demo_addr_def demo_digest_def matches_def)
qed

lemma demo_pair_spacious: "spacious demo_pair 2 = {DeviceId ''n.a'', DeviceId ''n.b''}"
  by (auto simp: spacious_def demo_pair_def demo_pair_nodes demo_node_def)

theorem reconcile_restores_witness:
  "\<exists>n w' q. reconcile_content (reconciler demo_service) (\<lambda>bs. bs) demo_digest demo_pair = (Inr n, w') \<and>
    map_of (ms_placements (shared_view (w_metadata w'))) demo_digest = Some q \<and> durability q = DurHealthy \<and>
    cp_desired_replica_count q = cp_desired_replica_count demo_placed \<and>
    (\<forall>x \<in> set (cp_replicas q). rp_state x = Healthy \<longrightarrow>
      (\<exists>b. heap_blob (demo_addr (rp_node_id x)) (w_contents w') demo_digest = Some b \<and> matches (\<lambda>bs. bs) demo_digest b))"
proof (rule reconcile_restores)
  show "rc_metadata (reconciler demo_service) = shared_ops"
    "rc_policy (reconciler demo_service) = default_desired_nodes"
    by (simp_all add: reconciler_def demo_service_def filesystem_service_new_def with_components_def)
  show "memory_world (\<lambda>bs. bs) demo_addr demo_pair" by (rule demo_pair_world)
  show "w_metadata demo_pair = sole demo_stored" by (simp add: demo_pair_def)
  show "snapshot_ok demo_stored" by (rule demo_stored_ok)
  show "is_content_retained demo_stored demo_digest"
    "map_of (ms_placements demo_stored) demo_digest = Some demo_placed" by (rule demo_stored_facts)+
  show "\<lparr>rp_node_id = DeviceId ''n.a'', rp_state = Healthy\<rparr> \<in> set (cp_replicas demo_placed)"
    by (simp add: demo_placed_def)
  have "heap_blob 0 demo_pair_heap demo_digest = Some [7, 8]" by code_simp
  then show "serves (\<lambda>bs. bs) demo_addr demo_pair demo_digest
      (rp_node_id \<lparr>rp_node_id = DeviceId ''n.a'', rp_state = Healthy\<rparr>)"
    by (simp add: serves_def demo_pair_def demo_pair_nodes demo_addr_def demo_node_def demo_digest_def)
  show "has_room (\<lambda>bs. bs) demo_addr demo_pair demo_digest d" for d by (rule demo_pair_room)
  show "cp_desired_replica_count demo_placed \<le>
      card (spacious demo_pair (case chunk_size_of demo_digest demo_stored of None \<Rightarrow> 0 | Some n \<Rightarrow> n))"
    by (simp add: demo_stored_facts demo_pair_spacious demo_placed_def)
qed

end
