(* ===== verification/Join_Retry.thy ===== *)
theory Join_Retry
  imports Peer_Link
begin

section \<open>Joining over an unreliable network\<close>

text \<open>
  \<open>join_cluster\<close> of a device and \<open>accept_member\<close> of the coordinator, composed over a link. A
  join may fail at any point: connections and answers get lost, the device's disk fails, it crashes after
  the coordinator accepted. The request identifier kept on the device's disk makes a retry find
  the credential issued before.
\<close>

record 'c pairing =
  pr_link :: "'c link_env"
  pr_agent :: agent_env
  pr_invitation :: pairing_invitation
  pr_token :: string
  pr_local :: socket_addr

abbreviation coordinator_env :: "'c pairing \<Rightarrow> agent_env" where
  "coordinator_env X \<equiv> le_agent (pr_link X)"

abbreviation joiner :: "'c pairing \<Rightarrow> device_id" where
  "joiner X \<equiv> le_client (pr_link X)"

definition pairing_ok :: "'c pairing \<Rightarrow> bool" where
  "pairing_ok X \<longleftrightarrow>
     invitation_decode (ae_tokens (pr_agent X)) (pr_token X) = Inr (pr_invitation X) \<and>
     pin_coordinator_device_id (pr_invitation X) = le_device (pr_link X) \<and>
     json_total (ae_json (coordinator_env X)) \<and> \<not> cst_poisoned (ae_store (coordinator_env X)) \<and>
     token_codec_ok (ae_tokens (coordinator_env X))"

subsection \<open>The coordinator\<close>

definition server_cluster :: "'c pairing \<Rightarrow> ('c, unit) agent \<Rightarrow> stored_cluster \<Rightarrow> bool" where
  "server_cluster X sv c \<longleftrightarrow> agent_ok (coordinator_env X) sv \<and> healthy (ag_disk sv) \<and>
     agent_wf (coordinator_env X) (agent_view (coordinator_env X) sv) \<and>
     ags_cluster (agent_view (coordinator_env X) sv) = Some c \<and> scl_role c = Coordinator \<and>
     scl_id c = pin_cluster_id (pr_invitation X) \<and> scl_coordinator_device_id c = le_device (pr_link X) \<and>
     scl_coordinator c = le_endpoint (pr_link X)"

definition unused_request :: "stored_cluster \<Rightarrow> join_request_id \<Rightarrow> bool" where
  "unused_request c request \<longleftrightarrow> request \<notin> aj_request_id ` set (scl_accepted_joins c)"

text \<open>The invitation is outstanding and the device is no member.\<close>

definition server_open :: "'c pairing \<Rightarrow> ('c, unit) agent \<Rightarrow> (join_request_id \<Rightarrow> bool) \<Rightarrow> bool" where
  "server_open X sv P \<longleftrightarrow> (\<exists>c. server_cluster X sv c \<and> scl_invite_token c = Some (pr_token X) \<and>
     joiner X \<notin> set (member_devices c) \<and> (\<forall>request. P request \<longrightarrow> unused_request c request))"

definition server_accepted :: "'c pairing \<Rightarrow> ('c, unit) agent \<Rightarrow> join_request_id \<Rightarrow> string \<Rightarrow> bool" where
  "server_accepted X sv request credential \<longleftrightarrow> (\<exists>c. server_cluster X sv c \<and>
     (\<exists>a \<in> set (scl_accepted_joins c). aj_request_id a = request \<and> aj_device_id a = joiner X \<and> aj_credential a = credential))"

definition summary_fits :: "'c pairing \<Rightarrow> cluster_summary \<Rightarrow> bool" where
  "summary_fits X summary \<longleftrightarrow> su_id summary = pin_cluster_id (pr_invitation X) \<and>
     su_coordinator_device_id summary = le_device (pr_link X) \<and> su_coordinator summary = le_endpoint (pr_link X)"

lemma server_cluster_summary: "server_cluster X sv c \<Longrightarrow> summary_fits X (cluster_summary_of c)"
  by (simp add: server_cluster_def summary_fits_def cluster_summary_of_def)

lemma find_unique: "distinct (map f xs) \<Longrightarrow> x \<in> set xs \<Longrightarrow> find (\<lambda>y. f y = f x) xs = Some x"
  by (induction xs) (auto simp: image_iff)

text \<open>What the coordinator computes for the request of a device it would let in or has let in.\<close>

lemma accept_edit_ready:
  assumes "server_cluster X sv c" "mb_device_id member = joiner X"
    and "scl_invite_token c = Some (pr_token X) \<and> joiner X \<notin> set (member_devices c) \<and> unused_request c request \<or>
      (\<exists>a \<in> set (scl_accepted_joins c). aj_request_id a = request \<and> aj_device_id a = joiner X)"
  shows "\<exists>summary issued roster s1 c1. accept_member_edit (coordinator_env X) (pr_token X) member request credential
      (agent_view (coordinator_env X) sv) = Inr ((summary, issued, roster), s1) \<and> summary_fits X summary \<and>
    ags_cluster s1 = Some c1 \<and> scl_role c1 = Coordinator \<and> scl_id c1 = scl_id c \<and>
    scl_coordinator_device_id c1 = scl_coordinator_device_id c \<and> scl_coordinator c1 = scl_coordinator c \<and>
    (\<exists>a \<in> set (scl_accepted_joins c1). aj_request_id a = request \<and> aj_device_id a = joiner X \<and> aj_credential a = issued)"
proof -
  let ?s = "agent_view (coordinator_env X) sv"
  have c: "ags_cluster ?s = Some c" "scl_role c = Coordinator" using assms(1) by (simp_all add: server_cluster_def)
  have fits: "summary_fits X (cluster_summary_of c)" by (rule server_cluster_summary [OF assms(1)])
  from assms(3) show ?thesis
  proof
    assume ready: "scl_invite_token c = Some (pr_token X) \<and> joiner X \<notin> set (member_devices c) \<and> unused_request c request"
    then have "find (\<lambda>a. aj_request_id a = request) (scl_accepted_joins c) = None"
      by (auto simp: unused_request_def find_None_iff)
    moreover have "\<not> list_ex (\<lambda>existing. mb_device_id (stm_member existing) = mb_device_id member) (scl_members c)"
      using ready assms(2) by (force simp: member_devices_def list_ex_iff)
    ultimately show ?thesis using c ready fits assms(2)
      by (simp add: accept_member_edit_def Let_def summary_fits_def cluster_summary_of_def)
  next
    assume "\<exists>a \<in> set (scl_accepted_joins c). aj_request_id a = request \<and> aj_device_id a = joiner X"
    then obtain a where a: "a \<in> set (scl_accepted_joins c)" "aj_request_id a = request" "aj_device_id a = joiner X" by blast
    have "distinct (map aj_request_id (scl_accepted_joins c))"
      using assms(1) c by (simp add: server_cluster_def agent_wf_def coordinator_wf_def)
    from find_unique [OF this a(1)] a(2) have "find (\<lambda>a. aj_request_id a = request) (scl_accepted_joins c) = Some a" by simp
    with c a fits assms(2) show ?thesis by (auto simp: accept_member_edit_def)
  qed
qed

lemma server_join:
  assumes "pairing_ok X" "mb_device_id member = joiner X" "validate_member member = Inr ()"
    and "server_open X sv (\<lambda>r. r = request) \<or> (\<exists>credential. server_accepted X sv request credential)"
    and "handle_remote (coordinator_env X) P rng now (joiner X) (Inr (enveloped (RemoteJoin (pr_token X) member request))) sv = (reaction, sv')"
  shows "\<exists>credential summary roster. server_accepted X sv' request credential \<and> summary_fits X summary \<and>
    (reaction = Replies (JoinAccepted summary credential roster) None \<and> ag_dropped_responses sv' = ag_dropped_responses sv \<or>
     reaction = Silent \<and> 0 < ag_dropped_responses sv)"
proof -
  let ?A = "coordinator_env X"
  let ?secret = "new_secret (rng 0) (rng 1)"
  obtain c where c: "server_cluster X sv c"
    and ready: "scl_invite_token c = Some (pr_token X) \<and> joiner X \<notin> set (member_devices c) \<and> unused_request c request \<or>
      (\<exists>a \<in> set (scl_accepted_joins c). aj_request_id a = request \<and> aj_device_id a = joiner X)"
    using assms(4) unfolding server_open_def server_accepted_def by blast
  obtain summary issued roster s1 c1 where
    edit: "accept_member_edit ?A (pr_token X) member request ?secret (agent_view ?A sv) = Inr ((summary, issued, roster), s1)"
    and fits: "summary_fits X summary" and c1: "ags_cluster s1 = Some c1" "scl_role c1 = Coordinator" "scl_id c1 = scl_id c"
      "scl_coordinator_device_id c1 = scl_coordinator_device_id c" "scl_coordinator c1 = scl_coordinator c"
    and a: "\<exists>a \<in> set (scl_accepted_joins c1). aj_request_id a = request \<and> aj_device_id a = joiner X \<and> aj_credential a = issued"
    using accept_edit_ready [OF c assms(2) ready, of ?secret] by blast
  have sv: "healthy (ag_disk sv)" "agent_ok ?A sv" using c by (simp_all add: server_cluster_def)
  obtain d' where d': "agent_update ?A (accept_member_edit ?A (pr_token X) member request ?secret) (ag_disk sv) = (Inr (summary, issued, roster), d')"
    "healthy d'" "cluster_ok (ae_json ?A) (ae_store ?A) d'" "cluster_view (ae_json ?A) (ae_store ?A) d' = bump s1"
    using cluster_update_healthy [where f = "accept_member_edit ?A (pr_token X) member request ?secret", OF sv] edit assms(1)
    unfolding pairing_ok_def by blast
  have wf: "agent_wf ?A (bump s1)"
    using agent_edit_wf [OF accept [OF edit]] c assms(1) by (simp add: server_cluster_def pairing_ok_def)
  let ?sv = "sv\<lparr>ag_disk := d'\<rparr>"
  have acc: "server_accepted X sv2 request issued" if "ag_disk sv2 = d'" for sv2
    unfolding server_accepted_def server_cluster_def using d' wf c1 a c that
    by (intro exI [of _ c1]) (simp add: server_cluster_def)
  have "accept_member ?A rng (pr_token X) member request (joiner X) (ag_disk sv) = (Inr (JoinAccepted summary issued roster), d')"
    using d'(1) assms(2,3) by (simp add: accept_member_def)
  then have disp: "dispatch_remote ?A P rng now (RemoteJoin (pr_token X) member request) (joiner X) sv = (Inr (JoinAccepted summary issued roster, None), ?sv)"
    by (simp add: dispatch_remote_def on_disk_def)
  show ?thesis
  proof (cases "ag_dropped_responses sv")
    case 0
    with disp assms(5) have "reaction = Replies (JoinAccepted summary issued roster) None" "sv' = ?sv"
      by (simp_all add: handle_remote_def drop_response_def)
    with acc [of sv'] fits 0 show ?thesis by auto
  next
    case (Suc k)
    with disp assms(5) have "reaction = Silent" "sv' = ?sv\<lparr>ag_dropped_responses := k\<rparr>"
      by (simp_all add: handle_remote_def drop_response_def)
    with acc [of sv'] fits Suc show ?thesis by auto
  qed
qed

text \<open>The whole exchange: no answer, with the coordinator as before or having accepted, or the acceptance.\<close>

lemma send_join:
  assumes "pairing_ok X" "mb_device_id member = joiner X" "validate_member member = Inr ()"
    and "server_open X (pl_server n) (\<lambda>r. r = request) \<or> (\<exists>credential. server_accepted X (pl_server n) request credential)"
    and "send_request (link_channel (pr_link X)) (le_endpoint (pr_link X)) (le_device (pr_link X))
      (RemoteJoin (pr_token X) member request) n = (q, n')"
  obtains (unsent) e where "q = Inl e" "\<not> is_refusal e" "pl_server n' = pl_server n" "pl_script n \<noteq> []"
    | (silent) e credential where "q = Inl e" "\<not> is_refusal e" "server_accepted X (pl_server n') request credential"
        "pl_script n \<noteq> [] \<or> 0 < ag_dropped_responses (pl_server n)"
    | (accepted) summary credential roster where "q = Inr (JoinAccepted summary credential roster)" "summary_fits X summary"
        "server_accepted X (pl_server n') request credential"
  using assms(5)
proof (cases rule: send_request_cases)
  case (unsent e)
  then show thesis using that(1) by blast
next
  case (handled reaction server k)
  from server_join [OF assms(1-4) handled(1)] obtain credential summary roster where
    s: "server_accepted X server request credential" "summary_fits X summary"
      "reaction = Replies (JoinAccepted summary credential roster) None \<or> reaction = Silent \<and> 0 < ag_dropped_responses (pl_server n)"
    by blast
  from handled(3) show thesis
  proof (elim disjE exE conjE)
    fix e assume "q = Inl e" "\<not> is_refusal e" "pl_script n \<noteq> []"
    with s handled(2) that(2) show thesis by blast
  next
    fix e assume "q = Inl e" "\<not> is_refusal e" "reaction = Silent"
    with s handled(2) that(2) show thesis by auto
  next
    fix response rest
    assume "reaction_replies reaction = ReplyMessage response # rest" "q = open_response (enveloped response)"
    with s handled(2) that(3) show thesis by (auto simp: reaction_replies_def)
  qed
qed

subsection \<open>The joining device\<close>

definition pending_fits :: "'c pairing \<Rightarrow> pending_join \<Rightarrow> bool" where
  "pending_fits X p \<longleftrightarrow> pj_coordinator p = le_endpoint (pr_link X) \<and> pj_invite_token p = pr_token X \<and>
     pj_cluster_id p = pin_cluster_id (pr_invitation X) \<and> pj_coordinator_device_id p = le_device (pr_link X)"

definition waiting :: "'c pairing \<Rightarrow> pending_join \<Rightarrow> ('c, unit) agent \<Rightarrow> bool" where
  "waiting X p sv \<longleftrightarrow> pending_fits X p \<and> (server_open X sv (\<lambda>r. r = pj_request_id p) \<or> (\<exists>credential. server_accepted X sv (pj_request_id p) credential))"

definition joined :: "'c pairing \<Rightarrow> agent_state \<Rightarrow> ('c, unit) agent \<Rightarrow> bool" where
  "joined X s sv \<longleftrightarrow> (\<exists>c request. ags_cluster s = Some c \<and> scl_coordinator c = le_endpoint (pr_link X) \<and>
     scl_id c = pin_cluster_id (pr_invitation X) \<and> scl_coordinator_device_id c = le_device (pr_link X) \<and>
     scl_role c = Member \<and> server_accepted X sv request (scl_credential c))"

text \<open>Where a device and the coordinator can be between two attempts.\<close>

definition phase :: "'c pairing \<Rightarrow> agent_state \<Rightarrow> ('c, unit) agent \<Rightarrow> bool" where
  "phase X s sv \<longleftrightarrow> joined X s sv \<or> ags_cluster s = None \<and>
     (case ags_pending_join s of None \<Rightarrow> server_open X sv (\<lambda>_. False) | Some p \<Rightarrow> waiting X p sv)"

definition join_phase :: "'c pairing \<Rightarrow> ('d, 'c peer_link) agent \<Rightarrow> bool" where
  "join_phase X w \<longleftrightarrow> agent_ok (pr_agent X) w \<and> ags_device_id (agent_view (pr_agent X) w) = joiner X \<and>
     validate_member (own_member (agent_view (pr_agent X) w) (pr_local X) 0) = Inr () \<and>
     phase X (agent_view (pr_agent X) w) (pl_server (ag_net w))"

text \<open>Nothing fails any more.\<close>

definition calm_disk :: "'c pairing \<Rightarrow> ('d, 'n) agent \<Rightarrow> bool" where
  "calm_disk X w \<longleftrightarrow> healthy (ag_disk w) \<and> ag_failed_commits w = 0 \<and>
     \<not> cst_poisoned (ae_store (pr_agent X)) \<and> json_total (ae_json (pr_agent X))"

definition calm :: "'c pairing \<Rightarrow> ('d, 'c peer_link) agent \<Rightarrow> bool" where
  "calm X w \<longleftrightarrow> calm_disk X w \<and> pl_script (ag_net w) = [] \<and> ag_dropped_responses (pl_server (ag_net w)) = 0"

lemma phase_bump [simp]: "phase X (bump s) sv = phase X s sv" "joined X (bump s) sv = joined X s sv"
  by (simp_all add: phase_def joined_def)

lemma validate_own_now: "validate_member (own_member s e now) = validate_member (own_member s e now')"
  by (simp add: validate_member_def own_member_def)

lemma validate_own_bump: "validate_member (own_member (bump s) e now) = validate_member (own_member s e now)"
  by (simp add: validate_member_def own_member_def)

lemma load_step:
  assumes "agent_ok A w" "on_disk (agent_load A) w = (q, w1)"
  obtains d where "w1 = w\<lparr>ag_disk := d\<rparr>" "cluster_ok (ae_json A) (ae_store A) d" "cluster_view (ae_json A) (ae_store A) d = agent_view A w"
    "q = Inr (agent_view A w) \<and> (healthy (ag_disk w) \<and> \<not> cst_poisoned (ae_store A) \<longrightarrow> healthy d) \<or>
     (\<exists>e. q = Inl e) \<and> \<not> (healthy (ag_disk w) \<and> \<not> cst_poisoned (ae_store A))"
proof -
  obtain d where d: "agent_load A (ag_disk w) = (q, d)" "w1 = w\<lparr>ag_disk := d\<rparr>"
    using assms(2) by (auto simp: on_disk_def split: prod.splits)
  from cs.load_law [OF assms(1) d(1)] cluster_load_healthy [OF _ assms(1)] d that show thesis by fastforce
qed

lemma update_step:
  assumes "agent_ok A w" "on_disk (agent_update A f) w = (q, w1)"
  obtains (changed) d x s where "w1 = w\<lparr>ag_disk := d\<rparr>" "cluster_ok (ae_json A) (ae_store A) d" "q = Inr x"
      "f (agent_view A w) = Inr (x, s)" "cluster_view (ae_json A) (ae_store A) d = bump s"
      "healthy (ag_disk w) \<and> \<not> cst_poisoned (ae_store A) \<and> json_total (ae_json A) \<longrightarrow> healthy d"
    | (kept) d e where "w1 = w\<lparr>ag_disk := d\<rparr>" "cluster_ok (ae_json A) (ae_store A) d" "q = Inl e"
      "cluster_view (ae_json A) (ae_store A) d = agent_view A w"
      "\<not> (healthy (ag_disk w) \<and> \<not> cst_poisoned (ae_store A) \<and> json_total (ae_json A)) \<or> (\<exists>e. f (agent_view A w) = Inl e)"
proof -
  obtain d where d: "agent_update A f (ag_disk w) = (q, d)" "w1 = w\<lparr>ag_disk := d\<rparr>"
    using assms(2) by (auto simp: on_disk_def split: prod.splits)
  from cs.update_law [OF assms(1) d(1)] show thesis
  proof (elim conjE disjE exE)
    fix x s
    assume *: "cluster_ok (ae_json A) (ae_store A) d" "f (agent_view A w) = Inr (x, s)" "q = Inr x"
      "cluster_view (ae_json A) (ae_store A) d = bump s"
    from cluster_update_healthy [where f = f and x = x and s = s, OF _ assms(1)] *(2) d(1)
    have "healthy (ag_disk w) \<and> \<not> cst_poisoned (ae_store A) \<and> json_total (ae_json A) \<longrightarrow> healthy d" by auto
    with * d(2) changed show thesis by blast
  next
    fix e
    assume *: "cluster_ok (ae_json A) (ae_store A) d" "q = Inl e" "cluster_view (ae_json A) (ae_store A) d = agent_view A w"
    have "\<not> (healthy (ag_disk w) \<and> \<not> cst_poisoned (ae_store A) \<and> json_total (ae_json A)) \<or> (\<exists>e. f (agent_view A w) = Inl e)"
    proof (cases "f (agent_view A w)")
      case (Inr y)
      then show ?thesis using cluster_update_healthy [OF _ assms(1), of f "fst y" "snd y"] d(1) *(2) by auto
    qed simp
    with * d(2) kept show thesis by blast
  qed
qed

text \<open>From the acceptance on.\<close>

lemma finish_step:
  fixes w :: "('d, 'c peer_link) agent"
  assumes "join_phase X w" "ags_cluster (agent_view (pr_agent X) w) = None" "ags_pending_join (agent_view (pr_agent X) w) = Some p"
    and "pending_fits X p" "summary_fits X summary" "server_accepted X (pl_server (ag_net w)) (pj_request_id p) credential"
    and "finish_join (pr_agent X) p (JoinAccepted summary credential roster) w = (r, w')"
  shows "join_phase X w' \<and> (calm_disk X w \<longrightarrow> r = Inr (Joined summary) \<and> joined X (agent_view (pr_agent X) w') (pl_server (ag_net w')))"
proof -
  let ?A = "pr_agent X"
  have ok: "agent_ok ?A w" using assms(1) by (simp add: join_phase_def)
  have run: "op_bind injected_failure (\<lambda>_. op_bind (on_disk (agent_update ?A
      (commit_join_edit (pj_request_id p) summary credential roster))) (\<lambda>_. op_lift (Inr (Joined summary)))) w = (r, w')"
    using assms(4,5,7) by (simp add: finish_join_def pending_fits_def summary_fits_def)
  show ?thesis
  proof (cases "ag_failed_commits w")
    case (Suc k)
    with run have "w' = w\<lparr>ag_failed_commits := k\<rparr>" by (simp add: injected_failure_def)
    with assms(1) Suc show ?thesis by (simp add: join_phase_def calm_disk_def)
  next
    case 0
    then have "injected_failure w = (Inr (), w)" by (simp add: injected_failure_def)
    then have run1: "op_bind (on_disk (agent_update ?A (commit_join_edit (pj_request_id p) summary credential roster)))
        (\<lambda>_. op_lift (Inr (Joined summary))) w = (r, w')" using run by simp
    obtain q w1 where u: "on_disk (agent_update ?A (commit_join_edit (pj_request_id p) summary credential roster)) w = (q, w1)" by fastforce
    from ok u show ?thesis
    proof (cases rule: update_step)
      case (changed d x s)
      have "joined X s (pl_server (ag_net w))" "ags_device_id s = ags_device_id (agent_view ?A w)"
        "ags_device_name s = ags_device_name (agent_view ?A w)"
        using changed(4) assms(2,3,5,6) by (auto simp: commit_join_edit_def joined_def summary_fits_def)
      moreover from this(2,3) assms(1) have "validate_member (own_member s (pr_local X) 0) = Inr ()"
        by (auto simp: join_phase_def own_member_def)
      moreover have "w' = w\<lparr>ag_disk := d\<rparr>" "r = Inr (Joined summary)" using changed(1,3) u run1 by simp_all
      ultimately show ?thesis using changed(2,5) assms(1)
        by (simp add: join_phase_def phase_def validate_own_bump)
    next
      case (kept d e)
      have "\<exists>y. commit_join_edit (pj_request_id p) summary credential roster (agent_view ?A w) = Inr y"
        using assms(2,3) by (simp add: commit_join_edit_def)
      with kept u run1 assms(1) show ?thesis by (auto simp: join_phase_def calm_disk_def)
    qed
  qed
qed

text \<open>From the request on.\<close>

lemma request_step:
  fixes w :: "('d, 'c peer_link) agent"
  assumes "pairing_ok X" "join_phase X w" "ags_cluster (agent_view (pr_agent X) w) = None"
    and "ags_pending_join (agent_view (pr_agent X) w) = Some p"
    and "op_bind (request_join (pr_agent X) (link_channel (pr_link X)) (le_endpoint (pr_link X)) p
        (own_member (agent_view (pr_agent X) w) (pr_local X) now)) (finish_join (pr_agent X) p) w = (r, w')"
  shows "join_phase X w' \<and> (calm X w \<longrightarrow> (\<exists>summary. r = Inr (Joined summary)) \<and>
    joined X (agent_view (pr_agent X) w') (pl_server (ag_net w')))"
proof -
  let ?A = "pr_agent X"
  let ?member = "own_member (agent_view ?A w) (pr_local X) now"
  have wait: "waiting X p (pl_server (ag_net w))" using assms(2-4) by (auto simp: join_phase_def phase_def joined_def)
  then have fits: "pending_fits X p" by (simp add: waiting_def)
  have member: "mb_device_id ?member = joiner X" "validate_member ?member = Inr ()"
    using assms(2) by (simp_all add: join_phase_def validate_own_now [of _ _ now 0]) (simp add: own_member_def)
  obtain q n' where send: "send_request (link_channel (pr_link X)) (le_endpoint (pr_link X)) (le_device (pr_link X))
      (RemoteJoin (pr_token X) ?member (pj_request_id p)) (ag_net w) = (q, n')" by fastforce
  then have net: "on_net (send_request (link_channel (pr_link X)) (le_endpoint (pr_link X)) (pj_coordinator_device_id p)
      (RemoteJoin (pj_invite_token p) ?member (pj_request_id p))) w = (q, w\<lparr>ag_net := n'\<rparr>)"
    using fits by (simp add: on_net_def pending_fits_def)
  have failed: "r = Inl e \<and> w' = w\<lparr>ag_net := n'\<rparr>" if "q = Inl e" "\<not> is_refusal e" for e
    using assms(5) net that by (simp add: request_join_def)
  have keep: "join_phase X (w\<lparr>ag_net := n'\<rparr>)" if "waiting X p (pl_server n')"
    using that assms(2-4) by (simp add: join_phase_def phase_def)
  from wait have "server_open X (pl_server (ag_net w)) (\<lambda>r. r = pj_request_id p) \<or>
      (\<exists>credential. server_accepted X (pl_server (ag_net w)) (pj_request_id p) credential)" by (simp add: waiting_def)
  from assms(1) member this send show ?thesis
  proof (cases rule: send_join)
    case (unsent e)
    with failed keep wait show ?thesis by (simp add: calm_def)
  next
    case (silent e credential)
    with fits have "waiting X p (pl_server n')" by (auto simp: waiting_def)
    with silent failed keep show ?thesis by (auto simp: calm_def)
  next
    case (accepted summary credential roster)
    let ?w = "w\<lparr>ag_net := n'\<rparr>"
    have "waiting X p (pl_server n')" using accepted(3) fits by (auto simp: waiting_def)
    then have "join_phase X ?w" by (rule keep)
    moreover have "finish_join ?A p (JoinAccepted summary credential roster) ?w = (r, w')"
      using assms(5) net accepted(1) by (simp add: request_join_def)
    ultimately have "join_phase X w' \<and> (calm_disk X ?w \<longrightarrow> r = Inr (Joined summary) \<and> joined X (agent_view ?A w') (pl_server (ag_net w')))"
      using finish_step [of X ?w p summary credential roster r w'] assms(3,4) fits accepted(2,3) by simp
    then show ?thesis by (auto simp: calm_def calm_disk_def)
  qed
qed

lemma join_phase_disk:
  assumes "join_phase X w" "w1 = w\<lparr>ag_disk := d\<rparr>" "cluster_ok (ae_json (pr_agent X)) (ae_store (pr_agent X)) d"
    "cluster_view (ae_json (pr_agent X)) (ae_store (pr_agent X)) d = agent_view (pr_agent X) w"
  shows "join_phase X w1"
  using assms by (simp add: join_phase_def)

text \<open>From the second load on.\<close>

lemma load_request_step:
  fixes w :: "('d, 'c peer_link) agent"
  assumes "pairing_ok X" "join_phase X w" "ags_cluster (agent_view (pr_agent X) w) = None"
    and "ags_pending_join (agent_view (pr_agent X) w) = Some p"
    and "op_bind (on_disk (agent_load (pr_agent X))) (\<lambda>state.
        op_bind (request_join (pr_agent X) (link_channel (pr_link X)) (le_endpoint (pr_link X)) p
          (own_member state (pr_local X) now)) (finish_join (pr_agent X) p)) w = (r, w')"
  shows "join_phase X w' \<and> (calm X w \<longrightarrow> (\<exists>summary. r = Inr (Joined summary)) \<and>
    joined X (agent_view (pr_agent X) w') (pl_server (ag_net w')))"
proof -
  let ?A = "pr_agent X"
  obtain q w1 where 1: "on_disk (agent_load ?A) w = (q, w1)" by fastforce
  have ok: "agent_ok ?A w" using assms(2) by (simp add: join_phase_def)
  obtain d where d: "w1 = w\<lparr>ag_disk := d\<rparr>" "cluster_ok (ae_json ?A) (ae_store ?A) d" "cluster_view (ae_json ?A) (ae_store ?A) d = agent_view ?A w"
    and q: "q = Inr (agent_view ?A w) \<and> (healthy (ag_disk w) \<and> \<not> cst_poisoned (ae_store ?A) \<longrightarrow> healthy d) \<or>
      (\<exists>e. q = Inl e) \<and> \<not> (healthy (ag_disk w) \<and> \<not> cst_poisoned (ae_store ?A))"
    by (rule load_step [OF ok 1])
  have ph: "join_phase X w1" by (rule join_phase_disk [OF assms(2) d])
  show ?thesis
  proof (cases q)
    case (Inl e)
    with assms(5) 1 have "w' = w1" by simp
    with ph q Inl show ?thesis by (auto simp: calm_def calm_disk_def)
  next
    case (Inr s)
    with q d have "s = agent_view ?A w1" by auto
    with assms(5) 1 Inr have "op_bind (request_join ?A (link_channel (pr_link X)) (le_endpoint (pr_link X)) p
        (own_member (agent_view ?A w1) (pr_local X) now)) (finish_join ?A p) w1 = (r, w')" by simp
    with request_step [OF assms(1) ph] assms(3,4) d
    have "join_phase X w' \<and> (calm X w1 \<longrightarrow> (\<exists>summary. r = Inr (Joined summary)) \<and>
      joined X (agent_view ?A w') (pl_server (ag_net w')))" by simp
    moreover have "calm X w \<longrightarrow> calm X w1" using q Inr d(1) by (auto simp: calm_def calm_disk_def)
    ultimately show ?thesis by blast
  qed
qed

definition fresh_request :: "'c pairing \<Rightarrow> rng \<Rightarrow> ('c, unit) agent \<Rightarrow> bool" where
  "fresh_request X rng sv \<longleftrightarrow> (\<forall>c. ags_cluster (agent_view (coordinator_env X) sv) = Some c \<longrightarrow>
     unused_request c (JoinRequestId (rng 0)))"

lemma fresh_open: "fresh_request X rng sv \<Longrightarrow> server_open X sv (\<lambda>_. False) \<Longrightarrow> server_open X sv (\<lambda>r. r = JoinRequestId (rng 0))"
  by (auto simp: fresh_request_def server_open_def server_cluster_def)

text \<open>Recording the request: the device then waits for it.\<close>

lemma begin_waiting:
  assumes "pairing_ok X" "begin_join_edit rng (pr_invitation X) (le_endpoint (pr_link X)) (pr_token X) s = Inr (p, s')"
    and "phase X s sv" "fresh_request X rng sv"
  shows "ags_cluster s' = None \<and> ags_pending_join s' = Some p \<and> waiting X p sv \<and>
    ags_device_id s' = ags_device_id s \<and> ags_device_name s' = ags_device_name s"
  using assms(2)
proof (cases rule: begin_join_edit_cases)
  case 1
  have "\<not> joined X s sv" using 1(1) by (simp add: joined_def)
  with assms(1,3,4) 1 fresh_open [of X rng sv] show ?thesis
    by (auto simp: phase_def waiting_def pending_fits_def pairing_ok_def)
qed

abbreviation attempt ::
    "'c pairing \<Rightarrow> rng \<Rightarrow> u64 \<Rightarrow> ('d, 'c peer_link, control_response) agent_op" where
  "attempt X rng now \<equiv> join_cluster (pr_agent X) (link_channel (pr_link X)) rng now (pr_local X) (le_endpoint (pr_link X)) (pr_token X)"

text \<open>One attempt: the phases are kept whatever fails, and it completes if nothing does.\<close>

lemma attempt_step:
  fixes w :: "('d, 'c peer_link) agent"
  assumes "pairing_ok X" "join_phase X w" "fresh_request X rng (pl_server (ag_net w))" "attempt X rng now w = (r, w')"
  shows "join_phase X w' \<and> (calm X w \<longrightarrow> (\<exists>summary. r = Inr (Joined summary)) \<and>
    joined X (agent_view (pr_agent X) w') (pl_server (ag_net w')))"
proof -
  let ?A = "pr_agent X"
  let ?s = "agent_view ?A w"
  let ?sv = "pl_server (ag_net w)"
  let ?start = "begin_join_edit rng (pr_invitation X) (le_endpoint (pr_link X)) (pr_token X)"
  have ok: "agent_ok ?A w" and ph: "phase X ?s ?sv" using assms(2) by (simp_all add: join_phase_def)
  have dec: "invitation_decode (ae_tokens ?A) (pr_token X) = Inr (pr_invitation X)"
    "pin_coordinator_device_id (pr_invitation X) = le_device (pr_link X)" using assms(1) by (simp_all add: pairing_ok_def)
  obtain q1 w1 where 1: "on_disk (agent_load ?A) w = (q1, w1)" by fastforce
  obtain d1 where d1: "w1 = w\<lparr>ag_disk := d1\<rparr>" "cluster_ok (ae_json ?A) (ae_store ?A) d1" "cluster_view (ae_json ?A) (ae_store ?A) d1 = ?s"
    and q1: "q1 = Inr ?s \<and> (healthy (ag_disk w) \<and> \<not> cst_poisoned (ae_store ?A) \<longrightarrow> healthy d1) \<or>
      (\<exists>e. q1 = Inl e) \<and> \<not> (healthy (ag_disk w) \<and> \<not> cst_poisoned (ae_store ?A))"
    by (rule load_step [OF ok 1])
  have ph1: "join_phase X w1" by (rule join_phase_disk [OF assms(2) d1])
  show ?thesis
  proof (cases q1)
    case (Inl e)
    with 1 dec assms(4) have "w' = w1" by (simp add: join_cluster_def)
    with ph1 q1 Inl show ?thesis by (auto simp: calm_def calm_disk_def)
  next
    case (Inr s)
    with q1 have s: "s = ?s" and h1: "healthy (ag_disk w) \<and> \<not> cst_poisoned (ae_store ?A) \<longrightarrow> healthy d1" by auto
    show ?thesis
    proof (cases "ags_cluster ?s")
      case (Some c)
      with ph have j: "joined X ?s ?sv" by (simp add: phase_def)
      then have "r = Inr (Joined (cluster_summary_of c))" "w' = w1"
        using 1 dec assms(4) Inr s Some by (auto simp: join_cluster_def joined_def)
      with ph1 j d1 show ?thesis by auto
    next
      case None
      obtain q2 w2 where 2: "on_disk (agent_update ?A ?start) w1 = (q2, w2)" by fastforce
      have rest: "op_bind (on_disk (agent_update ?A ?start)) (\<lambda>pending. op_bind (on_disk (agent_load ?A)) (\<lambda>state.
          op_bind (request_join ?A (link_channel (pr_link X)) (le_endpoint (pr_link X)) pending (own_member state (pr_local X) now))
            (finish_join ?A pending))) w1 = (r, w')"
        using 1 dec assms(4) Inr s None by (simp add: join_cluster_def)
      have ok1: "agent_ok ?A w1" using d1 by simp
      from ok1 2 show ?thesis
      proof (cases rule: update_step)
        case (kept d2 e)
        have "w' = w2" "r = Inl e" using rest 2 kept by simp_all
        moreover have "join_phase X w2" by (rule join_phase_disk [OF ph1 kept(1,2,4)])
        moreover have "\<exists>y. ?start ?s = Inr y" using None ph dec(2)
          by (auto simp: begin_join_edit_def phase_def joined_def waiting_def pending_fits_def Let_def split: option.splits)
        ultimately show ?thesis using kept d1 h1 by (auto simp: calm_def calm_disk_def)
      next
        case (changed d2 p s2)
        have "?start ?s = Inr (p, s2)" using changed(4) d1 by simp
        from begin_waiting [OF assms(1) this ph assms(3)]
        have s2: "ags_cluster s2 = None" "ags_pending_join s2 = Some p" "waiting X p ?sv"
          "ags_device_id s2 = ags_device_id ?s" "ags_device_name s2 = ags_device_name ?s" by simp_all
        have w2: "w2 = w\<lparr>ag_disk := d2\<rparr>" using changed(1) d1 by simp
        have "validate_member (own_member s2 (pr_local X) 0) = Inr ()"
          using assms(2) s2(4,5) by (auto simp: join_phase_def own_member_def)
        then have ph2: "join_phase X w2"
          using changed(2,5) s2 assms(2) by (simp add: w2 join_phase_def phase_def validate_own_bump)
        have calm: "calm X w \<longrightarrow> calm X w2" using changed(6) h1 d1(1) w2 by (auto simp: calm_def calm_disk_def)
        from rest 2 changed(3) have "op_bind (on_disk (agent_load ?A)) (\<lambda>state.
            op_bind (request_join ?A (link_channel (pr_link X)) (le_endpoint (pr_link X)) p (own_member state (pr_local X) now))
              (finish_join ?A p)) w2 = (r, w')" by simp
        with load_request_step [OF assms(1) ph2, of p now r w'] s2(1,2) changed(1,5) calm show ?thesis by simp
      qed
    qed
  qed
qed

subsection \<open>Any number of attempts\<close>

text \<open>
  Attempts to join, and between them whatever happens to the device and the network: failures and repairs
  of its disk, a restart, a changed behaviour of the connection, answers the coordinator will drop.
\<close>

inductive join_attempts :: "'c pairing \<Rightarrow> ('d, 'c peer_link) agent \<Rightarrow> ('d, 'c peer_link) agent \<Rightarrow> bool" for X where
  no_attempt: "join_attempts X w w"
| another: "join_attempts X w w1 \<Longrightarrow> fresh_request X rng (pl_server (ag_net w1)) \<Longrightarrow> attempt X rng now w1 = (r, w2) \<Longrightarrow>
    join_attempts X w w2"
| disturbed: "join_attempts X w w1 \<Longrightarrow> dk_files (ag_disk w2) = dk_files (ag_disk w1) \<Longrightarrow>
    pl_server (ag_net w2) = (pl_server (ag_net w1))\<lparr>ag_dropped_responses := k\<rparr> \<Longrightarrow> join_attempts X w w2"

lemma server_dropped [simp]:
  "server_open X (sv\<lparr>ag_dropped_responses := k\<rparr>) P = server_open X sv P"
  "server_accepted X (sv\<lparr>ag_dropped_responses := k\<rparr>) request credential = server_accepted X sv request credential"
  by (simp_all add: server_open_def server_accepted_def server_cluster_def)

lemma phase_dropped [simp]: "phase X s (sv\<lparr>ag_dropped_responses := k\<rparr>) = phase X s sv"
  by (simp add: phase_def joined_def waiting_def cong: option.case_cong)

lemma join_attempts_phase: "join_attempts X w w' \<Longrightarrow> pairing_ok X \<Longrightarrow> join_phase X w \<Longrightarrow> join_phase X w'"
proof (induction rule: join_attempts.induct)
  case (another w w1 rng now r w2)
  with attempt_step [of X w1 rng now r w2] show ?case by blast
next
  case (disturbed w w1 w2 k)
  then have ph: "join_phase X w1" by blast
  have "same_state (ae_store (pr_agent X)) (ag_disk w1) (ag_disk w2)" using disturbed.hyps(2) by (simp add: same_state_def)
  from same_state_kept [OF this, of "ae_json (pr_agent X)"] ph disturbed.hyps(3) show ?case
    by (simp add: join_phase_def)
qed blast

lemma joined_entitled:
  assumes "joined X s sv" "ags_device_id s = joiner X"
  shows "\<exists>c. ags_cluster s = Some c \<and> scl_role c = Member \<and>
    entitled (ae_sha256 (coordinator_env X)) (agent_view (coordinator_env X) sv) (own_authorization s c) (joiner X)"
proof -
  obtain c request cc where c: "ags_cluster s = Some c" "scl_role c = Member" "scl_id c = pin_cluster_id (pr_invitation X)"
    and sc: "server_cluster X sv cc" "\<exists>a \<in> set (scl_accepted_joins cc). aj_request_id a = request \<and> aj_device_id a = joiner X \<and> aj_credential a = scl_credential c"
    using assms(1) by (auto simp: joined_def server_accepted_def)
  then obtain a where a: "a \<in> set (scl_accepted_joins cc)" "aj_device_id a = joiner X" "aj_credential a = scl_credential c" by blast
  have wf: "coordinator_wf (coordinator_env X) (ags_device_id (agent_view (coordinator_env X) sv)) cc"
    and cc: "ags_cluster (agent_view (coordinator_env X) sv) = Some cc" "scl_id cc = pin_cluster_id (pr_invitation X)"
    using sc(1) by (auto simp: server_cluster_def agent_wf_def)
  then obtain m where m: "m \<in> set (scl_members cc)" "mb_device_id (stm_member m) = joiner X" "stm_credential m = scl_credential c"
    "stm_credential_digest m = credential_digest (ae_sha256 (coordinator_env X)) (stm_credential m)"
    using a by (fastforce simp: coordinator_wf_def)
  have "expected_digest (ae_sha256 (coordinator_env X)) m = credential_digest (ae_sha256 (coordinator_env X)) (scl_credential c)"
    using m(3,4) by (simp add: expected_digest_def)
  with c cc m assms(2) show ?thesis by (auto simp: entitled_def own_authorization_def)
qed

text \<open>
  C2: joining is safe to retry. Starting with an outstanding invitation, make any number of attempts to
  join with it, during which connections break, requests and answers get lost, the device's disk fails at
  any call and the device stops at any point, also after the coordinator accepted it. The first attempt
  during which nothing fails then succeeds, and the credential the device has stored is the one the
  coordinator authorizes it by.
\<close>

theorem join_retry_completes:
  assumes "pairing_ok X" "join_phase X w" "join_attempts X w w1" "calm X w1"
    and "fresh_request X rng (pl_server (ag_net w1))" "attempt X rng now w1 = (r, w')"
  shows "\<exists>summary c. r = Inr (Joined summary) \<and> ags_cluster (agent_view (pr_agent X) w') = Some c \<and> scl_role c = Member \<and>
    entitled (ae_sha256 (coordinator_env X)) (agent_view (coordinator_env X) (pl_server (ag_net w')))
      (own_authorization (agent_view (pr_agent X) w') c) (joiner X)"
proof -
  have ph: "join_phase X w1" by (rule join_attempts_phase [OF assms(3,1,2)])
  note step = attempt_step [OF assms(1) ph assms(5,6)]
  then have "ags_device_id (agent_view (pr_agent X) w') = joiner X" by (simp add: join_phase_def)
  with step assms(4) joined_entitled show ?thesis by blast
qed

text \<open>The coordinator with the outstanding invitation, and a device that has not joined yet.\<close>

definition demo_pairing :: "unit pairing" where
  "demo_pairing = \<lparr>pr_link = \<lparr>le_agent = demo_env, le_content = None, le_endpoint = demo_address 1, le_device = demo_coordinator,
     le_client = demo_joiner, le_rng = (\<lambda>k i. of_nat (k + i)), le_now = (\<lambda>k. 6)\<rparr>,
     pr_agent = demo_env, pr_invitation = demo_invitation, pr_token = demo_token, pr_local = demo_address 2\<rparr>"

definition demo_device :: "(unit, unit peer_link) agent" where
  "demo_device = demo_agent (initial_state demo_joiner ''laptop'') () \<lparr>pl_server = demo_agent demo_coordinator_state () (),
     pl_inbox = [], pl_awaiting = None, pl_script = [], pl_calls = 0\<rparr>"

lemma demo_pairing_sel [simp]:
  "pr_agent demo_pairing = demo_env" "coordinator_env demo_pairing = demo_env" "joiner demo_pairing = demo_joiner"
  by (simp_all add: demo_pairing_def)

lemma demo_pairing_ok: "pairing_ok demo_pairing"
  by (simp add: pairing_ok_def demo_pairing_def demo_invitation_def invitation_new_def)

lemma demo_join_phase: "join_phase demo_pairing demo_device"
proof -
  have "validate_member (own_member (initial_state demo_joiner ''laptop'') (demo_address 2) 0) = Inr ()" by code_simp
  moreover have "server_open demo_pairing (demo_agent demo_coordinator_state () ()) (\<lambda>_. False)"
    by (simp add: server_open_def server_cluster_def) (simp add: demo_pairing_def demo_invitation_def invitation_new_def)
  ultimately show ?thesis
    by (simp add: join_phase_def demo_device_def phase_def) (simp add: initial_state_def demo_pairing_def)
qed

theorem join_retry_completes_witness:
  "\<exists>r w' summary c. attempt demo_pairing (\<lambda>_. 9) 5 demo_device = (r, w') \<and> r = Inr (Joined summary) \<and>
    ags_cluster (agent_view demo_env w') = Some c \<and>
    entitled (\<lambda>bs. bs) (agent_view demo_env (pl_server (ag_net w'))) (own_authorization (agent_view demo_env w') c) demo_joiner"
proof -
  obtain r w' where run: "attempt demo_pairing (\<lambda>_. 9) 5 demo_device = (r, w')" by fastforce
  have "calm demo_pairing demo_device" by (simp add: calm_def calm_disk_def demo_device_def)
  moreover have "fresh_request demo_pairing (\<lambda>_. 9) (pl_server (ag_net demo_device))"
    by (simp add: fresh_request_def demo_device_def unused_request_def)
  ultimately show ?thesis
    using join_retry_completes [OF demo_pairing_ok demo_join_phase no_attempt _ _ run] run by auto
qed

end
