(* ===== verification/Scheduler.thy ===== *)
theory Scheduler
  imports Identifier
begin

section \<open>Job placement\<close>

text \<open>
  \<open>kubeweft-scheduler\<close>: a job goes to the first device that advertises the capability it needs.
\<close>

record device_state =
  ds_id :: device_id
  ds_capabilities :: "capability_id list"

record cluster_state =
  cls_devices :: "device_state list"

record job_request =
  jr_job_id :: job_id
  jr_required_capability :: capability_id

datatype plan_step = StartAllocation job_id device_id

record plan =
  plan_steps :: "plan_step list"

definition scheduler_plan :: "cluster_state \<Rightarrow> job_request \<Rightarrow> plan" where
  "scheduler_plan cluster request = \<lparr>plan_steps =
     (case find (\<lambda>device. jr_required_capability request \<in> set (ds_capabilities device)) (cls_devices cluster) of
        None \<Rightarrow> []
      | Some device \<Rightarrow> [StartAllocation (jr_job_id request) (ds_id device)])\<rparr>"

text \<open>
  A job is started if and only if some device can run it, on a device that can, and no device before it can.
\<close>

lemma find_append_first: "(\<forall>y \<in> set ys. \<not> P y) \<Longrightarrow> P x \<Longrightarrow> find P (ys @ x # zs) = Some x"
  by (induction ys) simp_all

lemma find_Some_split: "find P xs = Some x \<Longrightarrow> \<exists>ys zs. xs = ys @ x # zs \<and> P x \<and> (\<forall>y \<in> set ys. \<not> P y)"
proof (induction xs)
  case (Cons y xs)
  show ?case
  proof (cases "P y")
    case True
    with Cons.prems show ?thesis by (intro exI [of _ "[]"] exI [of _ xs]) simp
  next
    case False
    with Cons obtain ys zs where "xs = ys @ x # zs" "P x" "\<forall>y \<in> set ys. \<not> P y" by auto
    with False show ?thesis by (intro exI [of _ "y # ys"] exI [of _ zs]) simp
  qed
qed simp

lemma scheduler_plan_first:
  "plan_steps (scheduler_plan cluster request) = [StartAllocation job device] \<longleftrightarrow>
     (\<exists>before d after. cls_devices cluster = before @ d # after \<and> jr_required_capability request \<in> set (ds_capabilities d) \<and>
       (\<forall>b \<in> set before. jr_required_capability request \<notin> set (ds_capabilities b)) \<and>
       job = jr_job_id request \<and> device = ds_id d)" (is "?started \<longleftrightarrow> ?first")
proof
  assume ?started
  then obtain d where d: "find (\<lambda>device. jr_required_capability request \<in> set (ds_capabilities device)) (cls_devices cluster) = Some d"
    and "job = jr_job_id request" "device = ds_id d" by (auto simp: scheduler_plan_def split: option.splits)
  with find_Some_split [OF d] show ?first by blast
next
  assume ?first
  then show ?started by (auto simp: scheduler_plan_def find_append_first)
qed

lemma scheduler_plan_none:
  "plan_steps (scheduler_plan cluster request) = [] \<longleftrightarrow>
     (\<forall>d \<in> set (cls_devices cluster). jr_required_capability request \<notin> set (ds_capabilities d))"
  by (auto simp: scheduler_plan_def find_None_iff split: option.splits dest: find_SomeD)

end
