(* ===== verification/Spec2Isabelle.thy ===== *)
theory Spec2Isabelle
  imports Command_Line Desktop_Bridge Agent_Program Replication_Props Local_Metadata Join_Retry Peer_Content Framing Control_Client Scheduler
begin

text \<open>
  A verification of kubeweft, a personal cluster: devices that pair with each other and share a
  content-addressed filesystem.

  \<^bold>\<open>The program.\<close> A \<^emph>\<open>filesystem service\<close> (\<open>kubeweft-filesystem\<close>) keeps a namespace of
  directories and files in a metadata snapshot, which clients replace by compare-and-swap, and the bytes of files as
  blobs named by their SHA-256 digest, in the content stores of several devices. A \<^emph>\<open>reconciler\<close> copies blobs
  until each retained one has its number of replicas. An \<^emph>\<open>agent\<close> (\<open>kubeweft-transport\<close>) runs on every
  device: it keeps the device's key pair and its cluster membership on disk, answers users over a local socket and
  peers over an encrypted channel, lets a coordinator hand out one-time invitations and credentials, tracks which
  members are there, and stores and serves blobs for them, so that a remote device is a content store to the
  filesystem (\<open>kubeweft-filesystem-network\<close>).

  \<^bold>\<open>Conventions.\<close> Names are those of the source. A method is a function from the state it changes to a
  result and the new state (\<open>('s, 'e, 'a) op\<close> of \<open>Prelude\<close>, \<open>Inl\<close> the error); \<open>?\<close> is
  \<open>op_bind\<close>. Unsigned integers are words of their width and wrap as in a release build. Strings are the bytes of
  their UTF-8 form. Ordered maps are association lists sorted by key (\<open>BTree_Map\<close>), the order of iteration
  included. Random identifiers and the clock are arguments. SHA-256, the JSON, base64 and UUID codecs, the curve
  arithmetic and the Noise library are parameters; what is assumed of them (decoding inverts encoding, the cipher
  states of two ends agree) is a named hypothesis with an instance in a witness. No property assumes that SHA-256 is
  injective; where the absence of a second preimage matters, it is a hypothesis about the digest at hand. A trait object is the record of its methods.

  \<^bold>\<open>The filesystem.\<close>
  \<^item> \<open>Prelude\<close>, \<open>Rust_Std\<close>, \<open>Rust_Text\<close>, \<open>BTree_Map\<close>: results, state passing, and the parts of the Rust library the sources use, numbers in text and UTF-8 among them.
  \<^item> \<open>Identifier\<close> (\<open>kubeweft-model\<close>, \<open>kubeweft-identity\<close> and the boundary crates), \<open>Fs_Domain\<close>
    (\<open>domain.rs\<close>), \<open>Fs_Path\<close> (\<open>path.rs\<close>): identifiers, records and paths, with their round trips.
  \<^item> \<open>Metadata\<close> (\<open>metadata.rs\<close>): snapshots, the locale \<open>metadata_store\<close>, the store in memory and the retry
    loop. The store is shared: a script says what other clients commit before each call. The loop makes eight attempts,
    as the code has it. A mutation that returns made one swap (\<open>shared_swap\<close>; \<open>commits\<close> in the locale), computed from the very
    snapshot it replaced: \<open>others_step s u\<close> and \<open>t = shared_swap y u\<close> say that the state \<open>t\<close> is \<open>s\<close> after what others committed
    and then this swap, and determine the store at the swap (\<open>commit_point_unique\<close>).
  \<^item> \<open>Namespace\<close> (\<open>namespace.rs\<close>), with \<open>Namespace_Tree\<close>, \<open>Namespace_Correct\<close>, \<open>Namespace_Refine\<close>
    and \<open>Namespace_Props\<close>: the abstract namespace is a partial map from paths to targets; every operation refines
    the operation on that map, on every branch, and a well-formed namespace is a tree. The walk up the tree in
    \<open>rename\<close>, which need not end on a cyclic graph, is a \<open>partial_function\<close>, and is proved to return.
  \<^item> \<open>Placement\<close> (\<open>placement.rs\<close>), \<open>Content\<close> (\<open>content.rs\<close>; the locale \<open>content_store\<close>), \<open>Service\<close>
    (\<open>service.rs\<close>), \<open>Retention\<close>, \<open>Replication\<close> (\<open>replication.rs\<close>).
  \<^item> \<open>System\<close>, \<open>System_Props\<close>: runs of service and reconciler calls with other clients, changing nodes and
    arbitrary changes of stored bytes; \<open>Service_Props\<close>, \<open>Service_Correct\<close>: reads and writes;
    \<open>Replication_Props\<close>: a pass over memory stores restores the durability of a blob.

  \<^bold>\<open>Persistence.\<close> \<open>Disk\<close> has the calls of \<open>std::fs\<close> on a disk with a script of failures: every call may fail,
  a write may stop half way, and an operation that fails at a call leaves the files as they were there, which also
  covers a process that stops there. \<open>Disk_Frame\<close> computes which files an operation touches. On it:
  \<^item> \<open>Local_Metadata\<close> (\<open>LocalMetadataStore\<close>) interprets \<open>metadata_store\<close> and is crash safe;
  \<^item> \<open>Local_Content\<close> (\<open>LocalContentStore\<close>) interprets \<open>content_store\<close>, is crash safe and stays within its capacity;
  \<^item> \<open>Device_Identity\<close> (\<open>identity.rs\<close>) keeps one key pair; what the generator draws is an argument of each call;
  \<^item> \<open>Cluster_Store\<close> (\<open>store.rs\<close>; the locale \<open>state_store\<close>) keeps the membership state; an update runs under an exclusive
    lock and is one step;
  \<^item> \<open>Local_Filesystem\<close> and \<open>Local_Service\<close> (\<open>kubeweft-local\<close>): the service on these stores. Directory trees are made on disk,
    also when calls fail in between. Opening touches no file of the stores, a later opening finds the same device, and what is
    written through the service is read back from the disk.

  \<open>Path::exists\<close> answers \<open>false\<close> when its \<open>stat\<close> fails, and the sources then take the file for missing. What that does to
  the stored metadata and to the key is proved in \<open>stat_failure_overwrites\<close> and \<open>stat_failure_renews\<close>. Theorems about files that
  \<open>Path::exists\<close> guards assume that \<open>stat\<close> does not fail (\<open>stat_reliable\<close>, a part of \<open>local_ok\<close>) and allow every other failure.

  \<^bold>\<open>The cluster.\<close>
  \<^item> \<open>Transport_Domain\<close> (\<open>domain.rs\<close>, \<open>error.rs\<close>), \<open>Wire\<close> (\<open>wire.rs\<close>), \<open>Presence\<close> (\<open>presence.rs\<close>).
  \<^item> \<open>Agent\<close> (\<open>agent.rs\<close>): every handler. What a handler changes through \<open>update\<close> is an \<open>edit\<close> of the state.
    \<open>Agent_Inv\<close> has the step relation \<open>agent_edit\<close>, the invariant \<open>agent_wf\<close> and the count of places;
    \<open>Agent_Runs\<close> shows that each handler only makes such steps, whatever fails; \<open>Agent_Props\<close> runs handlers and restarts
    in any order (\<open>agent_run\<close>, which counts the invitations handed out). Handlers of different connections interleave in the program at their calls to the store;
    each of its edits reads the state again under the lock, and the invariant is proved of every sequence of edits, so
    for every interleaving of them.
  \<^item> \<open>Peer_Link\<close>: a device connected to an agent by a network that may refuse a connection, lose a request or lose an
    answer. \<open>Join_Retry\<close>: joining over it, with retries.
  \<^item> \<open>Peer_Content\<close> (\<open>peer_content.rs\<close>, \<open>kubeweft-filesystem-network\<close>): a remote store over such a link is again a
    \<open>content_store\<close> (\<open>sublocale\<close>), both for a store in memory and for the store on disk of the peer.
  \<^item> \<open>Framing\<close> (\<open>wire.rs\<close>, \<open>secure.rs\<close>): frames, the handshake and payloads in chunks on a byte stream. \<open>Exchange\<close>: the locale
    \<open>message_channel\<close>, of which local frames and encrypted messages are the two instances.
  \<^item> \<open>Control_Client\<close> (\<open>client.rs\<close>, \<open>discovery.rs\<close>): requests are effects on what is at the other end of a link. \<open>Scheduler\<close> (\<open>kubeweft-scheduler\<close>).
  \<^item> \<open>Agent_Service\<close> (\<open>agent.rs\<close>, \<open>local_ipc.rs\<close>): start and end of an agent, connections from their first byte to their last,
    and the loops of the threads, each given by what its calls of \<open>accept\<close> return or by its rounds until it sees the
    shutdown flag; no fuel is needed. A thread makes rounds of one kind, and the life of an agent is any sequence of rounds.
  \<open>Demo_Agents\<close> holds the agents the witnesses run.

  \<^bold>\<open>The programs.\<close> They take the environment, the standard input and the sockets as arguments and return what they
  print.
  \<^item> \<open>Command_Line\<close> (\<open>apps/cli\<close>): arguments are the state that parsing consumes; a command is parsed, run and printed.
  \<^item> \<open>Desktop_Bridge\<close> (\<open>apps/desktop/bridge\<close>): the C functions of the desktop shell, and the JSON texts they answer with.
  \<^item> \<open>Agent_Program\<close> (\<open>agents/linux\<close>): options of the agent and its start on the content store of the data directory.

  \<^bold>\<open>What is shown.\<close> Safety of runs: the metadata of the filesystem and the membership state of an agent keep
  their invariants under any order of calls, failures and other clients. Functional correctness: each namespace
  mutation, \<open>write\<close>, \<open>accept_member\<close> and the placement policy do what their specification says and nothing else. Integrity:
  reads, local or remote, return only bytes that match what was asked for. Crash safety of the stores on disk.
  Authorization: a peer with neither a credential nor a way to join changes nothing. Liveness: a reconciliation with a source and room
  restores a blob, and a join that was broken off anywhere completes on the first retry without failures. Atomicity: a namespace mutation or write that
  returns is one swap on top of what others committed, of the state it was computed from. Round trips
  of paths and payloads, of command lines and options. Bounds on stores and on the number of members. End to end: an agent keeps its
  invariant from its start on, whatever bytes its connections carry; a client of the control channel and a
  peer on the encrypted channel get exactly what the handler answers; what one run of the command line or of the desktop shell writes, a later one reads.

  \<^bold>\<open>Not modelled.\<close> The order in which threads get to run and how long they sleep; sockets but for the bytes that pass on them, and
  the options set on them. Losing data that were written but not flushed in a power failure. The directory structure of
  the host's disk, beyond names of files. A standard output that fails. The desktop shell itself, which is not written in Rust, and the
  crate \<open>kubeweft-protocol\<close>, which has no code.
\<close>

end
